theory Spec2Isabelle
  imports Main "HOL-Library.Word" "HOL-Library.Stream"
begin

section \<open>Basic types\<close>

text \<open>
  Go's \<^verbatim>\<open>string\<close> and \<^verbatim>\<open>[]byte\<close> are both byte sequences and are modelled as
  \<^typ>\<open>string\<close>. A Go \<^verbatim>\<open>error\<close> is represented by the text its \<^verbatim>\<open>Error()\<close> method
  returns; the nil error is \<^term>\<open>None\<close>. \<^verbatim>\<open>uint64\<close> is \<^typ>\<open>64 word\<close>.
\<close>

type_synonym bytes = string
type_synonym error = string
type_synonym u64 = "64 word"

section \<open>event.go\<close>

text \<open>
  \<^verbatim>\<open>strings.Split(s, ",")\<close>: both call sites split at the one-byte separator
  \<^verbatim>\<open>","\<close>. The result always has one more element than \<^verbatim>\<open>s\<close> has separators, so the
  empty string splits into one empty piece.
\<close>

fun Split :: "string \<Rightarrow> char \<Rightarrow> string list" where
  "Split [] sep = [[]]"
| "Split (c # cs) sep =
     (if c = sep then [] # Split cs sep
      else (case Split cs sep of
              [] \<Rightarrow> [[c]]
            | p # ps \<Rightarrow> (c # p) # ps))"

text \<open>
  The fields of the generated \<^verbatim>\<open>BrokerThrowEvent\<close> that \<^verbatim>\<open>event.go\<close> reads. \<^verbatim>\<open>To\<close> and
  \<^verbatim>\<open>Fid\<close> are addresses in the source; they are kept here in the form their
  \<^verbatim>\<open>String()\<close> method prints.
\<close>

record BrokerThrowEvent =
  ev_Index :: u64
  ev_To :: string
  ev_Fid :: string
  ev_Tid :: string
  ev_Funcs :: string
  ev_Args :: string

record Content =
  SrcContractId :: string
  DstContractId :: string
  Func :: string
  Args :: "bytes list"
  Callback :: string
  ArgsCb :: "bytes list"
  Rollback :: string
  ArgsRb :: "bytes list"

text \<open>
  \<^verbatim>\<open>handleArgs\<close> appends the bytes of every piece of the split, in order, to an empty
  slice.
\<close>

definition handleArgs :: "string \<Rightarrow> bytes list" where
  "handleArgs args = foldl (\<lambda>argsBytes a. argsBytes @ [a]) [] (Split args CHR '','')"

text \<open>
  \<^verbatim>\<open>encryptPayload\<close> up to the point where the content object is complete: the
  function list must have exactly three entries, otherwise the formatted error is
  returned.
\<close>

definition payloadContent :: "BrokerThrowEvent \<Rightarrow> error + Content" where
  "payloadContent ev =
     (let funcs = Split (ev_Funcs ev) CHR '','' in
      if length funcs \<noteq> 3 then Inl (''expected 3 functions, cur: '' @ ev_Funcs ev)
      else Inr \<lparr> SrcContractId = ev_Fid ev,
                 DstContractId = ev_Tid ev,
                 Func = funcs ! 0,
                 Args = handleArgs (ev_Args ev),
                 Callback = funcs ! 1,
                 ArgsCb = handleArgs (ev_Args ev),
                 Rollback = funcs ! 2,
                 ArgsRb = handleArgs (ev_Args ev) \<rparr>)"

text \<open>
  The rest of \<^verbatim>\<open>encryptPayload\<close> serialises the content and wraps it in the payload
  envelope. Both \<^verbatim>\<open>Marshal\<close> methods belong to the protobuf package and are
  parameters here.
\<close>

definition encryptPayload ::
  "(Content \<Rightarrow> error + bytes) \<Rightarrow> (bytes \<Rightarrow> error + bytes) \<Rightarrow> BrokerThrowEvent \<Rightarrow> error + bytes" where
  "encryptPayload marshalContent marshalPayload ev =
     (case payloadContent ev of
        Inl err \<Rightarrow> Inl err
      | Inr content \<Rightarrow>
          (case marshalContent content of
             Inl err \<Rightarrow> Inl err
           | Inr data \<Rightarrow> marshalPayload data))"

section \<open>The ledger seen from the client\<close>

text \<open>
  A function of the source that can panic returns an \<open>outcome\<close>; one that can wait
  forever returns an option, \<^term>\<open>None\<close> standing for a call that never returns.
\<close>

datatype 'a outcome = Return 'a | Panic string

type_synonym Hash = string

record Receipt =
  rcpt_Status :: u64
  rcpt_TxHash :: Hash

definition ReceiptStatusSuccessful :: u64 where
  "ReceiptStatusSuccessful = 1"

record IBTP =
  ibtp_From :: string
  ibtp_To :: string
  ibtp_Index :: u64
  ibtp_Type :: "32 word"
  ibtp_Timestamp :: "64 word"
  ibtp_Proof :: bytes
  ibtp_Payload :: bytes

record BxhProof =
  TxStatus :: "32 word"
  MultiSign :: "bytes list"

text \<open>\<^verbatim>\<open>pb.Result\<close>: \<open>res_Data\<close> holds the \<^verbatim>\<open>Data\<close> field of each entry of \<^verbatim>\<open>result.Data\<close>.\<close>

record Result =
  res_Data :: "bytes list list"
  MultiStatus :: "bool list"

record SubmitIBTPResponse =
  Status :: bool
  Message :: string

record GetDataRequest =
  req_Index :: u64
  req_From :: string
  req_To :: string
  req_Req :: bytes

record GetDataResponse =
  resp_Index :: u64
  resp_From :: string
  resp_To :: string
  resp_Type :: "32 word"
  resp_Msg :: string
  resp_Data :: bytes
  resp_ShardSize :: u64

text \<open>
  Declarations the client uses that live in the protobuf package, in the Go library or in
  other files of the repository: enum constants (the enums are \<^verbatim>\<open>int32\<close>), the enum's
  \<^verbatim>\<open>String\<close> method, the off-chain checks, the request constructor, the service-pair
  parser and \<^verbatim>\<open>filepath.Join\<close>. They are parameters of the model.
\<close>

record decls =
  IBTP_Multi :: "32 word"
  TransactionStatus_BEGIN :: "32 word"
  GetDataResponse_DATA_GET_SUCCESS :: "32 word"
  GetDataResponse_Type_String :: "32 word \<Rightarrow> string"
  CheckInterchainOffChain :: "Content \<Rightarrow> bool"
  CheckReceiptOffChain :: "IBTP \<Rightarrow> Result \<Rightarrow> error + bool"
  constructReq :: "u64 \<Rightarrow> string \<Rightarrow> string \<Rightarrow> bytes \<Rightarrow> GetDataRequest"
  ParseServicePair :: "string \<Rightarrow> error + string \<times> string"
  filepath_Join :: "string \<Rightarrow> string \<Rightarrow> string"

record Config =
  MinConfirm :: u64
  OffChainAddr :: string
  OffChainPath :: string
  TimeoutHeight :: u64

text \<open>
  \<^verbatim>\<open>Initialize\<close> sets exactly one of \<^verbatim>\<open>c.session\<close> and \<^verbatim>\<open>c.sessionDirect\<close>; \<open>Direct\<close>
  is the client whose \<^verbatim>\<open>c.session\<close> is nil.
\<close>

datatype mode = Relayed | Direct

record Client =
  config :: Config
  mode :: mode

text \<open>The transactions a ledger session can be asked to submit, with their arguments.\<close>

datatype call =
    Call_InvokeInterchain string string u64 u64 string "bytes list" u64 "bytes list" bool
  | Call_InvokeMultiInterchain string string u64 u64 string "bytes list list" u64 "bytes list" bool
  | Call_InvokeReceipt string string u64 u64 "bytes list list" u64 "bytes list"
  | Call_InvokeMultiReceipt string string u64 u64 "bytes list list" "bool list" u64 "bytes list"
  | Call_InvokeInterchains "string list" "string list" "u64 list" "u64 list" "string list"
      "bytes list list" "u64 list" "bytes list list" "bool list"

text \<open>
  Every call that leaves the client is recorded, with the answer it received, in the
  order in which it was made.
\<close>

datatype event =
    Transact mode call "error + Hash"
  | GetChainIDQuery mode "error + string \<times> string"
  | OutMessageQuery mode string string u64 u64 "error + IBTP"
  | BlockNumberQuery "error + u64"
  | TransactionReceiptQuery Hash "error + Receipt"

text \<open>
  The environment: for each kind of remote call the answers the ledger node will give to
  the successive calls of that kind, the calls made so far, and the queue of off-chain
  requests (\<^verbatim>\<open>c.reqCh\<close>). Log output and the pauses between attempts are not part of the
  model.
\<close>

record world =
  transact_resps :: "(error + Hash) stream"
  chainID_resps :: "(error + string \<times> string) stream"
  outMessage_resps :: "(error + IBTP) stream"
  blockNumber_resps :: "(error + u64) stream"
  receipt_resps :: "(error + Receipt) stream"
  trace :: "event list"
  reqCh :: "GetDataRequest list"

definition session_transact :: "mode \<Rightarrow> call \<Rightarrow> world \<Rightarrow> (error + Hash) \<times> world" where
  "session_transact m cl w =
     (shd (transact_resps w),
      w\<lparr>transact_resps := stl (transact_resps w),
        trace := trace w @ [Transact m cl (shd (transact_resps w))]\<rparr>)"

definition ethClient_BlockNumber :: "world \<Rightarrow> (error + u64) \<times> world" where
  "ethClient_BlockNumber w =
     (shd (blockNumber_resps w),
      w\<lparr>blockNumber_resps := stl (blockNumber_resps w),
        trace := trace w @ [BlockNumberQuery (shd (blockNumber_resps w))]\<rparr>)"

definition ethClient_TransactionReceipt :: "Hash \<Rightarrow> world \<Rightarrow> (error + Receipt) \<times> world" where
  "ethClient_TransactionReceipt h w =
     (shd (receipt_resps w),
      w\<lparr>receipt_resps := stl (receipt_resps w),
        trace := trace w @ [TransactionReceiptQuery h (shd (receipt_resps w))]\<rparr>)"

text \<open>
  Sending on the buffered channel \<^verbatim>\<open>c.reqCh\<close> (capacity 1024) blocks while it is full;
  nothing in the model drains it, so a send on a full channel never returns.
\<close>

definition send_reqCh :: "GetDataRequest \<Rightarrow> world \<Rightarrow> world option" where
  "send_reqCh req w =
     (if length (reqCh w) < 1024 then Some (w\<lparr>reqCh := reqCh w @ [req]\<rparr>) else None)"

section \<open>Library functions\<close>

text \<open>
  \<^verbatim>\<open>retry.Retry(action, strategy.Wait(d))\<close> of the retry library: the wait strategy
  never refuses another attempt, so the action is run again and again until it returns
  nil. \<^verbatim>\<open>Retry\<close> then returns nil as well: the branches that log its error are dead. The
  action works on the variables it has captured, here the state \<open>s\<close>.
\<close>

partial_function (option) Retry :: "('s \<Rightarrow> 's \<times> error option) \<Rightarrow> 's \<Rightarrow> 's option" where
  "Retry action s =
     (case action s of
        (s', None) \<Rightarrow> Some s'
      | (s', Some err) \<Rightarrow> Retry action s')"

text \<open>\<^verbatim>\<open>strings.Contains\<close>.\<close>

primrec Contains :: "string \<Rightarrow> string \<Rightarrow> bool" where
  "Contains [] substr = (substr = [])"
| "Contains (c # cs) substr = (take (length substr) (c # cs) = substr \<or> Contains cs substr)"

text \<open>
  \<^verbatim>\<open>strings.EqualFold\<close>, for the ASCII letters: contract addresses are hexadecimal
  text. (Go folds the letters outside ASCII as well.)
\<close>

definition to_lower :: "char \<Rightarrow> char" where
  "to_lower c =
     (case c of Char b0 b1 b2 b3 b4 b5 b6 b7 \<Rightarrow>
        if 65 \<le> (of_char c :: nat) \<and> (of_char c :: nat) \<le> 90
        then Char b0 b1 b2 b3 b4 True b6 b7 else c)"

definition EqualFold :: "string \<Rightarrow> string \<Rightarrow> bool" where
  "EqualFold s t = (map to_lower s = map to_lower t)"

text \<open>
  \<^verbatim>\<open>binary.BigEndian.Uint64\<close> reads the first eight bytes and panics on a shorter
  slice.
\<close>

definition Uint64 :: "bytes \<Rightarrow> u64 outcome" where
  "Uint64 b =
     (if length b < 8 then Panic ''index out of range''
      else Return (foldl (\<lambda>v c. v * 256 + of_nat (of_char c)) 0 (take 8 b)))"

text \<open>
  The slice expression \<^verbatim>\<open>s[i:j]\<close>, with the length of \<open>s\<close> as its capacity. (Go allows
  \<open>j\<close> up to the capacity; the slice expressions of the client that do not panic here
  stay within the length.)
\<close>

definition slice :: "'a list \<Rightarrow> int \<Rightarrow> int \<Rightarrow> 'a list outcome" where
  "slice s i j =
     (if 0 \<le> i \<and> i \<le> j \<and> j \<le> int (length s)
      then Return (take (nat (j - i)) (drop (nat i) s))
      else Panic ''slice bounds out of range'')"

text \<open>Go's \<^verbatim>\<open>%\<close> on \<^verbatim>\<open>int\<close> truncates towards zero; the caller checks the divisor.\<close>

definition go_rem :: "int \<Rightarrow> int \<Rightarrow> int" where
  "go_rem a b = sgn a * (\<bar>a\<bar> mod \<bar>b\<bar>)"

section \<open>Confirmation\<close>

text \<open>
  \<^verbatim>\<open>getBestBlock\<close>: the block number is asked for until the node answers without an
  error. The retry never gives up, so the panic after it cannot be reached. An answer
  with an error assigns the number that comes with it (zero in go-ethereum) to
  \<^verbatim>\<open>blockNum\<close>; the next attempt overwrites it.
\<close>

definition getBestBlock :: "world \<Rightarrow> (u64 \<times> world) option" where
  "getBestBlock w =
     Retry (\<lambda>(blockNum, w).
              (case ethClient_BlockNumber w of
                 (Inl err, w') \<Rightarrow> ((0, w'), Some err)
               | (Inr n, w') \<Rightarrow> ((n, w'), None)))
           (0, w)"

text \<open>
  The waiting loop of \<^verbatim>\<open>waitForConfirmed\<close>:
  \<^verbatim>\<open>for c.getBestBlock()-start < c.config.Ether.MinConfirm { time.Sleep(...) }\<close>.
  The subtraction is the one of \<^verbatim>\<open>uint64\<close>.
\<close>

partial_function (option) waitLoop :: "u64 \<Rightarrow> u64 \<Rightarrow> world \<Rightarrow> world option" where
  "waitLoop minConfirm start w =
     (case getBestBlock w of
        None \<Rightarrow> None
      | Some (cur, w') \<Rightarrow>
          if cur - start < minConfirm then waitLoop minConfirm start w' else Some w')"

definition waitForConfirmed :: "Client \<Rightarrow> Hash \<Rightarrow> world \<Rightarrow> (Receipt option \<times> world) option" where
  "waitForConfirmed c hash w =
     (case getBestBlock w of
        None \<Rightarrow> None
      | Some (start, w1) \<Rightarrow>
          (case waitLoop (MinConfirm (config c)) start w1 of
             None \<Rightarrow> None
           | Some w2 \<Rightarrow>
               Retry (\<lambda>(receipt, w).
                        (case ethClient_TransactionReceipt hash w of
                           (Inl err, w') \<Rightarrow> ((None, w'), Some err)
                         | (Inr r, w') \<Rightarrow> ((Some r, w'), None)))
                     (None, w2)))"

section \<open>Submitting transactions\<close>

text \<open>
  The closure that \<^verbatim>\<open>invokeInterchain\<close>, \<^verbatim>\<open>InvokeMultiInterchain\<close>, \<^verbatim>\<open>invokeReceipt\<close>,
  \<^verbatim>\<open>InvokeMultiReceipt\<close> and \<^verbatim>\<open>SubmitIBTPBatch\<close> hand to \<^verbatim>\<open>retry.Retry\<close>. It is the
  same in all five but for the session method called: the call's results are stored in
  the captured \<open>tx\<close> and \<open>txErr\<close>, and the closure returns nil when there is no error or
  when the error text contains \<^verbatim>\<open>execution reverted\<close>, and the error otherwise.
\<close>

definition attempt ::
  "mode \<Rightarrow> call \<Rightarrow> Hash option \<times> error option \<times> world
     \<Rightarrow> (Hash option \<times> error option \<times> world) \<times> error option" where
  "attempt m cl = (\<lambda>(tx, txErr, w).
     (case session_transact m cl w of
        (Inr t, w') \<Rightarrow> ((Some t, None, w'), None)
      | (Inl e, w') \<Rightarrow>
          ((None, Some e, w'), if Contains e ''execution reverted'' then None else Some e)))"

text \<open>
  What follows the retry in the four invoke functions: the stored error is returned if
  there is one, otherwise the transaction is waited for.
\<close>

definition confirm ::
  "Client \<Rightarrow> (Hash option \<times> error option \<times> world) option
     \<Rightarrow> ((Receipt option \<times> error option) outcome \<times> world) option" where
  "confirm c r =
     (case r of
        None \<Rightarrow> None
      | Some (tx, txErr, w) \<Rightarrow>
          (case txErr of
             Some e \<Rightarrow> Some (Return (None, Some e), w)
           | None \<Rightarrow>
               (case tx of
                  None \<Rightarrow> Some (Panic ''nil pointer dereference'', w)
                | Some h \<Rightarrow>
                    (case waitForConfirmed c h w of
                       None \<Rightarrow> None
                     | Some (receipt, w') \<Rightarrow> Some (Return (receipt, None), w')))))"

definition invokeInterchain ::
  "Client \<Rightarrow> string \<Rightarrow> u64 \<Rightarrow> string \<Rightarrow> u64 \<Rightarrow> string \<Rightarrow> bytes list \<Rightarrow> u64 \<Rightarrow> bytes list \<Rightarrow> bool
     \<Rightarrow> world \<Rightarrow> ((Receipt option \<times> error option) outcome \<times> world) option" where
  "invokeInterchain c srcFullID index destAddr reqType callFunc args txStatus multiSign encrypt w =
     confirm c
       (Retry (attempt (mode c)
                 (Call_InvokeInterchain srcFullID destAddr index reqType callFunc args
                    txStatus multiSign encrypt))
          (None, None, w))"

definition InvokeMultiInterchain ::
  "Client \<Rightarrow> string \<Rightarrow> u64 \<Rightarrow> string \<Rightarrow> u64 \<Rightarrow> string \<Rightarrow> bytes list list \<Rightarrow> u64 \<Rightarrow> bytes list
     \<Rightarrow> bool \<Rightarrow> world \<Rightarrow> ((Receipt option \<times> error option) outcome \<times> world) option" where
  "InvokeMultiInterchain c srcFullID index destAddr reqType callFunc args txStatus multiSign encrypt w =
     confirm c
       (Retry (attempt (mode c)
                 (Call_InvokeMultiInterchain srcFullID destAddr index reqType callFunc args
                    txStatus multiSign encrypt))
          (None, None, w))"

definition invokeReceipt ::
  "Client \<Rightarrow> string \<Rightarrow> string \<Rightarrow> u64 \<Rightarrow> u64 \<Rightarrow> bytes list list \<Rightarrow> u64 \<Rightarrow> bytes list
     \<Rightarrow> world \<Rightarrow> ((Receipt option \<times> error option) outcome \<times> world) option" where
  "invokeReceipt c srcAddr dstFullID index reqType results txStatus multiSign w =
     confirm c
       (Retry (attempt (mode c)
                 (Call_InvokeReceipt srcAddr dstFullID index reqType results txStatus multiSign))
          (None, None, w))"

definition InvokeMultiReceipt ::
  "Client \<Rightarrow> string \<Rightarrow> string \<Rightarrow> u64 \<Rightarrow> u64 \<Rightarrow> bytes list list \<Rightarrow> bool list \<Rightarrow> u64 \<Rightarrow> bytes list
     \<Rightarrow> world \<Rightarrow> ((Receipt option \<times> error option) outcome \<times> world) option" where
  "InvokeMultiReceipt c srcAddr destFullID index reqType results multiStatus txStatus multiSign w =
     confirm c
       (Retry (attempt (mode c)
                 (Call_InvokeMultiReceipt srcAddr destFullID index reqType results multiStatus
                    txStatus multiSign))
          (None, None, w))"

text \<open>
  \<^verbatim>\<open>GetChainID\<close> asks the session of the client's mode; the answer comes from the
  environment.
\<close>

definition GetChainID :: "Client \<Rightarrow> world \<Rightarrow> (error + string \<times> string) \<times> world" where
  "GetChainID c w =
     (shd (chainID_resps w),
      w\<lparr>chainID_resps := stl (chainID_resps w),
        trace := trace w @ [GetChainIDQuery (mode c) (shd (chainID_resps w))]\<rparr>)"

text \<open>
  \<^verbatim>\<open>GetOutMessage\<close>: after the service pair is parsed, the client's \<^verbatim>\<open>Convert2IBTP\<close>
  or \<^verbatim>\<open>Convert2DirectIBTP\<close> method (in another file) builds the message from the
  ledger; its answer comes from the environment.
\<close>

definition GetOutMessage :: "decls \<Rightarrow> Client \<Rightarrow> string \<Rightarrow> u64 \<Rightarrow> world \<Rightarrow> (error + IBTP) \<times> world" where
  "GetOutMessage d c servicePair idx w =
     (case ParseServicePair d servicePair of
        Inl err \<Rightarrow> (Inl err, w)
      | Inr (srcService, dstService) \<Rightarrow>
          (shd (outMessage_resps w),
           w\<lparr>outMessage_resps := stl (outMessage_resps w),
             trace := trace w @ [OutMessageQuery (mode c) srcService dstService idx
                                   (TimeoutHeight (config c)) (shd (outMessage_resps w))]\<rparr>))"

definition SubmitIBTPErr :: string where
  "SubmitIBTPErr = ''SubmitIBTP tx execution failed''"

definition SubmitReceiptErr :: string where
  "SubmitReceiptErr = ''SubmitReceipt tx execution failed''"

text \<open>
  The first block of \<^verbatim>\<open>SubmitIBTP\<close>, the off-chain check. Its result is the error with
  which \<^verbatim>\<open>SubmitIBTP\<close> returns at once, if any.
\<close>

definition SubmitIBTP_offChain ::
  "decls \<Rightarrow> Client \<Rightarrow> string \<Rightarrow> u64 \<Rightarrow> string \<Rightarrow> Content \<Rightarrow> world
     \<Rightarrow> (error option outcome \<times> world) option" where
  "SubmitIBTP_offChain d c from index serviceID content w =
     (if EqualFold serviceID (OffChainAddr (config c)) \<and> CheckInterchainOffChain d content then
        (case GetChainID c w of
           (Inl err, w1) \<Rightarrow> Some (Return (Some err), w1)
         | (Inr (bxhID, chainID), w1) \<Rightarrow>
             if length (Args content) \<le> 1 then Some (Panic ''index out of range'', w1)
             else (case send_reqCh
                          (constructReq d index (bxhID @ '':'' @ chainID @ '':'' @ serviceID)
                             from (Args content ! 1)) w1 of
                     None \<Rightarrow> None
                   | Some w2 \<Rightarrow> Some (Return None, w2)))
      else Some (Return None, w))"

text \<open>
  The loop that cuts the arguments of a multi-transaction message into groups:
  \<^verbatim>\<open>for i := 2; i < len(content.Args); { Args = append(Args, content.Args[i:i+num]); i += num }\<close>.
\<close>

partial_function (option) groupLoop ::
  "bytes list \<Rightarrow> int \<Rightarrow> int \<Rightarrow> bytes list list \<Rightarrow> bytes list list outcome option" where
  "groupLoop args num i Args' =
     (if i < int (length args) then
        (case slice args i (i + num) of
           Panic p \<Rightarrow> Some (Panic p)
         | Return g \<Rightarrow> groupLoop args num (i + num) (Args' @ [g]))
      else Some (Return Args'))"

text \<open>
  What \<^verbatim>\<open>SubmitIBTP\<close> and \<^verbatim>\<open>SubmitReceipt\<close> make of the result of an invoke function:
  an error or an unsuccessful receipt marks the response as failed, and the error
  returned is nil.
\<close>

definition respond ::
  "string \<Rightarrow> ((Receipt option \<times> error option) outcome \<times> world) option
     \<Rightarrow> ((SubmitIBTPResponse option \<times> error option) outcome \<times> world) option" where
  "respond failed r =
     (case r of
        None \<Rightarrow> None
      | Some (Panic p, w) \<Rightarrow> Some (Panic p, w)
      | Some (Return (receipt, Some err), w) \<Rightarrow>
          Some (Return (Some \<lparr>Status = False, Message = err\<rparr>, None), w)
      | Some (Return (None, None), w) \<Rightarrow> Some (Panic ''nil pointer dereference'', w)
      | Some (Return (Some rc, None), w) \<Rightarrow>
          if rcpt_Status rc \<noteq> ReceiptStatusSuccessful
          then Some (Return (Some \<lparr>Status = False, Message = failed\<rparr>, None), w)
          else Some (Return (Some \<lparr>Status = True, Message = []\<rparr>, None), w))"

text \<open>The rest of \<^verbatim>\<open>SubmitIBTP\<close>, from \<^verbatim>\<open>ret := &pb.SubmitIBTPResponse{Status: true}\<close> on.\<close>

definition SubmitIBTP_invoke ::
  "decls \<Rightarrow> Client \<Rightarrow> string \<Rightarrow> u64 \<Rightarrow> string \<Rightarrow> 32 word \<Rightarrow> Content \<Rightarrow> BxhProof \<Rightarrow> bool \<Rightarrow> world
     \<Rightarrow> ((SubmitIBTPResponse option \<times> error option) outcome \<times> world) option" where
  "SubmitIBTP_invoke d c from index serviceID ibtpType content proof isEncrypted w =
     (case Args content of
        [] \<Rightarrow> Some (Panic ''index out of range'', w)
      | a0 # as \<Rightarrow>
          (case Uint64 a0 of
             Panic p \<Rightarrow> Some (Panic p, w)
           | Return typ \<Rightarrow>
               if typ = scast (IBTP_Multi d) then
                 (case as of
                    [] \<Rightarrow> Some (Panic ''index out of range'', w)
                  | a1 # as' \<Rightarrow>
                      (case Uint64 a1 of
                         Panic p \<Rightarrow> Some (Panic p, w)
                       | Return n \<Rightarrow>
                           if sint n = 0 then Some (Panic ''integer divide by zero'', w)
                           else if go_rem (int (length (Args content)) - 2) (sint n) \<noteq> 0 then
                             Some (Return (Some \<lparr>Status = True, Message = []\<rparr>,
                                     Some ''format error for IBTP carrying multiple transactions''), w)
                           else
                             (case groupLoop (Args content) (sint n) 2 [] of
                                None \<Rightarrow> None
                              | Some (Panic p) \<Rightarrow> Some (Panic p, w)
                              | Some (Return Args') \<Rightarrow>
                                  respond SubmitIBTPErr
                                    (InvokeMultiInterchain c from index serviceID (scast ibtpType)
                                       (Func content) Args' (scast (TxStatus proof))
                                       (MultiSign proof) isEncrypted w))))
               else
                 respond SubmitIBTPErr
                   (invokeInterchain c from index serviceID (scast ibtpType) (Func content) as
                      (scast (TxStatus proof)) (MultiSign proof) isEncrypted w)))"

definition SubmitIBTP ::
  "decls \<Rightarrow> Client \<Rightarrow> string \<Rightarrow> u64 \<Rightarrow> string \<Rightarrow> 32 word \<Rightarrow> Content \<Rightarrow> BxhProof \<Rightarrow> bool \<Rightarrow> world
     \<Rightarrow> ((SubmitIBTPResponse option \<times> error option) outcome \<times> world) option" where
  "SubmitIBTP d c from index serviceID ibtpType content proof isEncrypted w =
     (case SubmitIBTP_offChain d c from index serviceID content w of
        None \<Rightarrow> None
      | Some (Panic p, w1) \<Rightarrow> Some (Panic p, w1)
      | Some (Return (Some err), w1) \<Rightarrow> Some (Return (None, Some err), w1)
      | Some (Return None, w1) \<Rightarrow>
          SubmitIBTP_invoke d c from index serviceID ibtpType content proof isEncrypted w1)"


text \<open>The first block of \<^verbatim>\<open>SubmitReceipt\<close>, the off-chain check.\<close>

definition SubmitReceipt_offChain ::
  "decls \<Rightarrow> Client \<Rightarrow> string \<Rightarrow> u64 \<Rightarrow> string \<Rightarrow> Result \<Rightarrow> world
     \<Rightarrow> (error option outcome \<times> world) option" where
  "SubmitReceipt_offChain d c to index serviceID result w =
     (if EqualFold serviceID (OffChainAddr (config c)) then
        (case GetChainID c w of
           (Inl err, w1) \<Rightarrow> Some (Return (Some err), w1)
         | (Inr (bxhID, chainID), w1) \<Rightarrow>
             (case GetOutMessage d c
                     ((bxhID @ '':'' @ chainID @ '':'' @ serviceID) @ ''-'' @ to) index w1 of
                (Inl err, w2) \<Rightarrow> Some (Return (Some err), w2)
              | (Inr ibtp, w2) \<Rightarrow>
                  (case CheckReceiptOffChain d ibtp result of
                     Inl err \<Rightarrow> Some (Return (Some err), w2)
                   | Inr needOffChain \<Rightarrow>
                       if needOffChain then
                         (case res_Data result of
                            [] \<Rightarrow> Some (Panic ''index out of range'', w2)
                          | [] # rs \<Rightarrow> Some (Panic ''index out of range'', w2)
                          | (b # bs) # rs \<Rightarrow>
                              (case send_reqCh
                                      (constructReq d index
                                         (bxhID @ '':'' @ chainID @ '':'' @ serviceID) to b) w2 of
                                 None \<Rightarrow> None
                               | Some w3 \<Rightarrow> Some (Return None, w3)))
                       else Some (Return None, w2))))
      else Some (Return None, w))"

text \<open>
  The rest of \<^verbatim>\<open>SubmitReceipt\<close>: the choice between \<^verbatim>\<open>InvokeMultiReceipt\<close> and
  \<^verbatim>\<open>invokeReceipt\<close>.
\<close>

definition SubmitReceipt_invoke ::
  "decls \<Rightarrow> Client \<Rightarrow> string \<Rightarrow> u64 \<Rightarrow> string \<Rightarrow> 32 word \<Rightarrow> Result \<Rightarrow> BxhProof \<Rightarrow> world
     \<Rightarrow> ((SubmitIBTPResponse option \<times> error option) outcome \<times> world) option" where
  "SubmitReceipt_invoke d c to index serviceID ibtpType result proof w =
     (if length (MultiStatus result) > 1
         \<or> (length (MultiStatus result) = 0 \<and> TxStatus proof \<noteq> TransactionStatus_BEGIN d)
      then
        respond SubmitReceiptErr
          (InvokeMultiReceipt c serviceID to index (scast ibtpType) (res_Data result)
             (MultiStatus result) (scast (TxStatus proof)) (MultiSign proof) w)
      else
        respond SubmitReceiptErr
          (invokeReceipt c serviceID to index (scast ibtpType) (res_Data result)
             (scast (TxStatus proof)) (MultiSign proof) w))"

definition SubmitReceipt ::
  "decls \<Rightarrow> Client \<Rightarrow> string \<Rightarrow> u64 \<Rightarrow> string \<Rightarrow> 32 word \<Rightarrow> Result \<Rightarrow> BxhProof \<Rightarrow> world
     \<Rightarrow> ((SubmitIBTPResponse option \<times> error option) outcome \<times> world) option" where
  "SubmitReceipt d c to index serviceID ibtpType result proof w =
     (case SubmitReceipt_offChain d c to index serviceID result w of
        None \<Rightarrow> None
      | Some (Panic p, w1) \<Rightarrow> Some (Panic p, w1)
      | Some (Return (Some err), w1) \<Rightarrow> Some (Return (None, Some err), w1)
      | Some (Return None, w1) \<Rightarrow>
          SubmitReceipt_invoke d c to index serviceID ibtpType result proof w1)"

text \<open>
  The loop of \<^verbatim>\<open>SubmitIBTPBatch\<close> that collects the arguments of the batch call; \<open>idx\<close>
  is the position of the content in the list.
\<close>

fun batchLoop ::
  "nat \<Rightarrow> Content list \<Rightarrow> 32 word list \<Rightarrow> BxhProof list
     \<Rightarrow> string list \<times> bytes list list \<times> u64 list \<times> u64 list \<times> bytes list list
     \<Rightarrow> (string list \<times> bytes list list \<times> u64 list \<times> u64 list \<times> bytes list list) outcome" where
  "batchLoop idx [] ibtpType proof acc = Return acc"
| "batchLoop idx (ct # cts) ibtpType proof (callFunc, args, typ, txStatus, sign) =
     (case slice (Args ct) 1 (int (length (Args ct))) of
        Panic p \<Rightarrow> Panic p
      | Return ctArgs \<Rightarrow>
          if length ibtpType \<le> idx \<or> length proof \<le> idx then Panic ''index out of range''
          else batchLoop (Suc idx) cts ibtpType proof
                 (callFunc @ [Func ct], args @ [ctArgs], typ @ [scast (ibtpType ! idx)],
                  txStatus @ [scast (TxStatus (proof ! idx))], sign @ [MultiSign (proof ! idx)]))"

text \<open>
  \<^verbatim>\<open>SubmitIBTPBatch\<close> always calls \<^verbatim>\<open>c.session\<close>, which is nil in a direct-mode client.
\<close>

definition SubmitIBTPBatch ::
  "Client \<Rightarrow> string list \<Rightarrow> u64 list \<Rightarrow> string list \<Rightarrow> 32 word list \<Rightarrow> Content list
     \<Rightarrow> BxhProof list \<Rightarrow> bool list \<Rightarrow> world
     \<Rightarrow> ((SubmitIBTPResponse option \<times> error option) outcome \<times> world) option" where
  "SubmitIBTPBatch c from index serviceID ibtpType content proof isEncrypted w =
     (case batchLoop 0 content ibtpType proof ([], [], [], [], []) of
        Panic p \<Rightarrow> Some (Panic p, w)
      | Return (callFunc, args, typ, txStatus, sign) \<Rightarrow>
          (case mode c of
             Direct \<Rightarrow> Some (Panic ''nil pointer dereference'', w)
           | Relayed \<Rightarrow>
               (case Retry (attempt Relayed
                              (Call_InvokeInterchains from serviceID index typ callFunc args
                                 txStatus sign isEncrypted))
                       (None, None, w) of
                  None \<Rightarrow> None
                | Some (tx, txErr, w1) \<Rightarrow>
                    (case txErr of
                       Some e \<Rightarrow> Some (Return (Some \<lparr>Status = False, Message = e\<rparr>, None), w1)
                     | None \<Rightarrow>
                         (case tx of
                            None \<Rightarrow> Some (Panic ''nil pointer dereference'', w1)
                          | Some h \<Rightarrow>
                              (case waitForConfirmed c h w1 of
                                 None \<Rightarrow> None
                               | Some (None, w2) \<Rightarrow> Some (Panic ''nil pointer dereference'', w2)
                               | Some (Some rc, w2) \<Rightarrow>
                                   if rcpt_Status rc \<noteq> ReceiptStatusSuccessful
                                   then Some (Return (Some \<lparr>Status = False, Message = SubmitIBTPErr\<rparr>,
                                                None), w2)
                                   else Some (Return (Some \<lparr>Status = True, Message = []\<rparr>, None),
                                           w2)))))))"

section \<open>Off-chain data\<close>

text \<open>
  The file system as \<^verbatim>\<open>SubmitOffChainData\<close> sees it: the content of every existing
  file, the faults the operating system will answer with (per path for opening and
  reading, per successive call for writing, where a fault comes with the number of bytes
  that were still written), the formatted current time, and the operations performed.
\<close>

datatype fs_event =
    Ev_OpenFile string "error option"
  | Ev_Open string "error option"
  | Ev_ReadAll string "error + bytes"
  | Ev_Write string bytes "error option"

record filesys =
  files :: "string \<Rightarrow> bytes option"
  openFile_fault :: "string \<Rightarrow> error option"
  open_fault :: "string \<Rightarrow> error option"
  readAll_fault :: "string \<Rightarrow> error option"
  write_faults :: "(nat \<times> error) option stream"
  now :: string
  fs_trace :: "fs_event list"

text \<open>The bytes of a file; a file that does not exist has none.\<close>

definition fileContent :: "filesys \<Rightarrow> string \<Rightarrow> bytes" where
  "fileContent fs path = (case files fs path of None \<Rightarrow> [] | Some data \<Rightarrow> data)"

text \<open>\<^verbatim>\<open>os.OpenFile(path, O_CREATE|O_WRONLY|O_APPEND, ...)\<close>: a missing file is created empty.\<close>

definition os_OpenFile :: "string \<Rightarrow> filesys \<Rightarrow> error option \<times> filesys" where
  "os_OpenFile path fs =
     (case openFile_fault fs path of
        Some err \<Rightarrow> (Some err, fs\<lparr>fs_trace := fs_trace fs @ [Ev_OpenFile path (Some err)]\<rparr>)
      | None \<Rightarrow>
          (None, fs\<lparr>files := (files fs)(path := Some (fileContent fs path)),
                   fs_trace := fs_trace fs @ [Ev_OpenFile path None]\<rparr>))"

definition os_Open :: "string \<Rightarrow> filesys \<Rightarrow> error option \<times> filesys" where
  "os_Open path fs =
     (let r = (case open_fault fs path of
                 Some err \<Rightarrow> Some err
               | None \<Rightarrow>
                   (case files fs path of
                      None \<Rightarrow> Some (''open '' @ path @ '': no such file or directory'')
                    | Some data \<Rightarrow> None))
      in (r, fs\<lparr>fs_trace := fs_trace fs @ [Ev_Open path r]\<rparr>))"

definition ioutil_ReadAll :: "string \<Rightarrow> filesys \<Rightarrow> (error + bytes) \<times> filesys" where
  "ioutil_ReadAll path fs =
     (let r = (case readAll_fault fs path of
                 Some err \<Rightarrow> Inl err
               | None \<Rightarrow>
                   (case files fs path of
                      None \<Rightarrow> Inl (''read '' @ path @ '': file already closed'')
                    | Some data \<Rightarrow> Inr data))
      in (r, fs\<lparr>fs_trace := fs_trace fs @ [Ev_ReadAll path r]\<rparr>))"

text \<open>
  A write to the file opened for appending adds the bytes at its end; a failing write
  may still have added the first \<open>n\<close> of them.
\<close>

definition file_Write :: "string \<Rightarrow> bytes \<Rightarrow> filesys \<Rightarrow> error option \<times> filesys" where
  "file_Write path data fs =
     (case shd (write_faults fs) of
        None \<Rightarrow>
          (None, fs\<lparr>files := (files fs)(path := Some (fileContent fs path @ data)),
                   write_faults := stl (write_faults fs),
                   fs_trace := fs_trace fs @ [Ev_Write path data None]\<rparr>)
      | Some (n, err) \<Rightarrow>
          (Some err, fs\<lparr>files := (files fs)(path := Some (fileContent fs path @ take n data)),
                       write_faults := stl (write_faults fs),
                       fs_trace := fs_trace fs @ [Ev_Write path data (Some err)]\<rparr>))"

text \<open>\<^verbatim>\<open>%d\<close> of an unsigned number.\<close>

fun decimal :: "nat \<Rightarrow> string" where
  "decimal n =
     (if n < 10 then [''0123456789'' ! n]
      else decimal (n div 10) @ [''0123456789'' ! (n mod 10)])"

declare decimal.simps [simp del]

text \<open>
  The name of shard \<open>i\<close>,
  \<^verbatim>\<open>fmt.Sprintf("%s-%s-%d-%d-%d", response.From, response.To, response.Index, i, response.ShardTag.ShardSize)\<close>,
  and its path, \<^verbatim>\<open>filepath.Join(string(response.Data), name)\<close>.
\<close>

definition shardName :: "GetDataResponse \<Rightarrow> u64 \<Rightarrow> string" where
  "shardName response i =
     resp_From response @ ''-'' @ resp_To response @ ''-'' @ decimal (unat (resp_Index response))
       @ ''-'' @ decimal (unat i) @ ''-'' @ decimal (unat (resp_ShardSize response))"

definition shardPath :: "decls \<Rightarrow> GetDataResponse \<Rightarrow> u64 \<Rightarrow> string" where
  "shardPath d response i = filepath_Join d (resp_Data response) (shardName response i)"

text \<open>
  The path of the output file: the message of the response and the formatted time,
  joined to the configured directory.
\<close>

definition savePath :: "decls \<Rightarrow> Client \<Rightarrow> GetDataResponse \<Rightarrow> filesys \<Rightarrow> string" where
  "savePath d c response fs =
     filepath_Join d (OffChainPath (config c)) (resp_Msg response @ ''-'' @ now fs)"

text \<open>
  The loop of \<^verbatim>\<open>SubmitOffChainData\<close>:
  \<^verbatim>\<open>for i := uint64(1); i <= response.ShardTag.ShardSize; i++\<close>. The counter is a
  \<^verbatim>\<open>uint64\<close> and wraps around; \<open>mf\<close> is the path of the output file.
\<close>

partial_function (option) shardLoop ::
  "decls \<Rightarrow> GetDataResponse \<Rightarrow> string \<Rightarrow> u64 \<Rightarrow> filesys \<Rightarrow> (error option \<times> filesys) option" where
  "shardLoop d response mf i fs =
     (if i \<le> resp_ShardSize response then
        (case os_Open (shardPath d response i) fs of
           (Some err, fs1) \<Rightarrow> Some (Some err, fs1)
         | (None, fs1) \<Rightarrow>
             (case ioutil_ReadAll (shardPath d response i) fs1 of
                (Inl err, fs2) \<Rightarrow> Some (Some err, fs2)
              | (Inr data, fs2) \<Rightarrow>
                  (case file_Write mf data fs2 of
                     (Some err, fs3) \<Rightarrow> Some (Some err, fs3)
                   | (None, fs3) \<Rightarrow> shardLoop d response mf (i + 1) fs3)))
      else Some (None, fs))"

definition SubmitOffChainData ::
  "decls \<Rightarrow> Client \<Rightarrow> GetDataResponse \<Rightarrow> filesys \<Rightarrow> (error option \<times> filesys) option" where
  "SubmitOffChainData d c response fs =
     (if resp_Type response = GetDataResponse_DATA_GET_SUCCESS d then
        (case os_OpenFile (savePath d c response fs) fs of
           (Some err, fs1) \<Rightarrow> Some (Some err, fs1)
         | (None, fs1) \<Rightarrow> shardLoop d response (savePath d c response fs) 1 fs1)
      else Some (Some (GetDataResponse_Type_String d (resp_Type response) @ '':''
                       @ resp_Msg response), fs))"

section \<open>Header synchronisation\<close>

text \<open>
  The header pool. A header of the ledger (\<^verbatim>\<open>types.Header\<close> of go-ethereum) is kept by
  its number, a \<^verbatim>\<open>*big.Int\<close>, and the rest of its content. A channel is kept as the
  sequence of the values sent on it, oldest first. The two channels of the pool hold
  \<^verbatim>\<open>defaultCap\<close> values; a send on a full channel waits until the receiver has taken
  one, which does not change what is sent, or in which order.
\<close>

record Header =
  hdr_Number :: int
  hdr_Data :: bytes

definition defaultCap :: nat where
  "defaultCap = 20"

record headerPool =
  batchCh :: "Header list list"
  recvHeaderCh :: "Header list"
  headersSet :: "Header list"
  currentNum :: u64

definition newHeaderPool :: "u64 \<Rightarrow> headerPool" where
  "newHeaderPool n = \<lparr>batchCh = [], recvHeaderCh = [], headersSet = [], currentNum = n\<rparr>"

text \<open>\<^verbatim>\<open>func (b *headerPool) append(header *types.Header)\<close>.\<close>

definition headerPool_append :: "headerPool \<Rightarrow> Header \<Rightarrow> headerPool" where
  "headerPool_append b header = b\<lparr>headersSet := headersSet b @ [header]\<rparr>"

text \<open>
  \<^verbatim>\<open>postHeaders\<close>. The loop waits for a header on \<^verbatim>\<open>recvHeaderCh\<close>, for its ticker or for
  the end of the context, whichever comes first; the events are given in the order in
  which they come, a header that arrives being the one the channel delivers. The state is
  the pool, the messages sent on \<^verbatim>\<open>c.metaC\<close> and the batches handed to \<^verbatim>\<open>json.Marshal\<close>.

  \<^verbatim>\<open>filterLog\<close> is not among the sources. It is handed the batch, a slice of pointers to
  headers, and returns nothing: it cannot change the length of the slice of its caller,
  and it is a parameter that gives the header found at each position of the batch after
  the call. \<^verbatim>\<open>json.Marshal\<close> is a parameter as well; the error it returns is dropped by
  the source, and the bytes it returns are sent.
\<close>

record UpdateMeta =
  Meta :: bytes

datatype poster_event = HeaderArrived Header | TickerFired | Cancelled

record poster =
  hp :: headerPool
  metaC :: "UpdateMeta list"
  marshalled :: "Header list list"

fun postHeaders ::
  "(Header list \<Rightarrow> nat \<Rightarrow> Header) \<Rightarrow> (Header list \<Rightarrow> bytes \<times> error option)
     \<Rightarrow> poster_event list \<Rightarrow> poster \<Rightarrow> poster" where
  "postHeaders filterLog json_Marshal [] s = s"
| "postHeaders filterLog json_Marshal (HeaderArrived header # evs) s =
     postHeaders filterLog json_Marshal evs (s\<lparr>hp := headerPool_append (hp s) header\<rparr>)"
| "postHeaders filterLog json_Marshal (TickerFired # evs) s =
     (if length (headersSet (hp s)) \<noteq> 0 then
        (let batch = map (filterLog (headersSet (hp s))) [0..<length (headersSet (hp s))];
             data = fst (json_Marshal batch)
         in postHeaders filterLog json_Marshal evs
              (s\<lparr>hp := (hp s)\<lparr>headersSet := []\<rparr>,
                 metaC := metaC s @ [\<lparr>Meta = data\<rparr>],
                 marshalled := marshalled s @ [batch]\<rparr>))
      else postHeaders filterLog json_Marshal evs s)"
| "postHeaders filterLog json_Marshal (Cancelled # evs) s = s"

text \<open>
  The inner loop of \<^verbatim>\<open>listenHeader\<close>,
  \<^verbatim>\<open>for i := c.headerPool.currentNum + 1; i <= latestHeight-Threshold; i++\<close>. The header
  asked for is the one of \<^verbatim>\<open>big.NewInt(int64(c.headerPool.currentNum))\<close>, not of \<open>i\<close>. A
  failing request ends \<^verbatim>\<open>listenHeader\<close> altogether. The node is the function that
  answers a request for the header of a height; the heights asked for are recorded.
\<close>

datatype flow = Next | Exit

partial_function (option) listenLoop ::
  "(int \<Rightarrow> error + Header) \<Rightarrow> u64 \<Rightarrow> u64 \<Rightarrow> headerPool \<Rightarrow> int list
     \<Rightarrow> (flow \<times> headerPool \<times> int list) option" where
  "listenLoop HeaderByNumber upper i b asked =
     (if i \<le> upper then
        (case HeaderByNumber (sint (currentNum b)) of
           Inl err \<Rightarrow> Some (Exit, b, asked @ [sint (currentNum b)])
         | Inr header \<Rightarrow>
             listenLoop HeaderByNumber upper (i + 1)
               (b\<lparr>recvHeaderCh := recvHeaderCh b @ [header], currentNum := currentNum b + 1\<rparr>)
               (asked @ [sint (currentNum b)]))
      else Some (Next, b, asked))"

text \<open>
  \<^verbatim>\<open>listenHeader\<close>. An event is a tick of the ticker, with the answer of the node to
  \<^verbatim>\<open>ethClient.BlockNumber\<close>, or the end of the context. \<^verbatim>\<open>Threshold\<close> is a constant
  that is not among the sources; the subtraction is the one of \<^verbatim>\<open>uint64\<close>.
\<close>

datatype listener_event = Ticked "error + u64" | Stopped

fun listenHeader ::
  "u64 \<Rightarrow> (int \<Rightarrow> error + Header) \<Rightarrow> listener_event list \<Rightarrow> headerPool \<Rightarrow> int list
     \<Rightarrow> (headerPool \<times> int list) option" where
  "listenHeader Threshold HeaderByNumber [] b asked = Some (b, asked)"
| "listenHeader Threshold HeaderByNumber (Ticked (Inl err) # evs) b asked =
     listenHeader Threshold HeaderByNumber evs b asked"
| "listenHeader Threshold HeaderByNumber (Ticked (Inr latestHeight) # evs) b asked =
     (case listenLoop HeaderByNumber (latestHeight - Threshold) (currentNum b + 1) b asked of
        None \<Rightarrow> None
      | Some (Exit, b', asked') \<Rightarrow> Some (b', asked')
      | Some (Next, b', asked') \<Rightarrow> listenHeader Threshold HeaderByNumber evs b' asked')"
| "listenHeader Threshold HeaderByNumber (Stopped # evs) b asked = Some (b, asked)"

section \<open>Notions used in the statements\<close>

text \<open>
  The world after a submission that was answered by the transient errors \<open>es\<close> and then by
  the error \<open>e\<close>: these answers are used up, the calls are recorded, nothing else has
  happened.
\<close>

definition reverted :: "mode \<Rightarrow> call \<Rightarrow> error list \<Rightarrow> error \<Rightarrow> (error + Hash) stream \<Rightarrow> world \<Rightarrow> world" where
  "reverted m cl es e rest w =
     w\<lparr>transact_resps := rest,
       trace := trace w @ map (\<lambda>x. Transact m cl (Inl x)) (es @ [e])\<rparr>"

text \<open>
  The heights a trace has polled successfully, and the two kinds of query that
  \<^verbatim>\<open>waitForConfirmed\<close> makes.
\<close>

fun polled :: "event list \<Rightarrow> u64 list" where
  "polled [] = []"
| "polled (BlockNumberQuery (Inr h) # evs) = h # polled evs"
| "polled (ev # evs) = polled evs"

fun is_poll :: "event \<Rightarrow> bool" where
  "is_poll (BlockNumberQuery a) = True"
| "is_poll ev = False"

fun is_receipt_query :: "Hash \<Rightarrow> event \<Rightarrow> bool" where
  "is_receipt_query hash (TransactionReceiptQuery h a) = (h = hash)"
| "is_receipt_query hash ev = False"

text \<open>The transactions a trace has handed to the ledger session, in order.\<close>

fun submitted :: "event list \<Rightarrow> call list" where
  "submitted [] = []"
| "submitted (Transact m cl a # evs) = cl # submitted evs"
| "submitted (ev # evs) = submitted evs"

text \<open>
  Sample values for the declarations that are parameters of the model, and a sample
  client, for evaluating the functions on concrete inputs. The values stand in for
  declarations that are not among the sources: under \<open>decls0\<close> the type tag 5 means a
  multi-transaction message and the off-chain checks always ask for off-chain data.
\<close>

definition decls0 :: decls where
  "decls0 = \<lparr>IBTP_Multi = 5,
             TransactionStatus_BEGIN = 0,
             GetDataResponse_DATA_GET_SUCCESS = 0,
             GetDataResponse_Type_String = (\<lambda>t. if t = 0 then ''success'' else ''failure''),
             CheckInterchainOffChain = (\<lambda>content. True),
             CheckReceiptOffChain = (\<lambda>ibtp result. Inr True),
             constructReq = (\<lambda>index from to req.
                \<lparr>req_Index = index, req_From = from, req_To = to, req_Req = req\<rparr>),
             ParseServicePair = (\<lambda>pair. Inr (pair, pair)),
             filepath_Join = (\<lambda>dir name. dir @ ''/'' @ name)\<rparr>"

definition client0 :: Client where
  "client0 = \<lparr>config = \<lparr>MinConfirm = 3, OffChainAddr = ''0xoff'', OffChainPath = ''/data'',
                          TimeoutHeight = 100\<rparr>,
              mode = Relayed\<rparr>"

text \<open>
  The error of a file operation, the three operations that add the shard with index \<open>i\<close>
  and bytes \<open>dat\<close> to the output file \<open>mf\<close> without a fault, and the operations that add
  the shards \<open>i\<close>, \<open>i + 1\<close>, ... with the bytes \<open>ds\<close>, one after the other.
\<close>

fun ev_error :: "fs_event \<Rightarrow> error option" where
  "ev_error (Ev_OpenFile path e) = e"
| "ev_error (Ev_Open path e) = e"
| "ev_error (Ev_ReadAll path (Inl e)) = Some e"
| "ev_error (Ev_ReadAll path (Inr data)) = None"
| "ev_error (Ev_Write path data e) = e"

definition shardOps :: "decls \<Rightarrow> GetDataResponse \<Rightarrow> string \<Rightarrow> u64 \<Rightarrow> bytes \<Rightarrow> fs_event list" where
  "shardOps d response mf i dat =
     [Ev_Open (shardPath d response i) None,
      Ev_ReadAll (shardPath d response i) (Inr dat),
      Ev_Write mf dat None]"

fun shardTrace :: "decls \<Rightarrow> GetDataResponse \<Rightarrow> string \<Rightarrow> u64 \<Rightarrow> bytes list \<Rightarrow> fs_event list" where
  "shardTrace d response mf i [] = []"
| "shardTrace d response mf i (dat # ds) =
     shardOps d response mf i dat @ shardTrace d response mf (i + 1) ds"

text \<open>A sample directory that holds the two shards of a transfer, and a sample response.\<close>

definition disk0 :: filesys where
  "disk0 = \<lparr>files = [''/in/a-b-7-1-2'' \<mapsto> ''hello '', ''/in/a-b-7-2-2'' \<mapsto> ''world''],
             openFile_fault = (\<lambda>path. None),
             open_fault = (\<lambda>path. None),
             readAll_fault = (\<lambda>path. None),
             write_faults = sconst None,
             now = ''2021.10.01-12:00:00'',
             fs_trace = []\<rparr>"

definition response0 :: GetDataResponse where
  "response0 = \<lparr>resp_Index = 7, resp_From = ''a'', resp_To = ''b'', resp_Type = 0,
                 resp_Msg = ''a-b-7'', resp_Data = ''/in'', resp_ShardSize = 2\<rparr>"

text \<open>
  The same directory a moment later: a first delivery of the sample response has left its
  output file, and the clock still shows the same second.
\<close>

definition disk1 :: filesys where
  "disk1 = disk0\<lparr>files := (files disk0)(''/data/a-b-7-2021.10.01-12:00:00'' \<mapsto> ''hello world'')\<rparr>"

text \<open>A node that has a header for every height.\<close>

definition node0 :: "int \<Rightarrow> error + Header" where
  "node0 n = Inr \<lparr>hdr_Number = n, hdr_Data = ''header''\<rparr>"

text \<open>An environment in which nothing has happened yet and no call succeeds.\<close>

definition idle :: world where
  "idle = \<lparr>transact_resps = sconst (Inl ''timeout''),
            chainID_resps = sconst (Inl ''timeout''),
            outMessage_resps = sconst (Inl ''timeout''),
            blockNumber_resps = sconst (Inl ''timeout''),
            receipt_resps = sconst (Inl ''not found''),
            trace = [], reqCh = []\<rparr>"

section \<open>Retrying\<close>

lemma Retry_done: "action s = (s', None) \<Longrightarrow> Retry action s = Some s'"
  by (subst Retry.simps) simp

lemma Retry_again: "action s = (s', Some err) \<Longrightarrow> Retry action s = Retry action s'"
  by (subst Retry.simps) simp

lemma Retry_rule:
  assumes ret: "Retry action s = Some t"
    and init: "I s"
    and step: "\<And>s s' err. I s \<Longrightarrow> action s = (s', Some err) \<Longrightarrow> I s'"
    and stop: "\<And>s s'. I s \<Longrightarrow> action s = (s', None) \<Longrightarrow> Q s'"
  shows "Q t"
proof -
  have "action = action \<longrightarrow> I s \<longrightarrow> Q t"
  proof (rule Retry.raw_induct [where P = "\<lambda>a s t. a = action \<longrightarrow> I s \<longrightarrow> Q t"
        and action = action and s = s and y = t])
    fix retry a s t
    assume IH: "\<And>s b y. retry s b = Some y \<Longrightarrow> s = action \<longrightarrow> I b \<longrightarrow> Q y"
      and body: "(case a s of (s', None) \<Rightarrow> Some s' | (s', Some err) \<Rightarrow> retry a s') = Some t"
    show "a = action \<longrightarrow> I s \<longrightarrow> Q t"
    proof (intro impI)
      assume a: "a = action" and i: "I s"
      obtain s' r where st: "action s = (s', r)" by (cases "action s")
      show "Q t"
      proof (cases r)
        case None
        with body a st have "t = s'" by simp
        with stop [OF i] st None show ?thesis by simp
      next
        case (Some err)
        with body a st have "retry action s' = Some t" by simp
        moreover have "I s'" using step [OF i] st Some by simp
        ultimately show ?thesis using IH by blast
      qed
    qed
  next
    show "Retry action s = Some t" by (rule ret)
  qed
  with init show ?thesis by blast
qed

lemma attempt_transient:
  assumes "transact_resps w = Inl x ## s" and "\<not> Contains x ''execution reverted''"
  shows "attempt m cl (tx, txErr, w) =
           ((None, Some x, w\<lparr>transact_resps := s, trace := trace w @ [Transact m cl (Inl x)]\<rparr>), Some x)"
  using assms by (simp add: attempt_def session_transact_def)

lemma attempt_revert:
  assumes "transact_resps w = Inl e ## s" and "Contains e ''execution reverted''"
  shows "attempt m cl (tx, txErr, w) =
           ((None, Some e, w\<lparr>transact_resps := s, trace := trace w @ [Transact m cl (Inl e)]\<rparr>), None)"
  using assms by (simp add: attempt_def session_transact_def)

lemma Retry_attempt_revert:
  assumes "transact_resps w = map Inl es @- (Inl e ## rest)"
    and "\<forall>x\<in>set es. \<not> Contains x ''execution reverted''"
    and "Contains e ''execution reverted''"
  shows "Retry (attempt m cl) (tx, txErr, w) = Some (None, Some e, reverted m cl es e rest w)"
  using assms
proof (induction es arbitrary: tx txErr w)
  case Nil
  then have "attempt m cl (tx, txErr, w) =
      ((None, Some e, w\<lparr>transact_resps := rest, trace := trace w @ [Transact m cl (Inl e)]\<rparr>), None)"
    by (intro attempt_revert) simp_all
  then show ?case by (simp add: Retry_done reverted_def)
next
  case (Cons x es)
  let ?w = "w\<lparr>transact_resps := map Inl es @- (Inl e ## rest),
               trace := trace w @ [Transact m cl (Inl x)]\<rparr>"
  from Cons.prems have "attempt m cl (tx, txErr, w) = ((None, Some x, ?w), Some x)"
    by (intro attempt_transient) simp_all
  then have "Retry (attempt m cl) (tx, txErr, w) = Retry (attempt m cl) (None, Some x, ?w)"
    by (rule Retry_again)
  also have "\<dots> = Some (None, Some e, reverted m cl es e rest ?w)"
    using Cons.prems by (intro Cons.IH) simp_all
  also have "reverted m cl es e rest ?w = reverted m cl (x # es) e rest w"
    by (simp add: reverted_def)
  finally show ?case .
qed

lemma confirm_error: "confirm c (Some (tx, Some e, w)) = Some (Return (None, Some e), w)"
  by (simp add: confirm_def)

text \<open>
  C2. When the ledger session answers a submission with transient errors and then with an
  error whose text contains \<^verbatim>\<open>execution reverted\<close>, each of the four invoke functions
  and \<^verbatim>\<open>SubmitIBTPBatch\<close> makes exactly these attempts and no further one: the later
  answers of the session are untouched and no block number or receipt is asked for. The
  invoke functions return the error to \<^verbatim>\<open>SubmitIBTP\<close> and \<^verbatim>\<open>SubmitReceipt\<close>, which, like
  \<^verbatim>\<open>SubmitIBTPBatch\<close>, return a response with status false, the error text as message,
  and a nil error.
\<close>

theorem revert_stops_retry:
  assumes "transact_resps w = map Inl es @- (Inl e ## rest)"
    and "\<forall>x\<in>set es. \<not> Contains x ''execution reverted''"
    and "Contains e ''execution reverted''"
  shows "invokeInterchain c srcFullID index destAddr reqType callFunc args txStatus multiSign encrypt w
           = Some (Return (None, Some e),
                   reverted (mode c)
                     (Call_InvokeInterchain srcFullID destAddr index reqType callFunc args
                        txStatus multiSign encrypt) es e rest w)
       \<and> InvokeMultiInterchain c srcFullID index destAddr reqType callFunc margs txStatus multiSign encrypt w
           = Some (Return (None, Some e),
                   reverted (mode c)
                     (Call_InvokeMultiInterchain srcFullID destAddr index reqType callFunc margs
                        txStatus multiSign encrypt) es e rest w)
       \<and> invokeReceipt c srcAddr dstFullID index reqType results txStatus multiSign w
           = Some (Return (None, Some e),
                   reverted (mode c)
                     (Call_InvokeReceipt srcAddr dstFullID index reqType results txStatus multiSign)
                     es e rest w)
       \<and> InvokeMultiReceipt c srcAddr dstFullID index reqType results multiStatus txStatus multiSign w
           = Some (Return (None, Some e),
                   reverted (mode c)
                     (Call_InvokeMultiReceipt srcAddr dstFullID index reqType results multiStatus
                        txStatus multiSign) es e rest w)
       \<and> (mode c = Relayed \<and> batchLoop 0 content ibtpTypes proofs ([], [], [], [], [])
                               = Return (callFuncs, argss, typs, txStatuses, signs)
            \<longrightarrow> SubmitIBTPBatch c froms indices serviceIDs ibtpTypes content proofs isEncrypted w
                 = Some (Return (Some \<lparr>Status = False, Message = e\<rparr>, None),
                         reverted Relayed
                           (Call_InvokeInterchains froms serviceIDs indices typs callFuncs argss
                              txStatuses signs isEncrypted) es e rest w))
       \<and> respond failed (Some (Return (None, Some e), w'))
           = Some (Return (Some \<lparr>Status = False, Message = e\<rparr>, None), w')"
  using assms
  by (simp add: invokeInterchain_def InvokeMultiInterchain_def invokeReceipt_def
      InvokeMultiReceipt_def SubmitIBTPBatch_def Retry_attempt_revert confirm_error respond_def)


theorem revert_stops_retry_witness:
  "\<not> Contains ''timeout'' ''execution reverted''
   \<and> Contains ''tx failed: execution reverted: denied'' ''execution reverted''
   \<and> invokeInterchain client0 ''1356:chain0:0xsrc'' 7 ''0xdst'' 0 ''set'' [''k'', ''v''] 0 [''sig'']
        False
        (idle\<lparr>transact_resps := Inl ''timeout'' ## Inl ''tx failed: execution reverted: denied''
                                   ## sconst (Inr ''0xabc'')\<rparr>)
      = Some (Return (None, Some ''tx failed: execution reverted: denied''),
          idle\<lparr>transact_resps := sconst (Inr ''0xabc''),
               trace :=
                 [Transact Relayed
                    (Call_InvokeInterchain ''1356:chain0:0xsrc'' ''0xdst'' 7 0 ''set'' [''k'', ''v''] 0
                       [''sig''] False) (Inl ''timeout''),
                  Transact Relayed
                    (Call_InvokeInterchain ''1356:chain0:0xsrc'' ''0xdst'' 7 0 ''set'' [''k'', ''v''] 0
                       [''sig''] False) (Inl ''tx failed: execution reverted: denied'')]\<rparr>)
   \<and> SubmitIBTPBatch client0 [''1356:chain0:0xsrc''] [7] [''0xdst''] [0]
        [\<lparr>SrcContractId = ''0xsrc'', DstContractId = ''0xdst'', Func = ''set'',
           Args = [[CHR 0x00, CHR 0x00, CHR 0x00, CHR 0x00, CHR 0x00, CHR 0x00, CHR 0x00, CHR 0x00],
                   ''k'', ''v''],
           Callback = [], ArgsCb = [], Rollback = [], ArgsRb = []\<rparr>]
        [\<lparr>TxStatus = 0, MultiSign = [''sig'']\<rparr>] [False]
        (idle\<lparr>transact_resps := Inl ''timeout'' ## Inl ''tx failed: execution reverted: denied''
                                   ## sconst (Inr ''0xabc'')\<rparr>)
      = Some (Return (Some \<lparr>Status = False, Message = ''tx failed: execution reverted: denied''\<rparr>,
                      None),
          idle\<lparr>transact_resps := sconst (Inr ''0xabc''),
               trace :=
                 [Transact Relayed
                    (Call_InvokeInterchains [''1356:chain0:0xsrc''] [''0xdst''] [7] [0] [''set'']
                       [[''k'', ''v'']] [0] [[''sig'']] [False]) (Inl ''timeout''),
                  Transact Relayed
                    (Call_InvokeInterchains [''1356:chain0:0xsrc''] [''0xdst''] [7] [0] [''set'']
                       [[''k'', ''v'']] [0] [[''sig'']] [False])
                    (Inl ''tx failed: execution reverted: denied'')]\<rparr>)"
proof -
  let ?w = "idle\<lparr>transact_resps := Inl ''timeout'' ## Inl ''tx failed: execution reverted: denied''
                                   ## sconst (Inr ''0xabc'')\<rparr>"
  have t: "\<not> Contains ''timeout'' ''execution reverted''" by simp
  have r: "Contains ''tx failed: execution reverted: denied'' ''execution reverted''" by simp
  have s: "transact_resps ?w
           = map Inl [''timeout''] @- (Inl ''tx failed: execution reverted: denied''
               ## sconst (Inr ''0xabc''))"
    by simp
  from t have t': "\<forall>x\<in>set [''timeout'']. \<not> Contains x ''execution reverted''" by simp
  have b: "mode client0 = Relayed
     \<and> batchLoop 0
        [\<lparr>SrcContractId = ''0xsrc'', DstContractId = ''0xdst'', Func = ''set'',
           Args = [[CHR 0x00, CHR 0x00, CHR 0x00, CHR 0x00, CHR 0x00, CHR 0x00, CHR 0x00, CHR 0x00],
                   ''k'', ''v''],
           Callback = [], ArgsCb = [], Rollback = [], ArgsRb = []\<rparr>]
        [0] [\<lparr>TxStatus = 0, MultiSign = [''sig'']\<rparr>] ([], [], [], [], [])
       = Return ([''set''], [[''k'', ''v'']], [0], [0], [[''sig'']])"
    by (simp add: client0_def slice_def)
  note th = revert_stops_retry [OF s t' r]
  from th [THEN conjunct1, of client0]
       th [THEN conjunct2, THEN conjunct2, THEN conjunct2, THEN conjunct2, THEN conjunct1,
           rule_format, OF b]
       t r
  show ?thesis by (simp add: reverted_def idle_def client0_def)
qed

lemma polled_append: "polled (xs @ ys) = polled xs @ polled ys"
  by (induction xs rule: polled.induct) simp_all

lemma polled_errors: "polled (map (BlockNumberQuery \<circ> Inl) es) = []"
  by (induction es) simp_all

lemma getBestBlock_consumes:
  assumes "blockNumber_resps w = map Inl es @- (Inr n ## rest)"
  shows "getBestBlock w =
           Some (n, w\<lparr>blockNumber_resps := rest,
                      trace := trace w @ map BlockNumberQuery (map Inl es @ [Inr n])\<rparr>)"
proof -
  define act where "act = (\<lambda>(blockNum :: u64, w).
      (case ethClient_BlockNumber w of
         (Inl err, w') \<Rightarrow> ((0, w'), Some err)
       | (Inr n, w') \<Rightarrow> ((n, w'), None)))"
  have "Retry act (bn, w) =
          Some (n, w\<lparr>blockNumber_resps := rest,
                     trace := trace w @ map BlockNumberQuery (map Inl es @ [Inr n])\<rparr>)"
    if "blockNumber_resps w = map Inl es @- (Inr n ## rest)" for bn w
    using that
  proof (induction es arbitrary: bn w)
    case Nil
    then have "act (bn, w) =
        ((n, w\<lparr>blockNumber_resps := rest, trace := trace w @ [BlockNumberQuery (Inr n)]\<rparr>), None)"
      by (simp add: act_def ethClient_BlockNumber_def)
    then show ?case by (simp add: Retry_done)
  next
    case (Cons x es)
    let ?w = "w\<lparr>blockNumber_resps := map Inl es @- (Inr n ## rest),
                 trace := trace w @ [BlockNumberQuery (Inl x)]\<rparr>"
    from Cons.prems have "act (bn, w) = ((0, ?w), Some x)"
      by (simp add: act_def ethClient_BlockNumber_def)
    then have "Retry act (bn, w) = Retry act (0, ?w)" by (rule Retry_again)
    also have "\<dots> = Some (n, ?w\<lparr>blockNumber_resps := rest,
                     trace := trace ?w @ map BlockNumberQuery (map Inl es @ [Inr n])\<rparr>)"
      by (rule Cons.IH) simp
    finally show ?case by simp
  qed
  with assms show ?thesis by (simp add: getBestBlock_def act_def)
qed

lemma getBestBlock_Some:
  assumes "getBestBlock w = Some (n, w')"
  shows "\<exists>es. trace w' = trace w @ map BlockNumberQuery (map Inl es @ [Inr n])"
proof -
  define act where "act = (\<lambda>(blockNum :: u64, w).
      (case ethClient_BlockNumber w of
         (Inl err, w') \<Rightarrow> ((0, w'), Some err)
       | (Inr n, w') \<Rightarrow> ((n, w'), None)))"
  from assms have ret: "Retry act (0, w) = Some (n, w')"
    by (simp add: getBestBlock_def act_def)
  have "(\<lambda>(bn, v). \<exists>es. trace v = trace w @ map BlockNumberQuery (map Inl es @ [Inr bn])) (n, w')"
  proof (rule Retry_rule [OF ret,
        where I = "\<lambda>(bn, v). \<exists>es. trace v = trace w @ map BlockNumberQuery (map Inl es)"])
    show "case (0, w) of (bn, v) \<Rightarrow> \<exists>es. trace v = trace w @ map BlockNumberQuery (map Inl es)"
      by (auto intro: exI [of _ "[]"])
  next
    fix s s' :: "u64 \<times> world" and err
    assume i: "case s of (bn, v) \<Rightarrow> \<exists>es. trace v = trace w @ map BlockNumberQuery (map Inl es)"
      and a: "act s = (s', Some err)"
    obtain bn v where s: "s = (bn, v)" by (cases s)
    from i s obtain es where es: "trace v = trace w @ map BlockNumberQuery (map Inl es)" by auto
    from a s have "trace (snd s') = trace v @ [BlockNumberQuery (Inl err)]"
      by (auto simp: act_def ethClient_BlockNumber_def split: sum.splits)
    with es have "trace (snd s') = trace w @ map BlockNumberQuery (map Inl (es @ [err]))" by simp
    then show "case s' of (bn, v) \<Rightarrow> \<exists>es. trace v = trace w @ map BlockNumberQuery (map Inl es)"
      by (cases s') (auto simp del: map_append)
  next
    fix s s' :: "u64 \<times> world"
    assume i: "case s of (bn, v) \<Rightarrow> \<exists>es. trace v = trace w @ map BlockNumberQuery (map Inl es)"
      and a: "act s = (s', None)"
    obtain bn v where s: "s = (bn, v)" by (cases s)
    from i s obtain es where es: "trace v = trace w @ map BlockNumberQuery (map Inl es)" by auto
    from a s have "trace (snd s') = trace v @ [BlockNumberQuery (Inr (fst s'))]"
      by (auto simp: act_def ethClient_BlockNumber_def split: sum.splits)
    with es have "trace (snd s') = trace w @ map BlockNumberQuery (map Inl es @ [Inr (fst s')])" by simp
    then show "case s' of (bn, v) \<Rightarrow> \<exists>es. trace v = trace w @ map BlockNumberQuery (map Inl es @ [Inr bn])"
      by (cases s') auto
  qed
  then show ?thesis by simp
qed

lemma waitLoop_again:
  "getBestBlock w = Some (cur, w') \<Longrightarrow> cur - start < minConfirm
     \<Longrightarrow> waitLoop minConfirm start w = waitLoop minConfirm start w'"
  by (subst waitLoop.simps) simp

lemma waitLoop_done:
  "getBestBlock w = Some (cur, w') \<Longrightarrow> \<not> cur - start < minConfirm
     \<Longrightarrow> waitLoop minConfirm start w = Some w'"
  by (subst waitLoop.simps) simp

lemma waitLoop_Some:
  assumes ret: "waitLoop m start w = Some w'"
  shows "\<exists>polls hs cur. trace w' = trace w @ polls \<and> list_all is_poll polls
           \<and> polled polls = hs @ [cur] \<and> (\<forall>h\<in>set hs. h - start < m) \<and> \<not> cur - start < m"
proof (rule waitLoop.raw_induct [where P = "\<lambda>m' start' w w'. m' = m \<and> start' = start \<longrightarrow>
      (\<exists>polls hs cur. trace w' = trace w @ polls \<and> list_all is_poll polls
           \<and> polled polls = hs @ [cur] \<and> (\<forall>h\<in>set hs. h - start < m) \<and> \<not> cur - start < m)"
      and minConfirm = m and start = start and w = w and y = w', THEN mp])
  show "waitLoop m start w = Some w'" by (rule ret)
next
  show "m = m \<and> start = start" by simp
next
  fix loop m' start' v v'
  assume IH: "\<And>a b c y. loop a b c = Some y \<Longrightarrow> a = m \<and> b = start \<longrightarrow>
      (\<exists>polls hs cur. trace y = trace c @ polls \<and> list_all is_poll polls
           \<and> polled polls = hs @ [cur] \<and> (\<forall>h\<in>set hs. h - start < m) \<and> \<not> cur - start < m)"
    and body: "(case getBestBlock v of None \<Rightarrow> None
        | Some (cur, w') \<Rightarrow> if cur - start' < m' then loop m' start' w' else Some w') = Some v'"
  show "m' = m \<and> start' = start \<longrightarrow>
      (\<exists>polls hs cur. trace v' = trace v @ polls \<and> list_all is_poll polls
           \<and> polled polls = hs @ [cur] \<and> (\<forall>h\<in>set hs. h - start < m) \<and> \<not> cur - start < m)"
  proof
    assume eq: "m' = m \<and> start' = start"
    from body obtain cur v1 where g: "getBestBlock v = Some (cur, v1)"
      by (cases "getBestBlock v") auto
    from getBestBlock_Some [OF g] obtain es
      where tr: "trace v1 = trace v @ map BlockNumberQuery (map Inl es @ [Inr cur])" ..
    let ?p = "map BlockNumberQuery (map Inl es @ [Inr cur])"
    have pp: "list_all is_poll ?p" by (simp add: list_all_iff)
    have pl: "polled ?p = [cur]" by (simp add: polled_append polled_errors)
    show "\<exists>polls hs cur. trace v' = trace v @ polls \<and> list_all is_poll polls
           \<and> polled polls = hs @ [cur] \<and> (\<forall>h\<in>set hs. h - start < m) \<and> \<not> cur - start < m"
    proof (cases "cur - start < m")
      case False
      with body g eq have "v' = v1" by simp
      with tr pp pl False show ?thesis
        by (intro exI [of _ ?p] exI [of _ "[]"] exI [of _ cur]) simp
    next
      case True
      with body g eq have "loop m start v1 = Some v'" by simp
      from IH [OF this] obtain polls hs c where
        r: "trace v' = trace v1 @ polls" "list_all is_poll polls" "polled polls = hs @ [c]"
          "\<forall>h\<in>set hs. h - start < m" "\<not> c - start < m" by auto
      from r tr pp pl True show ?thesis
        by (intro exI [of _ "?p @ polls"] exI [of _ "cur # hs"] exI [of _ c])
           (simp add: polled_append)
    qed
  qed
qed


lemma waitLoop_consumes:
  assumes "blockNumber_resps w = map Inl es @- bs @- (Inr cur ## rest)"
    and "\<forall>h. Inr h \<in> set bs \<longrightarrow> h - start < m"
    and "\<not> cur - start < m"
  shows "waitLoop m start w =
           Some (w\<lparr>blockNumber_resps := rest,
                   trace := trace w @ map BlockNumberQuery (map Inl es @ bs @ [Inr cur])\<rparr>)"
  using assms
proof (induction bs arbitrary: w es)
  case Nil
  then have "getBestBlock w = Some (cur, w\<lparr>blockNumber_resps := rest,
                   trace := trace w @ map BlockNumberQuery (map Inl es @ [Inr cur])\<rparr>)"
    by (intro getBestBlock_consumes) simp
  with Nil.prems show ?case by (simp add: waitLoop_done)
next
  case (Cons b bs)
  show ?case
  proof (cases b)
    case (Inl e)
    with Cons.prems have "blockNumber_resps w = map Inl (es @ [e]) @- bs @- (Inr cur ## rest)"
      by simp
    from Cons.IH [OF this] Cons.prems Inl show ?thesis by simp
  next
    case (Inr h)
    let ?w = "w\<lparr>blockNumber_resps := bs @- (Inr cur ## rest),
                 trace := trace w @ map BlockNumberQuery (map Inl es @ [Inr h])\<rparr>"
    from Cons.prems Inr have g: "getBestBlock w = Some (h, ?w)"
      by (intro getBestBlock_consumes) simp
    from Cons.prems Inr have "h - start < m" by simp
    with g have "waitLoop m start w = waitLoop m start ?w" by (rule waitLoop_again)
    also have "\<dots> = Some (?w\<lparr>blockNumber_resps := rest,
                   trace := trace ?w @ map BlockNumberQuery (map Inl [] @ bs @ [Inr cur])\<rparr>)"
      using Cons.prems by (intro Cons.IH) simp_all
    finally show ?thesis using Inr by simp
  qed
qed

lemma receipt_consumes:
  assumes "receipt_resps w = map Inl es @- (Inr r ## rest)"
  shows "Retry (\<lambda>(receipt, w).
                  (case ethClient_TransactionReceipt hash w of
                     (Inl err, w') \<Rightarrow> ((None, w'), Some err)
                   | (Inr r, w') \<Rightarrow> ((Some r, w'), None)))
               (rc, w) =
           Some (Some r, w\<lparr>receipt_resps := rest,
                           trace := trace w @ map (TransactionReceiptQuery hash) (map Inl es @ [Inr r])\<rparr>)"
  using assms
proof (induction es arbitrary: rc w)
  case Nil
  then show ?case
    by (intro Retry_done) (simp add: ethClient_TransactionReceipt_def)
next
  case (Cons x es)
  let ?w = "w\<lparr>receipt_resps := map Inl es @- (Inr r ## rest),
               trace := trace w @ [TransactionReceiptQuery hash (Inl x)]\<rparr>"
  let ?act = "\<lambda>(receipt, w).
                  (case ethClient_TransactionReceipt hash w of
                     (Inl err, w') \<Rightarrow> ((None :: Receipt option, w'), Some err)
                   | (Inr r, w') \<Rightarrow> ((Some r, w'), None))"
  from Cons.prems have "?act (rc, w) = ((None, ?w), Some x)"
    by (simp add: ethClient_TransactionReceipt_def)
  then have "Retry ?act (rc, w) = Retry ?act (None, ?w)" by (rule Retry_again)
  also have "\<dots> = Some (Some r, ?w\<lparr>receipt_resps := rest,
                           trace := trace ?w @ map (TransactionReceiptQuery hash) (map Inl es @ [Inr r])\<rparr>)"
    by (rule Cons.IH) simp
  finally show ?case by simp
qed

lemma receipt_Some:
  assumes ret: "Retry (\<lambda>(receipt, w).
                  (case ethClient_TransactionReceipt hash w of
                     (Inl err, w') \<Rightarrow> ((None, w'), Some err)
                   | (Inr r, w') \<Rightarrow> ((Some r, w'), None)))
               (rc, w) = Some (receipt, w')"
  shows "\<exists>es r. trace w' = trace w @ map (TransactionReceiptQuery hash) (map Inl es @ [Inr r])
           \<and> receipt = Some r"
proof -
  let ?I = "\<lambda>(x :: Receipt option, v). \<exists>es. trace v = trace w @ map (TransactionReceiptQuery hash) (map Inl es)"
  let ?Q = "\<lambda>(x :: Receipt option, v). \<exists>es r. trace v = trace w @ map (TransactionReceiptQuery hash) (map Inl es @ [Inr r]) \<and> x = Some r"
  have "?Q (receipt, w')"
  proof (rule Retry_rule [OF ret, where I = ?I])
    show "?I (rc, w)" by (auto intro: exI [of _ "[]"])
  next
    fix s s' :: "Receipt option \<times> world" and err
    assume i: "?I s"
      and a: "(case s of (receipt, w) \<Rightarrow>
                  (case ethClient_TransactionReceipt hash w of
                     (Inl err, w') \<Rightarrow> ((None, w'), Some err)
                   | (Inr r, w') \<Rightarrow> ((Some r, w'), None))) = (s', Some err)"
    obtain x v where s: "s = (x, v)" by (cases s)
    from i s obtain es where es: "trace v = trace w @ map (TransactionReceiptQuery hash) (map Inl es)" by auto
    from a s have "trace (snd s') = trace v @ [TransactionReceiptQuery hash (Inl err)]"
      by (auto simp: ethClient_TransactionReceipt_def split: sum.splits)
    with es have "trace (snd s') = trace w @ map (TransactionReceiptQuery hash) (map Inl (es @ [err]))" by simp
    then show "?I s'" by (cases s') (auto simp del: map_append)
  next
    fix s s' :: "Receipt option \<times> world"
    assume i: "?I s"
      and a: "(case s of (receipt, w) \<Rightarrow>
                  (case ethClient_TransactionReceipt hash w of
                     (Inl err, w') \<Rightarrow> ((None, w'), Some err)
                   | (Inr r, w') \<Rightarrow> ((Some r, w'), None))) = (s', None)"
    obtain x v where s: "s = (x, v)" by (cases s)
    from i s obtain es where es: "trace v = trace w @ map (TransactionReceiptQuery hash) (map Inl es)" by auto
    from a s obtain r where "trace (snd s') = trace v @ [TransactionReceiptQuery hash (Inr r)]" "fst s' = Some r"
      by (auto simp: ethClient_TransactionReceipt_def split: sum.splits)
    with es have "trace (snd s') = trace w @ map (TransactionReceiptQuery hash) (map Inl es @ [Inr r]) \<and> fst s' = Some r" by simp
    then show "?Q s'" by (cases s') auto
  qed
  then show ?thesis by simp
qed

lemma depth_unat:
  fixes cur start m :: u64
  assumes "\<not> cur - start < m" and "start \<le> cur"
  shows "unat start + unat m \<le> unat cur"
proof -
  from assms(2) have "unat (cur - start) = unat cur - unat start" by (rule unat_sub)
  moreover from assms(1) have "unat m \<le> unat (cur - start)"
    by (simp add: word_le_nat_alt not_less)
  moreover from assms(2) have "unat start \<le> unat cur" by (simp add: word_le_nat_alt)
  ultimately show ?thesis by simp
qed

text \<open>
  The wait in the arithmetic of the source. Whenever \<^verbatim>\<open>waitForConfirmed\<close> returns, it
  has first polled the block number: the first height answered is the start, every later height but the last was less than
  \<^verbatim>\<open>MinConfirm\<close> past the start, and the last one is at least \<^verbatim>\<open>MinConfirm\<close> past it, in
  the \<^verbatim>\<open>uint64\<close> arithmetic of the source (if the last height is not below the start,
  it is at least start plus \<^verbatim>\<open>MinConfirm\<close>). All receipt queries come after the last
  poll, and the receipt returned is the answer to the last of them. And it does return:
  if the node's answers reach such a height and a receipt, the receipt is returned.
\<close>

theorem waitForConfirmed_depth:
  "(\<forall>receipt w'. waitForConfirmed c hash w = Some (receipt, w') \<longrightarrow>
      (\<exists>polls queries start hs cur r.
          trace w' = trace w @ polls @ queries
        \<and> list_all is_poll polls \<and> polled polls = start # hs @ [cur]
        \<and> (\<forall>h\<in>set hs. h - start < MinConfirm (config c))
        \<and> \<not> cur - start < MinConfirm (config c)
        \<and> (start \<le> cur \<longrightarrow> unat start + unat (MinConfirm (config c)) \<le> unat cur)
        \<and> list_all (is_receipt_query hash) queries
        \<and> queries \<noteq> [] \<and> last queries = TransactionReceiptQuery hash (Inr r)
        \<and> receipt = Some r))
   \<and> (\<forall>es0 start bs cur rest es1 r rest'.
        blockNumber_resps w = map Inl es0 @- (Inr start ## bs @- (Inr cur ## rest))
        \<and> (\<forall>h. Inr h \<in> set bs \<longrightarrow> h - start < MinConfirm (config c))
        \<and> \<not> cur - start < MinConfirm (config c)
        \<and> receipt_resps w = map Inl es1 @- (Inr r ## rest')
        \<longrightarrow> waitForConfirmed c hash w =
              Some (Some r, w\<lparr>blockNumber_resps := rest, receipt_resps := rest',
                     trace := trace w @ map BlockNumberQuery (map Inl es0 @ [Inr start] @ bs @ [Inr cur])
                                @ map (TransactionReceiptQuery hash) (map Inl es1 @ [Inr r])\<rparr>))"
proof (intro conjI allI impI)
  fix receipt w'
  assume ret: "waitForConfirmed c hash w = Some (receipt, w')"
  then obtain start w1 where g: "getBestBlock w = Some (start, w1)"
    by (cases "getBestBlock w") (auto simp: waitForConfirmed_def)
  with ret obtain w2 where l: "waitLoop (MinConfirm (config c)) start w1 = Some w2"
    by (cases "waitLoop (MinConfirm (config c)) start w1") (auto simp: waitForConfirmed_def)
  from ret g l have q: "Retry (\<lambda>(receipt, w).
                  (case ethClient_TransactionReceipt hash w of
                     (Inl err, w') \<Rightarrow> ((None, w'), Some err)
                   | (Inr r, w') \<Rightarrow> ((Some r, w'), None)))
               (None, w2) = Some (receipt, w')"
    by (simp add: waitForConfirmed_def)
  from getBestBlock_Some [OF g] obtain es0
    where t1: "trace w1 = trace w @ map BlockNumberQuery (map Inl es0 @ [Inr start])" ..
  from waitLoop_Some [OF l] obtain polls hs cur where
    t2: "trace w2 = trace w1 @ polls" "list_all is_poll polls" "polled polls = hs @ [cur]"
      "\<forall>h\<in>set hs. h - start < MinConfirm (config c)" "\<not> cur - start < MinConfirm (config c)"
    by blast
  from receipt_Some [OF q] obtain es1 r where
    t3: "trace w' = trace w2 @ map (TransactionReceiptQuery hash) (map Inl es1 @ [Inr r])"
      "receipt = Some r" by blast
  let ?polls = "map BlockNumberQuery (map Inl es0 @ [Inr start]) @ polls"
  let ?queries = "map (TransactionReceiptQuery hash) (map Inl es1 @ [Inr r])"
  have "trace w' = trace w @ ?polls @ ?queries" using t1 t2(1) t3(1) by simp
  moreover have "list_all is_poll ?polls" using t2(2) by (auto simp: list_all_iff)
  moreover have "polled ?polls = start # hs @ [cur]"
    using t2(3) by (simp add: polled_append polled_errors)
  moreover have "list_all (is_receipt_query hash) ?queries" by (auto simp: list_all_iff)
  moreover have "?queries \<noteq> []" by simp
  moreover have "last ?queries = TransactionReceiptQuery hash (Inr r)" by simp
  moreover have "start \<le> cur \<longrightarrow> unat start + unat (MinConfirm (config c)) \<le> unat cur"
    using t2(5) by (auto intro: depth_unat)
  ultimately show "\<exists>polls queries start hs cur r.
          trace w' = trace w @ polls @ queries
        \<and> list_all is_poll polls \<and> polled polls = start # hs @ [cur]
        \<and> (\<forall>h\<in>set hs. h - start < MinConfirm (config c))
        \<and> \<not> cur - start < MinConfirm (config c)
        \<and> (start \<le> cur \<longrightarrow> unat start + unat (MinConfirm (config c)) \<le> unat cur)
        \<and> list_all (is_receipt_query hash) queries
        \<and> queries \<noteq> [] \<and> last queries = TransactionReceiptQuery hash (Inr r)
        \<and> receipt = Some r"
    using t2(4,5) t3(2) by blast
next
  fix es0 start bs cur rest es1 r rest'
  assume a: "blockNumber_resps w = map Inl es0 @- (Inr start ## bs @- (Inr cur ## rest))
        \<and> (\<forall>h. Inr h \<in> set bs \<longrightarrow> h - start < MinConfirm (config c))
        \<and> \<not> cur - start < MinConfirm (config c)
        \<and> receipt_resps w = map Inl es1 @- (Inr r ## rest')"
  let ?w1 = "w\<lparr>blockNumber_resps := bs @- (Inr cur ## rest),
                trace := trace w @ map BlockNumberQuery (map Inl es0 @ [Inr start])\<rparr>"
  let ?w2 = "?w1\<lparr>blockNumber_resps := rest,
                trace := trace ?w1 @ map BlockNumberQuery (map Inl [] @ bs @ [Inr cur])\<rparr>"
  from a have g: "getBestBlock w = Some (start, ?w1)"
    by (intro getBestBlock_consumes) simp
  from a have l: "waitLoop (MinConfirm (config c)) start ?w1 = Some ?w2"
    by (intro waitLoop_consumes) simp_all
  from a have "receipt_resps ?w2 = map Inl es1 @- (Inr r ## rest')" by simp
  from receipt_consumes [OF this, of hash None] g l
  show "waitForConfirmed c hash w =
              Some (Some r, w\<lparr>blockNumber_resps := rest, receipt_resps := rest',
                     trace := trace w @ map BlockNumberQuery (map Inl es0 @ [Inr start] @ bs @ [Inr cur])
                                @ map (TransactionReceiptQuery hash) (map Inl es1 @ [Inr r])\<rparr>)"
    by (simp add: waitForConfirmed_def)
qed

theorem waitForConfirmed_depth_example:
  "waitForConfirmed client0 ''0xabc''
     (idle\<lparr>blockNumber_resps := Inl ''timeout'' ## Inr 10 ## Inr 11 ## Inl ''timeout'' ## Inr 12
                                   ## Inr 13 ## sconst (Inr 14),
           receipt_resps := Inl ''not found'' ## Inr \<lparr>rcpt_Status = 1, rcpt_TxHash = ''0xabc''\<rparr>
                                   ## sconst (Inl ''not found'')\<rparr>)
   = Some (Some \<lparr>rcpt_Status = 1, rcpt_TxHash = ''0xabc''\<rparr>,
       idle\<lparr>blockNumber_resps := sconst (Inr 14),
            receipt_resps := sconst (Inl ''not found''),
            trace := [BlockNumberQuery (Inl ''timeout''), BlockNumberQuery (Inr 10),
                      BlockNumberQuery (Inr 11), BlockNumberQuery (Inl ''timeout''),
                      BlockNumberQuery (Inr 12), BlockNumberQuery (Inr 13),
                      TransactionReceiptQuery ''0xabc'' (Inl ''not found''),
                      TransactionReceiptQuery ''0xabc''
                        (Inr \<lparr>rcpt_Status = 1, rcpt_TxHash = ''0xabc''\<rparr>)]\<rparr>)
   \<and> (11 :: u64) - 10 < 3 \<and> (12 :: u64) - 10 < 3 \<and> \<not> (13 :: u64) - 10 < 3
   \<and> (\<exists>polls queries start hs cur r.
         [BlockNumberQuery (Inl ''timeout''), BlockNumberQuery (Inr 10),
          BlockNumberQuery (Inr 11), BlockNumberQuery (Inl ''timeout''),
          BlockNumberQuery (Inr 12), BlockNumberQuery (Inr 13),
          TransactionReceiptQuery ''0xabc'' (Inl ''not found''),
          TransactionReceiptQuery ''0xabc'' (Inr \<lparr>rcpt_Status = 1, rcpt_TxHash = ''0xabc''\<rparr>)]
           = polls @ queries
         \<and> list_all is_poll polls \<and> polled polls = start # hs @ [cur]
         \<and> \<not> cur - start < 3
         \<and> list_all (is_receipt_query ''0xabc'') queries
         \<and> last queries = TransactionReceiptQuery ''0xabc'' (Inr r))"
proof -
  let ?w = "idle\<lparr>blockNumber_resps := Inl ''timeout'' ## Inr 10 ## Inr 11 ## Inl ''timeout'' ## Inr 12
                                   ## Inr 13 ## sconst (Inr 14),
           receipt_resps := Inl ''not found'' ## Inr \<lparr>rcpt_Status = 1, rcpt_TxHash = ''0xabc''\<rparr>
                                   ## sconst (Inl ''not found'')\<rparr>"
  let ?w' = "idle\<lparr>blockNumber_resps := sconst (Inr 14),
            receipt_resps := sconst (Inl ''not found''),
            trace := [BlockNumberQuery (Inl ''timeout''), BlockNumberQuery (Inr 10),
                      BlockNumberQuery (Inr 11), BlockNumberQuery (Inl ''timeout''),
                      BlockNumberQuery (Inr 12), BlockNumberQuery (Inr 13),
                      TransactionReceiptQuery ''0xabc'' (Inl ''not found''),
                      TransactionReceiptQuery ''0xabc''
                        (Inr \<lparr>rcpt_Status = 1, rcpt_TxHash = ''0xabc''\<rparr>)]\<rparr>"
  have m: "MinConfirm (config client0) = 3" by (simp add: client0_def)
  have "blockNumber_resps ?w = map Inl [''timeout''] @- (Inr 10 ## [Inr 11, Inl ''timeout'', Inr 12] @- (Inr 13 ## sconst (Inr 14)))
        \<and> (\<forall>h. Inr h \<in> set [Inr 11, Inl ''timeout'', Inr (12 :: u64)] \<longrightarrow> h - 10 < MinConfirm (config client0))
        \<and> \<not> 13 - 10 < MinConfirm (config client0)
        \<and> receipt_resps ?w = map Inl [''not found''] @- (Inr \<lparr>rcpt_Status = 1, rcpt_TxHash = ''0xabc''\<rparr> ## sconst (Inl ''not found''))"
    by (auto simp: m)
  with waitForConfirmed_depth [of client0 "''0xabc''" ?w, THEN conjunct2, rule_format,
      of "[''timeout'']" 10 "[Inr 11, Inl ''timeout'', Inr 12]" 13 "sconst (Inr 14)"
         "[''not found'']" "\<lparr>rcpt_Status = 1, rcpt_TxHash = ''0xabc''\<rparr>" "sconst (Inl ''not found'')"]
  have run: "waitForConfirmed client0 ''0xabc'' ?w
     = Some (Some \<lparr>rcpt_Status = 1, rcpt_TxHash = ''0xabc''\<rparr>, ?w')"
    by (simp add: idle_def)
  from waitForConfirmed_depth [of client0 "''0xabc''" ?w, THEN conjunct1, rule_format, OF run]
  obtain polls queries start hs cur r where
    "trace ?w' = trace ?w @ polls @ queries" "list_all is_poll polls"
    "polled polls = start # hs @ [cur]" "\<not> cur - start < MinConfirm (config client0)"
    "list_all (is_receipt_query ''0xabc'') queries"
    "last queries = TransactionReceiptQuery ''0xabc'' (Inr r)"
    by blast
  then have "\<exists>polls queries start hs cur r.
         [BlockNumberQuery (Inl ''timeout''), BlockNumberQuery (Inr 10),
          BlockNumberQuery (Inr 11), BlockNumberQuery (Inl ''timeout''),
          BlockNumberQuery (Inr 12), BlockNumberQuery (Inr 13),
          TransactionReceiptQuery ''0xabc'' (Inl ''not found''),
          TransactionReceiptQuery ''0xabc'' (Inr \<lparr>rcpt_Status = 1, rcpt_TxHash = ''0xabc''\<rparr>)]
           = polls @ queries
         \<and> list_all is_poll polls \<and> polled polls = start # hs @ [cur]
         \<and> \<not> cur - start < 3
         \<and> list_all (is_receipt_query ''0xabc'') queries
         \<and> last queries = TransactionReceiptQuery ''0xabc'' (Inr r)"
    unfolding m by (simp add: idle_def) blast
  with run show ?thesis by simp
qed

text \<open>
  C1. The difference \<^verbatim>\<open>c.getBestBlock()-start\<close> is taken in \<^verbatim>\<open>uint64\<close>, and the case of
  a height below the start is missed. With \<^verbatim>\<open>MinConfirm\<close> 3, a start height of 10 and
  a first poll answered with 9 (the best height of the node has gone back by one block),
  the difference wraps to \<open>2^64 - 1\<close>, which is not below 3: the waiting loop ends at
  its first poll, and the receipt is queried and returned although the height has not
  advanced past the start at all.
\<close>

theorem waitForConfirmed_height_below_start:
  "MinConfirm (config client0) = 3
   \<and> waitForConfirmed client0 ''0xabc''
       (idle\<lparr>blockNumber_resps := Inr 10 ## Inr 9 ## sconst (Inr 9),
             receipt_resps := Inr \<lparr>rcpt_Status = 1, rcpt_TxHash = ''0xabc''\<rparr>
                                ## sconst (Inl ''not found'')\<rparr>)
     = Some (Some \<lparr>rcpt_Status = 1, rcpt_TxHash = ''0xabc''\<rparr>,
         idle\<lparr>blockNumber_resps := sconst (Inr 9),
              receipt_resps := sconst (Inl ''not found''),
              trace := [BlockNumberQuery (Inr 10), BlockNumberQuery (Inr 9),
                        TransactionReceiptQuery ''0xabc''
                          (Inr \<lparr>rcpt_Status = 1, rcpt_TxHash = ''0xabc''\<rparr>)]\<rparr>)
   \<and> (9 :: u64) - 10 = 18446744073709551615
   \<and> \<not> (9 :: u64) - 10 < MinConfirm (config client0)
   \<and> unat (9 :: u64) < unat (10 :: u64)"
proof -
  let ?r = "\<lparr>rcpt_Status = 1, rcpt_TxHash = ''0xabc''\<rparr>"
  let ?w = "idle\<lparr>blockNumber_resps := Inr 10 ## Inr 9 ## sconst (Inr 9),
             receipt_resps := Inr ?r ## sconst (Inl ''not found'')\<rparr>"
  have m: "MinConfirm (config client0) = 3" by (simp add: client0_def)
  have b: "blockNumber_resps ?w = map Inl [] @- (Inr 10 ## Inr 9 ## sconst (Inr 9))"
    by simp
  let ?w1 = "?w\<lparr>blockNumber_resps := Inr 9 ## sconst (Inr 9),
                 trace := trace ?w @ map BlockNumberQuery (map Inl [] @ [Inr 10])\<rparr>"
  from getBestBlock_consumes [OF b] have g: "getBestBlock ?w = Some (10, ?w1)" .
  have b1: "blockNumber_resps ?w1 = map Inl [] @- (Inr 9 ## sconst (Inr 9))"
    by simp
  let ?w2 = "?w1\<lparr>blockNumber_resps := sconst (Inr 9),
                  trace := trace ?w1 @ map BlockNumberQuery (map Inl [] @ [Inr 9])\<rparr>"
  from getBestBlock_consumes [OF b1] have g1: "getBestBlock ?w1 = Some (9, ?w2)" .
  have wrap: "\<not> (9 :: u64) - 10 < 3" by simp
  from waitLoop_done [OF g1, of 10 3] wrap have l: "waitLoop 3 10 ?w1 = Some ?w2" by simp
  have q: "receipt_resps ?w2 = map Inl [] @- (Inr ?r ## sconst (Inl ''not found''))"
    by simp
  from receipt_consumes [OF q, of "''0xabc''" None] g l m
  have "waitForConfirmed client0 ''0xabc'' ?w
     = Some (Some ?r,
         idle\<lparr>blockNumber_resps := sconst (Inr 9), receipt_resps := sconst (Inl ''not found''),
              trace := [BlockNumberQuery (Inr 10), BlockNumberQuery (Inr 9),
                        TransactionReceiptQuery ''0xabc'' (Inr ?r)]\<rparr>)"
    by (simp add: waitForConfirmed_def idle_def)
  with m show ?thesis by simp
qed

section \<open>Submission of messages and receipts\<close>

lemma submitted_append: "submitted (xs @ ys) = submitted xs @ submitted ys"
  by (induction xs rule: submitted.induct) simp_all

lemma submitted_polls: "submitted (map BlockNumberQuery as) = []"
  by (induction as) simp_all

lemma submitted_queries: "submitted (map (TransactionReceiptQuery h) as) = []"
  by (induction as) simp_all

lemma submitted_is_poll: "list_all is_poll evs \<Longrightarrow> submitted evs = []"
  by (induction evs rule: submitted.induct) simp_all

lemma waitForConfirmed_submitted:
  assumes "waitForConfirmed c hash w = Some (receipt, w')"
  shows "submitted (trace w') = submitted (trace w)"
proof -
  from assms obtain start w1 where g: "getBestBlock w = Some (start, w1)"
    by (cases "getBestBlock w") (auto simp: waitForConfirmed_def)
  with assms obtain w2 where l: "waitLoop (MinConfirm (config c)) start w1 = Some w2"
    by (cases "waitLoop (MinConfirm (config c)) start w1") (auto simp: waitForConfirmed_def)
  from assms g l have q: "Retry (\<lambda>(receipt, w).
                  (case ethClient_TransactionReceipt hash w of
                     (Inl err, w') \<Rightarrow> ((None, w'), Some err)
                   | (Inr r, w') \<Rightarrow> ((Some r, w'), None)))
               (None, w2) = Some (receipt, w')"
    by (simp add: waitForConfirmed_def)
  from getBestBlock_Some [OF g] obtain es0
    where t1: "trace w1 = trace w @ map BlockNumberQuery (map Inl es0 @ [Inr start])" ..
  from waitLoop_Some [OF l] obtain polls where
    t2: "trace w2 = trace w1 @ polls" "list_all is_poll polls" by blast
  from receipt_Some [OF q] obtain es1 r where
    t3: "trace w' = trace w2 @ map (TransactionReceiptQuery hash) (map Inl es1 @ [Inr r])" by blast
  show ?thesis
    unfolding t3 t2(1) t1
    by (simp only: submitted_append submitted_polls submitted_queries
        submitted_is_poll [OF t2(2)] append_Nil2)
qed

lemma Retry_attempt_submitted:
  assumes ret: "Retry (attempt m cl) (tx0, e0, w) = Some (tx, txErr, w')"
  shows "\<exists>k. 0 < k \<and> submitted (trace w') = submitted (trace w) @ replicate k cl"
proof -
  let ?I = "\<lambda>(tx :: Hash option, e :: error option, v).
              \<exists>k. submitted (trace v) = submitted (trace w) @ replicate k cl"
  let ?Q = "\<lambda>(tx :: Hash option, e :: error option, v).
              \<exists>k. 0 < k \<and> submitted (trace v) = submitted (trace w) @ replicate k cl"
  have step: "submitted (trace v') = submitted (trace v) @ [cl]"
    if "attempt m cl (t, e, v) = ((t', e', v'), r)" for t e v t' e' v' r
    using that
    by (auto simp: attempt_def session_transact_def submitted_append split: sum.splits if_splits)
  have "?Q (tx, txErr, w')"
  proof (rule Retry_rule [OF ret, where I = ?I])
    show "?I (tx0, e0, w)" by (auto intro: exI [of _ 0])
  next
    fix s s' :: "Hash option \<times> error option \<times> world" and err
    assume i: "?I s" and a: "attempt m cl s = (s', Some err)"
    obtain t e v where s: "s = (t, e, v)" by (cases s)
    obtain t' e' v' where s': "s' = (t', e', v')" by (cases s')
    from i s obtain k where "submitted (trace v) = submitted (trace w) @ replicate k cl" by auto
    with step [of t e v t' e' v' "Some err"] a s s'
    have "submitted (trace v') = submitted (trace w) @ replicate (Suc k) cl"
      by (simp add: replicate_append_same)
    then show "?I s'" unfolding s' by blast
  next
    fix s s' :: "Hash option \<times> error option \<times> world"
    assume i: "?I s" and a: "attempt m cl s = (s', None)"
    obtain t e v where s: "s = (t, e, v)" by (cases s)
    obtain t' e' v' where s': "s' = (t', e', v')" by (cases s')
    from i s obtain k where "submitted (trace v) = submitted (trace w) @ replicate k cl" by auto
    with step [of t e v t' e' v' None] a s s'
    have "submitted (trace v') = submitted (trace w) @ replicate (Suc k) cl"
      by (simp add: replicate_append_same)
    then show "?Q s'" unfolding s' by blast
  qed
  then show ?thesis by simp
qed

lemma confirm_submitted:
  assumes "confirm c (Retry (attempt m cl) (None, None, w)) = Some (r, w')"
  shows "\<exists>k. 0 < k \<and> submitted (trace w') = submitted (trace w) @ replicate k cl"
proof -
  from assms obtain tx txErr w1 where
    ret: "Retry (attempt m cl) (None, None, w) = Some (tx, txErr, w1)"
    by (cases "Retry (attempt m cl) (None, None, w)") (auto simp: confirm_def)
  from Retry_attempt_submitted [OF ret] obtain k where
    k: "0 < k" "submitted (trace w1) = submitted (trace w) @ replicate k cl" by blast
  have "submitted (trace w') = submitted (trace w1)"
    using assms ret
    by (auto simp: confirm_def split: option.splits dest: waitForConfirmed_submitted)
  with k show ?thesis by auto
qed

lemma respond_world:
  assumes "respond failed x = Some (r, w')"
  shows "\<exists>r0. x = Some (r0, w')"
  using assms
  by (auto simp: respond_def split: option.splits outcome.splits prod.splits if_splits)

lemma groupLoop_step:
  "i < int (length args) \<Longrightarrow> slice args i (i + num) = Return g
     \<Longrightarrow> groupLoop args num i acc = groupLoop args num (i + num) (acc @ [g])"
  by (subst groupLoop.simps) simp

lemma groupLoop_end: "\<not> i < int (length args) \<Longrightarrow> groupLoop args num i acc = Some (Return acc)"
  by (subst groupLoop.simps) simp

lemma slice_nat:
  assumes "a + n \<le> length s"
  shows "slice s (int a) (int a + int n) = Return (take n (drop a s))"
proof -
  have "int a + int n \<le> int (length s)" using assms by linarith
  then show ?thesis by (simp add: slice_def)
qed

lemma groupLoop_groups:
  assumes "0 < num" and "length args = 2 + m * num" and "k \<le> m"
  shows "groupLoop args (int num) (int (2 + k * num)) acc =
           Some (Return (acc @ map (\<lambda>j. take num (drop (2 + j * num) args)) [k..<m]))"
  using assms(3)
proof (induction "m - k" arbitrary: k acc)
  case 0
  then have "k = m" by simp
  with assms(2) show ?case by (simp add: groupLoop_end)
next
  case (Suc d)
  then have k: "k < m" by simp
  then have "Suc k * num \<le> m * num" by (simp only: Suc_le_eq [symmetric] mult_le_mono1)
  then have le: "2 + k * num + num \<le> length args" using assms(2) by simp
  from k assms(1) have "k * num < m * num" by simp
  then have lt: "int (2 + k * num) < int (length args)" using assms(2) by simp
  have sl: "slice args (int (2 + k * num)) (int (2 + k * num) + int num) =
            Return (take num (drop (2 + k * num) args))"
    using le by (rule slice_nat)
  have "groupLoop args (int num) (int (2 + k * num)) acc =
        groupLoop args (int num) (int (2 + k * num) + int num)
          (acc @ [take num (drop (2 + k * num) args)])"
    using lt sl by (rule groupLoop_step)
  also have "int (2 + k * num) + int num = int (2 + Suc k * num)" by simp
  also have "groupLoop args (int num) (int (2 + Suc k * num))
          (acc @ [take num (drop (2 + k * num) args)]) =
        Some (Return ((acc @ [take num (drop (2 + k * num) args)])
                @ map (\<lambda>j. take num (drop (2 + j * num) args)) [Suc k..<m]))"
    using Suc.hyps(2) k by (intro Suc.hyps(1)) simp_all
  finally show ?case using k by (simp add: upt_conv_Cons)
qed

lemma concat_chunks:
  "concat (map (\<lambda>j. take n (drop (j * n) xs)) [0..<m]) = take (m * n) xs"
proof (induction m)
  case 0
  show ?case by simp
next
  case (Suc m)
  have "take (m * n) xs @ take n (drop (m * n) xs) = take (m * n + n) xs"
    by (simp add: take_add)
  with Suc show ?case by (simp add: add.commute)
qed

lemma groups_of_args:
  assumes "0 < num" and "args = a0 # a1 # rest" and "length rest = m * num"
  defines "groups \<equiv> map (\<lambda>j. take num (drop (2 + j * num) args)) [0..<m]"
  shows "groupLoop args (int num) 2 [] = Some (Return groups)"
    and "length groups = length rest div num"
    and "\<forall>g\<in>set groups. length g = num"
    and "concat groups = rest"
proof -
  have len: "length args = 2 + m * num" using assms(2,3) by simp
  from groupLoop_groups [OF assms(1) len, of 0 "[]"]
  show "groupLoop args (int num) 2 [] = Some (Return groups)" by (simp add: groups_def)
  show "length groups = length rest div num" using assms(1,3) by (simp add: groups_def)
  show "\<forall>g\<in>set groups. length g = num"
  proof
    fix g assume "g \<in> set groups"
    then obtain j where j: "j < m" and g: "g = take num (drop (2 + j * num) args)"
      by (auto simp: groups_def)
    from j have "Suc j * num \<le> m * num" by (simp only: Suc_le_eq [symmetric] mult_le_mono1)
    then have "2 + j * num + num \<le> length args" using len by simp
    then show "length g = num" using g by simp
  qed
  have "groups = map (\<lambda>j. take num (drop (j * num) rest)) [0..<m]"
    by (simp add: groups_def assms(2) add.commute)
  then show "concat groups = rest" using concat_chunks [of num rest m] assms(3) by simp
qed

lemma go_rem_dvd:
  assumes "0 < b" and "0 \<le> a"
  shows "go_rem a b = 0 \<longleftrightarrow> b dvd a"
  using assms by (auto simp: go_rem_def sgn_if dvd_eq_mod_eq_0)

lemma offChain_passes:
  assumes "SubmitIBTP_offChain d c from index serviceID content w = Some (Return None, w1)"
  shows "transact_resps w1 = transact_resps w
       \<and> (trace w1 = trace w \<or> (\<exists>a. trace w1 = trace w @ [GetChainIDQuery (mode c) a]))"
  using assms
  by (auto simp: SubmitIBTP_offChain_def GetChainID_def send_reqCh_def
      split: if_splits sum.splits prod.splits option.splits)

lemma SubmitIBTP_format_error:
  assumes "SubmitIBTP_offChain d c from index serviceID content w = Some (Return None, w1)"
    and "Args content = a0 # a1 # rest"
    and "Uint64 a0 = Return (scast (IBTP_Multi d))"
    and "Uint64 a1 = Return n" and "0 < sint n"
    and "\<not> sint n dvd int (length rest)"
  shows "SubmitIBTP d c from index serviceID ibtpType content proof isEncrypted w =
           Some (Return (Some \<lparr>Status = True, Message = []\<rparr>,
                         Some ''format error for IBTP carrying multiple transactions''), w1)"
  using assms by (simp add: SubmitIBTP_def SubmitIBTP_invoke_def go_rem_dvd)

lemma SubmitIBTP_multi_groups:
  assumes "SubmitIBTP_offChain d c from index serviceID content w = Some (Return None, w1)"
    and "Args content = a0 # a1 # rest"
    and "Uint64 a0 = Return (scast (IBTP_Multi d))"
    and "Uint64 a1 = Return n" and "0 < sint n"
    and "sint n dvd int (length rest)"
  shows "\<exists>groups. length groups = length rest div nat (sint n)
           \<and> (\<forall>g\<in>set groups. length g = nat (sint n))
           \<and> concat groups = rest
           \<and> SubmitIBTP d c from index serviceID ibtpType content proof isEncrypted w =
               respond SubmitIBTPErr
                 (InvokeMultiInterchain c from index serviceID (scast ibtpType) (Func content)
                    groups (scast (TxStatus proof)) (MultiSign proof) isEncrypted w1)
           \<and> (\<forall>r w'. SubmitIBTP d c from index serviceID ibtpType content proof isEncrypted w
                        = Some (r, w') \<longrightarrow>
                 (\<exists>k. 0 < k \<and> submitted (trace w') = submitted (trace w1) @ replicate k
                    (Call_InvokeMultiInterchain from serviceID index (scast ibtpType) (Func content)
                       groups (scast (TxStatus proof)) (MultiSign proof) isEncrypted)))"
proof -
  define num where "num = nat (sint n)"
  have num: "0 < num" "int num = sint n" using assms(5) by (simp_all add: num_def)
  from assms(6) num have "num dvd length rest" by (metis int_dvd_int_iff)
  then obtain m where m: "length rest = m * num" by (auto simp: dvd_def mult.commute)
  define groups where "groups = map (\<lambda>j. take num (drop (2 + j * num) (Args content))) [0..<m]"
  note g = groups_of_args [OF num(1) assms(2) m, folded groups_def]
  have eq: "SubmitIBTP d c from index serviceID ibtpType content proof isEncrypted w =
               respond SubmitIBTPErr
                 (InvokeMultiInterchain c from index serviceID (scast ibtpType) (Func content)
                    groups (scast (TxStatus proof)) (MultiSign proof) isEncrypted w1)"
    using assms g(1) num(2) by (simp add: SubmitIBTP_def SubmitIBTP_invoke_def go_rem_dvd)
  have "\<exists>k. 0 < k \<and> submitted (trace w') = submitted (trace w1) @ replicate k
            (Call_InvokeMultiInterchain from serviceID index (scast ibtpType) (Func content)
               groups (scast (TxStatus proof)) (MultiSign proof) isEncrypted)"
    if "SubmitIBTP d c from index serviceID ibtpType content proof isEncrypted w = Some (r, w')"
    for r w'
  proof -
    from that eq respond_world obtain r0 where
      "InvokeMultiInterchain c from index serviceID (scast ibtpType) (Func content)
         groups (scast (TxStatus proof)) (MultiSign proof) isEncrypted w1 = Some (r0, w')"
      by metis
    then show ?thesis unfolding InvokeMultiInterchain_def by (rule confirm_submitted)
  qed
  with eq g(2-4) show ?thesis unfolding num_def by blast
qed


lemma SubmitIBTP_single:
  assumes "SubmitIBTP_offChain d c from index serviceID content w = Some (Return None, w1)"
    and "Args content = a0 # as"
    and "Uint64 a0 = Return typ" and "typ \<noteq> scast (IBTP_Multi d)"
  shows "SubmitIBTP d c from index serviceID ibtpType content proof isEncrypted w =
           respond SubmitIBTPErr
             (invokeInterchain c from index serviceID (scast ibtpType) (Func content) as
                (scast (TxStatus proof)) (MultiSign proof) isEncrypted w1)"
  using assms by (simp add: SubmitIBTP_def SubmitIBTP_invoke_def)

lemma respond_no_error:
  "respond failed r = Some (Return (resp, Some err), w') \<Longrightarrow> False"
  by (auto simp: respond_def split: option.splits outcome.splits prod.splits if_splits)

lemma SubmitIBTP_response_with_error:
  assumes "SubmitIBTP d c from index serviceID ibtpType content proof isEncrypted w =
             Some (Return (Some resp, Some err), w')"
  shows "Status resp \<and> err = ''format error for IBTP carrying multiple transactions''"
proof -
  from assms obtain w1 where
    inv: "SubmitIBTP_invoke d c from index serviceID ibtpType content proof isEncrypted w1 =
            Some (Return (Some resp, Some err), w')"
    by (auto simp: SubmitIBTP_def split: option.splits outcome.splits prod.splits)
  then show ?thesis
    unfolding SubmitIBTP_invoke_def
    by (auto split: list.splits outcome.splits if_splits option.splits dest: respond_no_error)
qed

lemma SubmitIBTP_chainID_failure:
  assumes "EqualFold serviceID (OffChainAddr (config c))" and "CheckInterchainOffChain d content"
    and "shd (chainID_resps w) = Inl err"
  shows "SubmitIBTP d c from index serviceID ibtpType content proof isEncrypted w =
           Some (Return (None, Some err),
                 w\<lparr>chainID_resps := stl (chainID_resps w),
                   trace := trace w @ [GetChainIDQuery (mode c) (Inl err)]\<rparr>)"
  using assms by (simp add: SubmitIBTP_def SubmitIBTP_offChain_def GetChainID_def)

text \<open>
  C3 (amended). Take a message whose type tag is the Multi value and whose decoded group
  size \<open>num\<close> is positive, and let the off-chain check at the head of \<^verbatim>\<open>SubmitIBTP\<close> let
  it pass. Passing submits no transaction; the only call it can have made is the
  chain-ID query. If \<open>num\<close> does not divide the number of trailing arguments
  (\<^verbatim>\<open>len(content.Args) - 2\<close>), \<^verbatim>\<open>SubmitIBTP\<close> returns the format error at once, in the
  world the check left. If it does, the trailing arguments are cut into
  \<^verbatim>\<open>(len - 2) / num\<close> contiguous groups of \<open>num\<close> elements, and the result is that of one
  call of \<^verbatim>\<open>InvokeMultiInterchain\<close> with these groups: every transaction then handed to
  the ledger session is an attempt of that one call.
\<close>

theorem SubmitIBTP_multi_partition:
  assumes "SubmitIBTP_offChain d c from index serviceID content w = Some (Return None, w1)"
    and "Args content = a0 # a1 # rest"
    and "Uint64 a0 = Return (scast (IBTP_Multi d))"
    and "Uint64 a1 = Return n" and "0 < sint n"
  shows "(\<not> sint n dvd int (length rest) \<longrightarrow>
            SubmitIBTP d c from index serviceID ibtpType content proof isEncrypted w =
              Some (Return (Some \<lparr>Status = True, Message = []\<rparr>,
                            Some ''format error for IBTP carrying multiple transactions''), w1))
       \<and> (sint n dvd int (length rest) \<longrightarrow>
            (\<exists>groups. length groups = length rest div nat (sint n)
               \<and> (\<forall>g\<in>set groups. length g = nat (sint n))
               \<and> concat groups = rest
               \<and> SubmitIBTP d c from index serviceID ibtpType content proof isEncrypted w =
                   respond SubmitIBTPErr
                     (InvokeMultiInterchain c from index serviceID (scast ibtpType) (Func content)
                        groups (scast (TxStatus proof)) (MultiSign proof) isEncrypted w1)
               \<and> (\<forall>r w'. SubmitIBTP d c from index serviceID ibtpType content proof isEncrypted w
                            = Some (r, w') \<longrightarrow>
                     (\<exists>k. 0 < k \<and> submitted (trace w') = submitted (trace w1) @ replicate k
                        (Call_InvokeMultiInterchain from serviceID index (scast ibtpType)
                           (Func content) groups (scast (TxStatus proof)) (MultiSign proof)
                           isEncrypted)))))
       \<and> transact_resps w1 = transact_resps w
       \<and> (trace w1 = trace w \<or> (\<exists>a. trace w1 = trace w @ [GetChainIDQuery (mode c) a]))"
  using SubmitIBTP_format_error [OF assms] SubmitIBTP_multi_groups [OF assms]
    offChain_passes [OF assms(1)]
  by blast

theorem SubmitIBTP_multi_partition_witness:
  "SubmitIBTP decls0 client0 ''1356:chain0:0xsrc'' 7 ''0xdst'' 0
      \<lparr>SrcContractId = ''0xsrc'', DstContractId = ''0xdst'', Func = ''set'',
         Args = [[CHR 0x00, CHR 0x00, CHR 0x00, CHR 0x00, CHR 0x00, CHR 0x00, CHR 0x00, CHR 0x05],
                 [CHR 0x00, CHR 0x00, CHR 0x00, CHR 0x00, CHR 0x00, CHR 0x00, CHR 0x00, CHR 0x02],
                 ''a'', ''b'', ''c'', ''d'', ''e'', ''f''],
         Callback = [], ArgsCb = [], Rollback = [], ArgsRb = []\<rparr>
      \<lparr>TxStatus = 0, MultiSign = []\<rparr> False idle
    = respond SubmitIBTPErr
        (InvokeMultiInterchain client0 ''1356:chain0:0xsrc'' 7 ''0xdst'' 0 ''set''
           [[''a'', ''b''], [''c'', ''d''], [''e'', ''f'']] 0 [] False idle)
   \<and> SubmitIBTP decls0 client0 ''1356:chain0:0xsrc'' 7 ''0xdst'' 0
      \<lparr>SrcContractId = ''0xsrc'', DstContractId = ''0xdst'', Func = ''set'',
         Args = [[CHR 0x00, CHR 0x00, CHR 0x00, CHR 0x00, CHR 0x00, CHR 0x00, CHR 0x00, CHR 0x05],
                 [CHR 0x00, CHR 0x00, CHR 0x00, CHR 0x00, CHR 0x00, CHR 0x00, CHR 0x00, CHR 0x02],
                 ''a'', ''b'', ''c''],
         Callback = [], ArgsCb = [], Rollback = [], ArgsRb = []\<rparr>
      \<lparr>TxStatus = 0, MultiSign = []\<rparr> False idle
    = Some (Return (Some \<lparr>Status = True, Message = []\<rparr>,
                    Some ''format error for IBTP carrying multiple transactions''), idle)"
proof -
  let ?content = "\<lparr>SrcContractId = ''0xsrc'', DstContractId = ''0xdst'', Func = ''set'',
               Args = [[CHR 0x00, CHR 0x00, CHR 0x00, CHR 0x00, CHR 0x00, CHR 0x00, CHR 0x00, CHR 0x05],
                       [CHR 0x00, CHR 0x00, CHR 0x00, CHR 0x00, CHR 0x00, CHR 0x00, CHR 0x00, CHR 0x02],
                       ''a'', ''b'', ''c'', ''d'', ''e'', ''f''],
               Callback = [], ArgsCb = [], Rollback = [], ArgsRb = []\<rparr>"
  let ?odd = "\<lparr>SrcContractId = ''0xsrc'', DstContractId = ''0xdst'', Func = ''set'',
               Args = [[CHR 0x00, CHR 0x00, CHR 0x00, CHR 0x00, CHR 0x00, CHR 0x00, CHR 0x00, CHR 0x05],
                       [CHR 0x00, CHR 0x00, CHR 0x00, CHR 0x00, CHR 0x00, CHR 0x00, CHR 0x00, CHR 0x02],
                       ''a'', ''b'', ''c''],
               Callback = [], ArgsCb = [], Rollback = [], ArgsRb = []\<rparr>"
  have off: "SubmitIBTP_offChain decls0 client0 ''1356:chain0:0xsrc'' 7 ''0xdst'' ?content idle
               = Some (Return None, idle)"
    by (simp add: SubmitIBTP_offChain_def EqualFold_def to_lower_def client0_def)
  have off': "SubmitIBTP_offChain decls0 client0 ''1356:chain0:0xsrc'' 7 ''0xdst'' ?odd idle
               = Some (Return None, idle)"
    by (simp add: SubmitIBTP_offChain_def EqualFold_def to_lower_def client0_def)
  have args: "Args ?content =
      [CHR 0x00, CHR 0x00, CHR 0x00, CHR 0x00, CHR 0x00, CHR 0x00, CHR 0x00, CHR 0x05]
      # [CHR 0x00, CHR 0x00, CHR 0x00, CHR 0x00, CHR 0x00, CHR 0x00, CHR 0x00, CHR 0x02]
      # [''a'', ''b'', ''c'', ''d'', ''e'', ''f'']"
    by simp
  have args': "Args ?odd =
      [CHR 0x00, CHR 0x00, CHR 0x00, CHR 0x00, CHR 0x00, CHR 0x00, CHR 0x00, CHR 0x05]
      # [CHR 0x00, CHR 0x00, CHR 0x00, CHR 0x00, CHR 0x00, CHR 0x00, CHR 0x00, CHR 0x02]
      # [''a'', ''b'', ''c'']"
    by simp
  have tag: "Uint64 [CHR 0x00, CHR 0x00, CHR 0x00, CHR 0x00, CHR 0x00, CHR 0x00, CHR 0x00, CHR 0x05]
               = Return (scast (IBTP_Multi decls0))"
    by (simp add: Uint64_def decls0_def)
  have num: "Uint64 [CHR 0x00, CHR 0x00, CHR 0x00, CHR 0x00, CHR 0x00, CHR 0x00, CHR 0x00, CHR 0x02]
               = Return 2"
    by (simp add: Uint64_def)
  have pos: "0 < sint (2 :: u64)" by simp
  from SubmitIBTP_multi_partition [OF off args tag num pos, THEN conjunct2, THEN conjunct1,
      of 0 "\<lparr>TxStatus = 0, MultiSign = []\<rparr>" False]
  obtain groups where g: "length groups = Suc (Suc (Suc 0))" "\<forall>g\<in>set groups. length g = 2"
      "concat groups = [''a'', ''b'', ''c'', ''d'', ''e'', ''f'']"
      "SubmitIBTP decls0 client0 ''1356:chain0:0xsrc'' 7 ''0xdst'' 0 ?content
          \<lparr>TxStatus = 0, MultiSign = []\<rparr> False idle
        = respond SubmitIBTPErr
            (InvokeMultiInterchain client0 ''1356:chain0:0xsrc'' 7 ''0xdst'' 0 ''set'' groups 0 []
               False idle)"
    by auto
  from g(1) obtain x y z where xyz: "groups = [x, y, z]"
    by (auto simp: length_Suc_conv)
  from g(2) xyz obtain x1 x2 y1 y2 z1 z2 where "x = [x1, x2]" "y = [y1, y2]" "z = [z1, z2]"
    by (auto simp: length_Suc_conv eval_nat_numeral)
  with g(3) xyz have "groups = [[''a'', ''b''], [''c'', ''d''], [''e'', ''f'']]" by simp
  with g(4) have even: "SubmitIBTP decls0 client0 ''1356:chain0:0xsrc'' 7 ''0xdst'' 0 ?content
          \<lparr>TxStatus = 0, MultiSign = []\<rparr> False idle
        = respond SubmitIBTPErr
            (InvokeMultiInterchain client0 ''1356:chain0:0xsrc'' 7 ''0xdst'' 0 ''set''
               [[''a'', ''b''], [''c'', ''d''], [''e'', ''f'']] 0 [] False idle)"
    by simp
  from SubmitIBTP_multi_partition [OF off' args' tag num pos, THEN conjunct1,
      of 0 "\<lparr>TxStatus = 0, MultiSign = []\<rparr>" False]
  have "SubmitIBTP decls0 client0 ''1356:chain0:0xsrc'' 7 ''0xdst'' 0 ?odd
          \<lparr>TxStatus = 0, MultiSign = []\<rparr> False idle
    = Some (Return (Some \<lparr>Status = True, Message = []\<rparr>,
                    Some ''format error for IBTP carrying multiple transactions''), idle)"
    by simp
  with even show ?thesis by simp
qed

text \<open>
  The claim as stated fails when the service is the off-chain contract and the content
  asks for off-chain data: the ledger session is asked for the chain ID, and a data
  request is queued, before the format error is returned.
\<close>

theorem SubmitIBTP_multi_partition_counterexample:
  "SubmitIBTP decls0 client0 ''1356:chain0:0xsrc'' 7 ''0xOFF'' 0
      \<lparr>SrcContractId = ''0xsrc'', DstContractId = ''0xOFF'', Func = ''set'',
         Args = [[CHR 0x00, CHR 0x00, CHR 0x00, CHR 0x00, CHR 0x00, CHR 0x00, CHR 0x00, CHR 0x05],
                 [CHR 0x00, CHR 0x00, CHR 0x00, CHR 0x00, CHR 0x00, CHR 0x00, CHR 0x00, CHR 0x02],
                 ''a''],
         Callback = [], ArgsCb = [], Rollback = [], ArgsRb = []\<rparr>
      \<lparr>TxStatus = 0, MultiSign = []\<rparr> False
      (idle\<lparr>chainID_resps := sconst (Inr (''1356'', ''chain0''))\<rparr>)
   = Some (Return (Some \<lparr>Status = True, Message = []\<rparr>,
                   Some ''format error for IBTP carrying multiple transactions''),
           idle\<lparr>chainID_resps := sconst (Inr (''1356'', ''chain0'')),
                trace := [GetChainIDQuery Relayed (Inr (''1356'', ''chain0''))],
                reqCh := [\<lparr>req_Index = 7, req_From = ''1356:chain0:0xOFF'',
                           req_To = ''1356:chain0:0xsrc'',
                           req_Req = [CHR 0x00, CHR 0x00, CHR 0x00, CHR 0x00, CHR 0x00, CHR 0x00,
                                      CHR 0x00, CHR 0x02]\<rparr>]\<rparr>)"
  by (simp add: SubmitIBTP_def SubmitIBTP_offChain_def SubmitIBTP_invoke_def GetChainID_def
      send_reqCh_def EqualFold_def to_lower_def client0_def decls0_def idle_def Uint64_def
      go_rem_def)


text \<open>
  C9 (amended). When \<^verbatim>\<open>SubmitIBTP\<close> rejects a multi-transaction message because the
  group size does not divide the number of trailing arguments, it returns the format
  error together with a response whose status is still true, and this is the only way a
  response comes with a non-nil error. The failures of the submission itself (an error
  from \<^verbatim>\<open>invokeInterchain\<close> or \<^verbatim>\<open>InvokeMultiInterchain\<close>, or a receipt that is not
  successful) give a response with status false and a nil error. A failed chain-ID query
  in the off-chain check returns the error and no response at all.
\<close>

theorem SubmitIBTP_failure_status:
  "(SubmitIBTP_offChain d c from index serviceID content w = Some (Return None, w1)
      \<and> Args content = a0 # a1 # rest \<and> Uint64 a0 = Return (scast (IBTP_Multi d))
      \<and> Uint64 a1 = Return n \<and> 0 < sint n \<and> \<not> sint n dvd int (length rest)
     \<longrightarrow> SubmitIBTP d c from index serviceID ibtpType content proof isEncrypted w =
           Some (Return (Some \<lparr>Status = True, Message = []\<rparr>,
                         Some ''format error for IBTP carrying multiple transactions''), w1))
   \<and> (\<forall>resp err w'.
         SubmitIBTP d c from index serviceID ibtpType content proof isEncrypted w =
           Some (Return (Some resp, Some err), w')
         \<longrightarrow> Status resp \<and> err = ''format error for IBTP carrying multiple transactions'')
   \<and> (SubmitIBTP_offChain d c from index serviceID content w = Some (Return None, w1)
        \<and> Args content = a0 # as \<and> Uint64 a0 = Return typ \<and> typ \<noteq> scast (IBTP_Multi d)
       \<longrightarrow> SubmitIBTP d c from index serviceID ibtpType content proof isEncrypted w =
             respond SubmitIBTPErr
               (invokeInterchain c from index serviceID (scast ibtpType) (Func content) as
                  (scast (TxStatus proof)) (MultiSign proof) isEncrypted w1))
   \<and> (SubmitIBTP_offChain d c from index serviceID content w = Some (Return None, w1)
        \<and> Args content = a0 # a1 # rest \<and> Uint64 a0 = Return (scast (IBTP_Multi d))
        \<and> Uint64 a1 = Return n \<and> 0 < sint n \<and> sint n dvd int (length rest)
       \<longrightarrow> (\<exists>groups.
              SubmitIBTP d c from index serviceID ibtpType content proof isEncrypted w =
                respond SubmitIBTPErr
                  (InvokeMultiInterchain c from index serviceID (scast ibtpType) (Func content)
                     groups (scast (TxStatus proof)) (MultiSign proof) isEncrypted w1)))
   \<and> (\<forall>rc e w2. respond failed (Some (Return (rc, Some e), w2)) =
         Some (Return (Some \<lparr>Status = False, Message = e\<rparr>, None), w2))
   \<and> (\<forall>r w2. rcpt_Status r \<noteq> ReceiptStatusSuccessful \<longrightarrow>
         respond failed (Some (Return (Some r, None), w2)) =
         Some (Return (Some \<lparr>Status = False, Message = failed\<rparr>, None), w2))
   \<and> (EqualFold serviceID (OffChainAddr (config c)) \<and> CheckInterchainOffChain d content
        \<and> shd (chainID_resps w) = Inl err0
       \<longrightarrow> SubmitIBTP d c from index serviceID ibtpType content proof isEncrypted w =
             Some (Return (None, Some err0),
                   w\<lparr>chainID_resps := stl (chainID_resps w),
                     trace := trace w @ [GetChainIDQuery (mode c) (Inl err0)]\<rparr>))"
proof (intro conjI impI allI)
  show "respond failed (Some (Return (rc, Some e), w2)) =
         Some (Return (Some \<lparr>Status = False, Message = e\<rparr>, None), w2)" for rc e w2
    by (simp add: respond_def split: option.splits)
  show "respond failed (Some (Return (Some r, None), w2)) =
         Some (Return (Some \<lparr>Status = False, Message = failed\<rparr>, None), w2)"
    if "rcpt_Status r \<noteq> ReceiptStatusSuccessful" for r w2
    using that by (simp add: respond_def)
next
  assume "SubmitIBTP_offChain d c from index serviceID content w = Some (Return None, w1)
      \<and> Args content = a0 # a1 # rest \<and> Uint64 a0 = Return (scast (IBTP_Multi d))
      \<and> Uint64 a1 = Return n \<and> 0 < sint n \<and> \<not> sint n dvd int (length rest)"
  then have h: "SubmitIBTP_offChain d c from index serviceID content w = Some (Return None, w1)"
    "Args content = a0 # a1 # rest" "Uint64 a0 = Return (scast (IBTP_Multi d))"
    "Uint64 a1 = Return n" "0 < sint n" "\<not> sint n dvd int (length rest)"
    by blast+
  from SubmitIBTP_format_error [OF h]
  show "SubmitIBTP d c from index serviceID ibtpType content proof isEncrypted w =
           Some (Return (Some \<lparr>Status = True, Message = []\<rparr>,
                         Some ''format error for IBTP carrying multiple transactions''), w1)" .
next
  fix resp err w'
  assume "SubmitIBTP d c from index serviceID ibtpType content proof isEncrypted w =
           Some (Return (Some resp, Some err), w')"
  from SubmitIBTP_response_with_error [OF this]
  show "Status resp" and "err = ''format error for IBTP carrying multiple transactions''"
    by simp_all
next
  assume "SubmitIBTP_offChain d c from index serviceID content w = Some (Return None, w1)
        \<and> Args content = a0 # as \<and> Uint64 a0 = Return typ \<and> typ \<noteq> scast (IBTP_Multi d)"
  then have h: "SubmitIBTP_offChain d c from index serviceID content w = Some (Return None, w1)"
    "Args content = a0 # as" "Uint64 a0 = Return typ" "typ \<noteq> scast (IBTP_Multi d)"
    by blast+
  from SubmitIBTP_single [OF h]
  show "SubmitIBTP d c from index serviceID ibtpType content proof isEncrypted w =
             respond SubmitIBTPErr
               (invokeInterchain c from index serviceID (scast ibtpType) (Func content) as
                  (scast (TxStatus proof)) (MultiSign proof) isEncrypted w1)" .
next
  assume a: "SubmitIBTP_offChain d c from index serviceID content w = Some (Return None, w1)
        \<and> Args content = a0 # a1 # rest \<and> Uint64 a0 = Return (scast (IBTP_Multi d))
        \<and> Uint64 a1 = Return n \<and> 0 < sint n \<and> sint n dvd int (length rest)"
  then have h: "SubmitIBTP_offChain d c from index serviceID content w = Some (Return None, w1)"
    "Args content = a0 # a1 # rest" "Uint64 a0 = Return (scast (IBTP_Multi d))"
    "Uint64 a1 = Return n" "0 < sint n" "sint n dvd int (length rest)"
    by blast+
  from SubmitIBTP_multi_groups [OF h]
  show "\<exists>groups.
              SubmitIBTP d c from index serviceID ibtpType content proof isEncrypted w =
                respond SubmitIBTPErr
                  (InvokeMultiInterchain c from index serviceID (scast ibtpType) (Func content)
                     groups (scast (TxStatus proof)) (MultiSign proof) isEncrypted w1)"
    by blast
next
  assume "EqualFold serviceID (OffChainAddr (config c)) \<and> CheckInterchainOffChain d content
        \<and> shd (chainID_resps w) = Inl err0"
  then have h: "EqualFold serviceID (OffChainAddr (config c))" "CheckInterchainOffChain d content"
    "shd (chainID_resps w) = Inl err0"
    by blast+
  from SubmitIBTP_chainID_failure [OF h]
  show "SubmitIBTP d c from index serviceID ibtpType content proof isEncrypted w =
             Some (Return (None, Some err0),
                   w\<lparr>chainID_resps := stl (chainID_resps w),
                     trace := trace w @ [GetChainIDQuery (mode c) (Inl err0)]\<rparr>)" .
qed

theorem SubmitIBTP_failure_status_witness:
  "SubmitIBTP decls0 client0 ''1356:chain0:0xsrc'' 7 ''0xdst'' 0
      \<lparr>SrcContractId = ''0xsrc'', DstContractId = ''0xdst'', Func = ''set'',
         Args = [[CHR 0x00, CHR 0x00, CHR 0x00, CHR 0x00, CHR 0x00, CHR 0x00, CHR 0x00, CHR 0x05],
                 [CHR 0x00, CHR 0x00, CHR 0x00, CHR 0x00, CHR 0x00, CHR 0x00, CHR 0x00, CHR 0x02],
                 ''a'', ''b'', ''c''],
         Callback = [], ArgsCb = [], Rollback = [], ArgsRb = []\<rparr>
      \<lparr>TxStatus = 0, MultiSign = []\<rparr> False idle
    = Some (Return (Some \<lparr>Status = True, Message = []\<rparr>,
                    Some ''format error for IBTP carrying multiple transactions''), idle)
   \<and> SubmitIBTP decls0 client0 ''1356:chain0:0xsrc'' 7 ''0xdst'' 0
      \<lparr>SrcContractId = ''0xsrc'', DstContractId = ''0xdst'', Func = ''set'',
         Args = [[CHR 0x00, CHR 0x00, CHR 0x00, CHR 0x00, CHR 0x00, CHR 0x00, CHR 0x00, CHR 0x00],
                 ''k'', ''v''],
         Callback = [], ArgsCb = [], Rollback = [], ArgsRb = []\<rparr>
      \<lparr>TxStatus = 0, MultiSign = []\<rparr> False idle
    = respond SubmitIBTPErr
        (invokeInterchain client0 ''1356:chain0:0xsrc'' 7 ''0xdst'' 0 ''set'' [''k'', ''v''] 0 []
           False idle)
   \<and> SubmitIBTP decls0 client0 ''1356:chain0:0xsrc'' 7 ''0xOFF'' 0
      \<lparr>SrcContractId = ''0xsrc'', DstContractId = ''0xOFF'', Func = ''set'',
         Args = [[CHR 0x00, CHR 0x00, CHR 0x00, CHR 0x00, CHR 0x00, CHR 0x00, CHR 0x00, CHR 0x00],
                 ''k'', ''v''],
         Callback = [], ArgsCb = [], Rollback = [], ArgsRb = []\<rparr>
      \<lparr>TxStatus = 0, MultiSign = []\<rparr> False idle
    = Some (Return (None, Some ''timeout''),
            idle\<lparr>trace := [GetChainIDQuery Relayed (Inl ''timeout'')]\<rparr>)
   \<and> respond SubmitIBTPErr (Some (Return (Some \<lparr>rcpt_Status = 0, rcpt_TxHash = ''0xabc''\<rparr>, None), idle))
    = Some (Return (Some \<lparr>Status = False, Message = ''SubmitIBTP tx execution failed''\<rparr>, None),
            idle)"
proof -
  let ?odd = "\<lparr>SrcContractId = ''0xsrc'', DstContractId = ''0xdst'', Func = ''set'',
         Args = [[CHR 0x00, CHR 0x00, CHR 0x00, CHR 0x00, CHR 0x00, CHR 0x00, CHR 0x00, CHR 0x05],
                 [CHR 0x00, CHR 0x00, CHR 0x00, CHR 0x00, CHR 0x00, CHR 0x00, CHR 0x00, CHR 0x02],
                 ''a'', ''b'', ''c''],
         Callback = [], ArgsCb = [], Rollback = [], ArgsRb = []\<rparr>"
  let ?single = "\<lparr>SrcContractId = ''0xsrc'', DstContractId = ''0xdst'', Func = ''set'',
         Args = [[CHR 0x00, CHR 0x00, CHR 0x00, CHR 0x00, CHR 0x00, CHR 0x00, CHR 0x00, CHR 0x00],
                 ''k'', ''v''],
         Callback = [], ArgsCb = [], Rollback = [], ArgsRb = []\<rparr>"
  let ?off = "\<lparr>SrcContractId = ''0xsrc'', DstContractId = ''0xOFF'', Func = ''set'',
         Args = [[CHR 0x00, CHR 0x00, CHR 0x00, CHR 0x00, CHR 0x00, CHR 0x00, CHR 0x00, CHR 0x00],
                 ''k'', ''v''],
         Callback = [], ArgsCb = [], Rollback = [], ArgsRb = []\<rparr>"
  have h1: "SubmitIBTP_offChain decls0 client0 ''1356:chain0:0xsrc'' 7 ''0xdst'' ?odd idle
               = Some (Return None, idle)
      \<and> Args ?odd =
          [CHR 0x00, CHR 0x00, CHR 0x00, CHR 0x00, CHR 0x00, CHR 0x00, CHR 0x00, CHR 0x05]
          # [CHR 0x00, CHR 0x00, CHR 0x00, CHR 0x00, CHR 0x00, CHR 0x00, CHR 0x00, CHR 0x02]
          # [''a'', ''b'', ''c'']
      \<and> Uint64 [CHR 0x00, CHR 0x00, CHR 0x00, CHR 0x00, CHR 0x00, CHR 0x00, CHR 0x00, CHR 0x05]
               = Return (scast (IBTP_Multi decls0))
      \<and> Uint64 [CHR 0x00, CHR 0x00, CHR 0x00, CHR 0x00, CHR 0x00, CHR 0x00, CHR 0x00, CHR 0x02]
               = Return 2
      \<and> 0 < sint (2 :: u64) \<and> \<not> sint (2 :: u64) dvd int (length [''a'', ''b'', ''c''])"
    by (simp add: SubmitIBTP_offChain_def EqualFold_def to_lower_def client0_def Uint64_def
        decls0_def)
  have h3: "SubmitIBTP_offChain decls0 client0 ''1356:chain0:0xsrc'' 7 ''0xdst'' ?single idle
               = Some (Return None, idle)
      \<and> Args ?single =
          [CHR 0x00, CHR 0x00, CHR 0x00, CHR 0x00, CHR 0x00, CHR 0x00, CHR 0x00, CHR 0x00]
          # [''k'', ''v'']
      \<and> Uint64 [CHR 0x00, CHR 0x00, CHR 0x00, CHR 0x00, CHR 0x00, CHR 0x00, CHR 0x00, CHR 0x00]
               = Return 0
      \<and> (0 :: u64) \<noteq> scast (IBTP_Multi decls0)"
    by (simp add: SubmitIBTP_offChain_def EqualFold_def to_lower_def client0_def Uint64_def
        decls0_def)
  have h7: "EqualFold ''0xOFF'' (OffChainAddr (config client0))
      \<and> CheckInterchainOffChain decls0 ?off \<and> shd (chainID_resps idle) = Inl ''timeout''"
    by (simp add: EqualFold_def to_lower_def client0_def decls0_def idle_def)
  have h6: "rcpt_Status \<lparr>rcpt_Status = 0, rcpt_TxHash = ''0xabc''\<rparr> \<noteq> ReceiptStatusSuccessful"
    by (simp add: ReceiptStatusSuccessful_def)
  note th = SubmitIBTP_failure_status
  from th [THEN conjunct1, rule_format,
      of decls0 client0 "''1356:chain0:0xsrc''" 7 "''0xdst''" ?odd idle idle _ _
         "[''a'', ''b'', ''c'']" 2 0 "\<lparr>TxStatus = 0, MultiSign = []\<rparr>" False, OF h1]
  have c1: "SubmitIBTP decls0 client0 ''1356:chain0:0xsrc'' 7 ''0xdst'' 0 ?odd
      \<lparr>TxStatus = 0, MultiSign = []\<rparr> False idle
    = Some (Return (Some \<lparr>Status = True, Message = []\<rparr>,
                    Some ''format error for IBTP carrying multiple transactions''), idle)" .
  from th [THEN conjunct2, THEN conjunct2, THEN conjunct1, rule_format, OF h3,
      of 0 "\<lparr>TxStatus = 0, MultiSign = []\<rparr>" False]
  have c3: "SubmitIBTP decls0 client0 ''1356:chain0:0xsrc'' 7 ''0xdst'' 0 ?single
      \<lparr>TxStatus = 0, MultiSign = []\<rparr> False idle
    = respond SubmitIBTPErr
        (invokeInterchain client0 ''1356:chain0:0xsrc'' 7 ''0xdst'' 0 ''set'' [''k'', ''v''] 0 []
           False idle)"
    by simp
  from th [THEN conjunct2, THEN conjunct2, THEN conjunct2, THEN conjunct2, THEN conjunct2,
      THEN conjunct2, rule_format, OF h7,
      of "''1356:chain0:0xsrc''" 7 0 "\<lparr>TxStatus = 0, MultiSign = []\<rparr>" False]
  have c7: "SubmitIBTP decls0 client0 ''1356:chain0:0xsrc'' 7 ''0xOFF'' 0 ?off
      \<lparr>TxStatus = 0, MultiSign = []\<rparr> False idle
    = Some (Return (None, Some ''timeout''),
            idle\<lparr>trace := [GetChainIDQuery Relayed (Inl ''timeout'')]\<rparr>)"
    by (simp add: idle_def client0_def)
  from th [THEN conjunct2, THEN conjunct2, THEN conjunct2, THEN conjunct2, THEN conjunct2,
      THEN conjunct1, rule_format, OF h6, of SubmitIBTPErr idle]
  have c6: "respond SubmitIBTPErr (Some (Return (Some \<lparr>rcpt_Status = 0, rcpt_TxHash = ''0xabc''\<rparr>, None), idle))
    = Some (Return (Some \<lparr>Status = False, Message = ''SubmitIBTP tx execution failed''\<rparr>, None),
            idle)"
    by (simp add: SubmitIBTPErr_def)
  from c1 c3 c7 c6 show ?thesis by blast
qed

text \<open>
  Not every other failure path sets the status to false: when the chain-ID query of the
  off-chain check fails, there is no response whose status could be set.
\<close>

theorem SubmitIBTP_failure_status_counterexample:
  "SubmitIBTP decls0 client0 ''1356:chain0:0xsrc'' 7 ''0xOFF'' 0
      \<lparr>SrcContractId = ''0xsrc'', DstContractId = ''0xOFF'', Func = ''set'',
         Args = [[CHR 0x00, CHR 0x00, CHR 0x00, CHR 0x00, CHR 0x00, CHR 0x00, CHR 0x00, CHR 0x00],
                 ''/tmp/file''],
         Callback = [], ArgsCb = [], Rollback = [], ArgsRb = []\<rparr>
      \<lparr>TxStatus = 0, MultiSign = []\<rparr> False idle
    = Some (Return (None, Some ''timeout''),
            idle\<lparr>trace := [GetChainIDQuery Relayed (Inl ''timeout'')]\<rparr>)"
  by (simp add: SubmitIBTP_def SubmitIBTP_offChain_def GetChainID_def EqualFold_def to_lower_def
      client0_def decls0_def idle_def)

lemma SubmitReceipt_routes:
  assumes "SubmitReceipt_offChain d c to index serviceID result w = Some (Return None, w1)"
  shows "SubmitReceipt d c to index serviceID ibtpType result proof w =
           (if 1 < length (MultiStatus result)
               \<or> (length (MultiStatus result) = 0 \<and> TxStatus proof \<noteq> TransactionStatus_BEGIN d)
            then respond SubmitReceiptErr
                   (InvokeMultiReceipt c serviceID to index (scast ibtpType) (res_Data result)
                      (MultiStatus result) (scast (TxStatus proof)) (MultiSign proof) w1)
            else respond SubmitReceiptErr
                   (invokeReceipt c serviceID to index (scast ibtpType) (res_Data result)
                      (scast (TxStatus proof)) (MultiSign proof) w1))"
  using assms by (simp add: SubmitReceipt_def SubmitReceipt_invoke_def)

text \<open>
  C4 (amended). For every receipt submission that the off-chain check at the head of
  \<^verbatim>\<open>SubmitReceipt\<close> lets pass: if \<^verbatim>\<open>multiStatus\<close> has more than one entry, or none while
  the transaction status is not BEGIN, the result is that of \<^verbatim>\<open>InvokeMultiReceipt\<close> and
  every transaction handed to the ledger session is an attempt of that call; in every
  other case the same holds with \<^verbatim>\<open>invokeReceipt\<close>. In particular \<^verbatim>\<open>[true, false]\<close> goes to
  \<^verbatim>\<open>InvokeMultiReceipt\<close> whatever the transaction status.
\<close>

theorem SubmitReceipt_routing:
  assumes "SubmitReceipt_offChain d c to index serviceID result w = Some (Return None, w1)"
  shows "(1 < length (MultiStatus result)
            \<or> (length (MultiStatus result) = 0 \<and> TxStatus proof \<noteq> TransactionStatus_BEGIN d)
          \<longrightarrow> SubmitReceipt d c to index serviceID ibtpType result proof w =
                respond SubmitReceiptErr
                  (InvokeMultiReceipt c serviceID to index (scast ibtpType) (res_Data result)
                     (MultiStatus result) (scast (TxStatus proof)) (MultiSign proof) w1)
              \<and> (\<forall>r w'. SubmitReceipt d c to index serviceID ibtpType result proof w = Some (r, w')
                    \<longrightarrow> (\<exists>k. 0 < k \<and> submitted (trace w') = submitted (trace w1) @ replicate k
                           (Call_InvokeMultiReceipt serviceID to index (scast ibtpType)
                              (res_Data result) (MultiStatus result) (scast (TxStatus proof))
                              (MultiSign proof)))))
       \<and> (\<not> (1 < length (MultiStatus result)
               \<or> (length (MultiStatus result) = 0 \<and> TxStatus proof \<noteq> TransactionStatus_BEGIN d))
          \<longrightarrow> SubmitReceipt d c to index serviceID ibtpType result proof w =
                respond SubmitReceiptErr
                  (invokeReceipt c serviceID to index (scast ibtpType) (res_Data result)
                     (scast (TxStatus proof)) (MultiSign proof) w1)
              \<and> (\<forall>r w'. SubmitReceipt d c to index serviceID ibtpType result proof w = Some (r, w')
                    \<longrightarrow> (\<exists>k. 0 < k \<and> submitted (trace w') = submitted (trace w1) @ replicate k
                           (Call_InvokeReceipt serviceID to index (scast ibtpType)
                              (res_Data result) (scast (TxStatus proof)) (MultiSign proof)))))
       \<and> (MultiStatus result = [True, False]
          \<longrightarrow> SubmitReceipt d c to index serviceID ibtpType result proof w =
                respond SubmitReceiptErr
                  (InvokeMultiReceipt c serviceID to index (scast ibtpType) (res_Data result)
                     [True, False] (scast (TxStatus proof)) (MultiSign proof) w1))"
proof (intro conjI impI allI)
  assume cond: "1 < length (MultiStatus result)
            \<or> (length (MultiStatus result) = 0 \<and> TxStatus proof \<noteq> TransactionStatus_BEGIN d)"
  then show eq: "SubmitReceipt d c to index serviceID ibtpType result proof w =
                respond SubmitReceiptErr
                  (InvokeMultiReceipt c serviceID to index (scast ibtpType) (res_Data result)
                     (MultiStatus result) (scast (TxStatus proof)) (MultiSign proof) w1)"
    by (simp only: SubmitReceipt_routes [OF assms] if_True)
  fix r w'
  assume "SubmitReceipt d c to index serviceID ibtpType result proof w = Some (r, w')"
  with eq respond_world obtain r0 where
    "InvokeMultiReceipt c serviceID to index (scast ibtpType) (res_Data result)
       (MultiStatus result) (scast (TxStatus proof)) (MultiSign proof) w1 = Some (r0, w')"
    by metis
  then show "\<exists>k. 0 < k \<and> submitted (trace w') = submitted (trace w1) @ replicate k
                           (Call_InvokeMultiReceipt serviceID to index (scast ibtpType)
                              (res_Data result) (MultiStatus result) (scast (TxStatus proof))
                              (MultiSign proof))"
    unfolding InvokeMultiReceipt_def by (rule confirm_submitted)
next
  assume cond: "\<not> (1 < length (MultiStatus result)
            \<or> (length (MultiStatus result) = 0 \<and> TxStatus proof \<noteq> TransactionStatus_BEGIN d))"
  then show eq: "SubmitReceipt d c to index serviceID ibtpType result proof w =
                respond SubmitReceiptErr
                  (invokeReceipt c serviceID to index (scast ibtpType) (res_Data result)
                     (scast (TxStatus proof)) (MultiSign proof) w1)"
    by (simp only: SubmitReceipt_routes [OF assms] if_False)
  fix r w'
  assume "SubmitReceipt d c to index serviceID ibtpType result proof w = Some (r, w')"
  with eq respond_world obtain r0 where
    "invokeReceipt c serviceID to index (scast ibtpType) (res_Data result)
       (scast (TxStatus proof)) (MultiSign proof) w1 = Some (r0, w')"
    by metis
  then show "\<exists>k. 0 < k \<and> submitted (trace w') = submitted (trace w1) @ replicate k
                           (Call_InvokeReceipt serviceID to index (scast ibtpType)
                              (res_Data result) (scast (TxStatus proof)) (MultiSign proof))"
    unfolding invokeReceipt_def by (rule confirm_submitted)
next
  assume "MultiStatus result = [True, False]"
  then show "SubmitReceipt d c to index serviceID ibtpType result proof w =
                respond SubmitReceiptErr
                  (InvokeMultiReceipt c serviceID to index (scast ibtpType) (res_Data result)
                     [True, False] (scast (TxStatus proof)) (MultiSign proof) w1)"
    using SubmitReceipt_routes [OF assms] by simp
qed

theorem SubmitReceipt_routing_witness:
  "SubmitReceipt decls0 client0 ''1356:chain1:0xdst'' 7 ''0xsrc'' 0
      \<lparr>res_Data = [[''ok''], [''failed'']], MultiStatus = [True, False]\<rparr>
      \<lparr>TxStatus = 0, MultiSign = [''sig'']\<rparr> idle
   = respond SubmitReceiptErr
       (InvokeMultiReceipt client0 ''0xsrc'' ''1356:chain1:0xdst'' 7 0 [[''ok''], [''failed'']]
          [True, False] 0 [''sig''] idle)
   \<and> SubmitReceipt decls0 client0 ''1356:chain1:0xdst'' 7 ''0xsrc'' 0
      \<lparr>res_Data = [], MultiStatus = []\<rparr> \<lparr>TxStatus = 3, MultiSign = [''sig'']\<rparr> idle
   = respond SubmitReceiptErr
       (InvokeMultiReceipt client0 ''0xsrc'' ''1356:chain1:0xdst'' 7 0 [] [] 3 [''sig''] idle)
   \<and> SubmitReceipt decls0 client0 ''1356:chain1:0xdst'' 7 ''0xsrc'' 0
      \<lparr>res_Data = [[''ok'']], MultiStatus = [True]\<rparr> \<lparr>TxStatus = 1, MultiSign = [''sig'']\<rparr> idle
   = respond SubmitReceiptErr
       (invokeReceipt client0 ''0xsrc'' ''1356:chain1:0xdst'' 7 0 [[''ok'']] 1 [''sig''] idle)
   \<and> SubmitReceipt decls0 client0 ''1356:chain1:0xdst'' 7 ''0xsrc'' 0
      \<lparr>res_Data = [], MultiStatus = []\<rparr> \<lparr>TxStatus = 0, MultiSign = [''sig'']\<rparr> idle
   = respond SubmitReceiptErr
       (invokeReceipt client0 ''0xsrc'' ''1356:chain1:0xdst'' 7 0 [] 0 [''sig''] idle)"
proof -
  have off: "SubmitReceipt_offChain decls0 client0 ''1356:chain1:0xdst'' 7 ''0xsrc'' result idle
        = Some (Return None, idle)" for result
    by (simp add: SubmitReceipt_offChain_def EqualFold_def to_lower_def client0_def)
  note th = SubmitReceipt_routing [OF off]
  from th [THEN conjunct2, THEN conjunct2, rule_format,
      of "\<lparr>res_Data = [[''ok''], [''failed'']], MultiStatus = [True, False]\<rparr>" 0
         "\<lparr>TxStatus = 0, MultiSign = [''sig'']\<rparr>"]
  have c1: "SubmitReceipt decls0 client0 ''1356:chain1:0xdst'' 7 ''0xsrc'' 0
      \<lparr>res_Data = [[''ok''], [''failed'']], MultiStatus = [True, False]\<rparr>
      \<lparr>TxStatus = 0, MultiSign = [''sig'']\<rparr> idle
   = respond SubmitReceiptErr
       (InvokeMultiReceipt client0 ''0xsrc'' ''1356:chain1:0xdst'' 7 0 [[''ok''], [''failed'']]
          [True, False] 0 [''sig''] idle)"
    by simp
  from th [THEN conjunct1, rule_format, THEN conjunct1,
      of "\<lparr>res_Data = [], MultiStatus = []\<rparr>" "\<lparr>TxStatus = 3, MultiSign = [''sig'']\<rparr>" 0]
  have c2: "SubmitReceipt decls0 client0 ''1356:chain1:0xdst'' 7 ''0xsrc'' 0
      \<lparr>res_Data = [], MultiStatus = []\<rparr> \<lparr>TxStatus = 3, MultiSign = [''sig'']\<rparr> idle
   = respond SubmitReceiptErr
       (InvokeMultiReceipt client0 ''0xsrc'' ''1356:chain1:0xdst'' 7 0 [] [] 3 [''sig''] idle)"
    by (simp add: decls0_def)
  from th [THEN conjunct2, THEN conjunct1, rule_format, THEN conjunct1,
      of "\<lparr>res_Data = [[''ok'']], MultiStatus = [True]\<rparr>" "\<lparr>TxStatus = 1, MultiSign = [''sig'']\<rparr>"
         0]
  have c3: "SubmitReceipt decls0 client0 ''1356:chain1:0xdst'' 7 ''0xsrc'' 0
      \<lparr>res_Data = [[''ok'']], MultiStatus = [True]\<rparr> \<lparr>TxStatus = 1, MultiSign = [''sig'']\<rparr> idle
   = respond SubmitReceiptErr
       (invokeReceipt client0 ''0xsrc'' ''1356:chain1:0xdst'' 7 0 [[''ok'']] 1 [''sig''] idle)"
    by (simp add: decls0_def)
  from th [THEN conjunct2, THEN conjunct1, rule_format, THEN conjunct1,
      of "\<lparr>res_Data = [], MultiStatus = []\<rparr>" "\<lparr>TxStatus = 0, MultiSign = [''sig'']\<rparr>"
         0]
  have c4: "SubmitReceipt decls0 client0 ''1356:chain1:0xdst'' 7 ''0xsrc'' 0
      \<lparr>res_Data = [], MultiStatus = []\<rparr> \<lparr>TxStatus = 0, MultiSign = [''sig'']\<rparr> idle
   = respond SubmitReceiptErr
       (invokeReceipt client0 ''0xsrc'' ''1356:chain1:0xdst'' 7 0 [] 0 [''sig''] idle)"
    by (simp add: decls0_def)
  from c1 c2 c3 c4 show ?thesis by blast
qed

text \<open>
  A receipt for the off-chain contract whose chain-ID query fails is routed to neither
  path, although its \<^verbatim>\<open>multiStatus\<close> is \<^verbatim>\<open>[true, false]\<close>: \<^verbatim>\<open>SubmitReceipt\<close> returns the
  error of the query and submits nothing.
\<close>

theorem SubmitReceipt_routing_counterexample:
  "SubmitReceipt decls0 client0 ''1356:chain1:0xdst'' 7 ''0xOFF'' 0
      \<lparr>res_Data = [[''ok''], [''failed'']], MultiStatus = [True, False]\<rparr>
      \<lparr>TxStatus = 0, MultiSign = [''sig'']\<rparr> idle
   = Some (Return (None, Some ''timeout''),
           idle\<lparr>trace := [GetChainIDQuery Relayed (Inl ''timeout'')]\<rparr>)"
  by (simp add: SubmitReceipt_def SubmitReceipt_offChain_def GetChainID_def EqualFold_def
      to_lower_def client0_def idle_def)

section \<open>Reassembly of off-chain data\<close>

lemma shardLoop_exit:
  "\<not> i \<le> resp_ShardSize response \<Longrightarrow> shardLoop d response mf i fs = Some (None, fs)"
  by (subst shardLoop.simps) simp

lemma shardLoop_body:
  "i \<le> resp_ShardSize response \<Longrightarrow> shardLoop d response mf i fs =
     (case os_Open (shardPath d response i) fs of
           (Some err, fs1) \<Rightarrow> Some (Some err, fs1)
         | (None, fs1) \<Rightarrow>
             (case ioutil_ReadAll (shardPath d response i) fs1 of
                (Inl err, fs2) \<Rightarrow> Some (Some err, fs2)
              | (Inr data, fs2) \<Rightarrow>
                  (case file_Write mf data fs2 of
                     (Some err, fs3) \<Rightarrow> Some (Some err, fs3)
                   | (None, fs3) \<Rightarrow> shardLoop d response mf (i + 1) fs3)))"
  by (subst shardLoop.simps) simp

lemma fileContent_trace [simp]: "fileContent (fs\<lparr>fs_trace := t\<rparr>) path = fileContent fs path"
  by (simp add: fileContent_def)

text \<open>One pass through the loop body stops at the first fault or has added one shard.\<close>

lemma body_cases:
  fixes d :: decls and response :: GetDataResponse and i :: u64 and fs :: filesys
    and mf :: string and K :: "filesys \<Rightarrow> (error option \<times> filesys) option"
  defines "body \<equiv>
     (case os_Open (shardPath d response i) fs of
           (Some err, fs1) \<Rightarrow> Some (Some err, fs1)
         | (None, fs1) \<Rightarrow>
             (case ioutil_ReadAll (shardPath d response i) fs1 of
                (Inl err, fs2) \<Rightarrow> Some (Some err, fs2)
              | (Inr data, fs2) \<Rightarrow>
                  (case file_Write mf data fs2 of
                     (Some err, fs3) \<Rightarrow> Some (Some err, fs3)
                   | (None, fs3) \<Rightarrow> K fs3)))"
  shows "(\<exists>err fs1 evs ev. body = Some (Some err, fs1)
            \<and> fs_trace fs1 = fs_trace fs @ evs @ [ev] \<and> ev_error ev = Some err
            \<and> (\<forall>e\<in>set evs. ev_error e = None))
       \<or> (\<exists>dat fs3. body = K fs3
            \<and> fs_trace fs3 = fs_trace fs @ shardOps d response mf i dat
            \<and> fileContent fs3 mf = fileContent fs mf @ dat
            \<and> files fs (shardPath d response i) = Some dat
            \<and> files fs3 = (files fs)(mf \<mapsto> fileContent fs mf @ dat))"
proof -
  let ?p = "shardPath d response i"
  obtain r1 fs1 where o: "os_Open ?p fs = (r1, fs1)" by (cases "os_Open ?p fs")
  then have t1: "fs_trace fs1 = fs_trace fs @ [Ev_Open ?p r1]" and f1: "files fs1 = files fs"
    and w1: "write_faults fs1 = write_faults fs"
    by (auto simp: os_Open_def Let_def)
  show ?thesis
  proof (cases r1)
    case (Some err)
    with o have "body = Some (Some err, fs1)" by (simp add: body_def)
    moreover have "fs_trace fs1 = fs_trace fs @ [] @ [Ev_Open ?p r1]" using t1 by simp
    moreover have "ev_error (Ev_Open ?p r1) = Some err" using Some by simp
    ultimately show ?thesis by (metis empty_iff list.set(1))
  next
    case None
    obtain r2 fs2 where r: "ioutil_ReadAll ?p fs1 = (r2, fs2)" by (cases "ioutil_ReadAll ?p fs1")
    then have t2: "fs_trace fs2 = fs_trace fs1 @ [Ev_ReadAll ?p r2]" and f2: "files fs2 = files fs1"
      and w2: "write_faults fs2 = write_faults fs1"
      by (auto simp: ioutil_ReadAll_def Let_def)
    show ?thesis
    proof (cases r2)
      case (Inl err)
      with o None r have "body = Some (Some err, fs2)" by (simp add: body_def)
      moreover have "fs_trace fs2 = fs_trace fs @ [Ev_Open ?p None] @ [Ev_ReadAll ?p r2]"
        using t1 t2 None by simp
      moreover have "ev_error (Ev_ReadAll ?p r2) = Some err" using Inl by simp
      moreover have "\<forall>e\<in>set [Ev_Open ?p None]. ev_error e = None" by simp
      ultimately show ?thesis by blast
    next
      case (Inr dat)
      obtain r3 fs3 where w: "file_Write mf dat fs2 = (r3, fs3)" by (cases "file_Write mf dat fs2")
      then have t3: "fs_trace fs3 = fs_trace fs2 @ [Ev_Write mf dat r3]"
        by (auto simp: file_Write_def split: option.splits)
      have c2: "fileContent fs2 mf = fileContent fs mf" using f1 f2 by (simp add: fileContent_def)
      show ?thesis
      proof (cases r3)
        case (Some err)
        with o None r Inr w have "body = Some (Some err, fs3)" by (simp add: body_def)
        moreover have "fs_trace fs3 = fs_trace fs @ [Ev_Open ?p None, Ev_ReadAll ?p (Inr dat)]
                          @ [Ev_Write mf dat r3]"
          using t1 t2 t3 None Inr by simp
        moreover have "ev_error (Ev_Write mf dat r3) = Some err" using Some by simp
        moreover have "\<forall>e\<in>set [Ev_Open ?p None, Ev_ReadAll ?p (Inr dat)]. ev_error e = None"
          by simp
        ultimately show ?thesis by blast
      next
        case n3: None
        with o None r Inr w have "body = K fs3" by (simp add: body_def)
        moreover have "fs_trace fs3 = fs_trace fs @ shardOps d response mf i dat"
          using t1 t2 t3 None Inr n3 by (simp add: shardOps_def)
        moreover have "fileContent fs3 mf = fileContent fs mf @ dat"
          using w n3 c2 by (auto simp: file_Write_def fileContent_def split: option.splits)
        moreover have "files fs ?p = Some dat"
          using r Inr f1 by (auto simp: ioutil_ReadAll_def Let_def split: option.splits)
        moreover have "files fs3 = (files fs)(mf \<mapsto> fileContent fs mf @ dat)"
          using w n3 c2 f1 f2 by (auto simp: file_Write_def split: option.splits)
        ultimately show ?thesis by blast
      qed
    qed
  qed
qed

lemma shardOps_no_error: "\<forall>e\<in>set (shardOps d response mf i dat). ev_error e = None"
  by (simp add: shardOps_def)

lemma shardLoop_runs:
  assumes "unat i + k = Suc (unat (resp_ShardSize response))"
    and "resp_ShardSize response + 1 \<noteq> 0"
  shows "\<exists>r fs'. shardLoop d response mf i fs = Some (r, fs')
           \<and> (r = None \<longrightarrow>
                (\<exists>ds. length ds = k \<and> fs_trace fs' = fs_trace fs @ shardTrace d response mf i ds
                   \<and> fileContent fs' mf = fileContent fs mf @ concat ds))
           \<and> (\<forall>err. r = Some err \<longrightarrow>
                (\<exists>evs ev. fs_trace fs' = fs_trace fs @ evs @ [ev] \<and> ev_error ev = Some err
                   \<and> (\<forall>e\<in>set evs. ev_error e = None)))"
  using assms(1)
proof (induction k arbitrary: i fs)
  case 0
  then have "\<not> i \<le> resp_ShardSize response" by (simp add: word_le_nat_alt)
  then have "shardLoop d response mf i fs = Some (None, fs)" by (rule shardLoop_exit)
  then show ?case by simp
next
  case (Suc k)
  then have le: "i \<le> resp_ShardSize response" by (simp add: word_le_nat_alt)
  have "resp_ShardSize response \<noteq> - 1" using assms(2) by auto
  with le have "i \<noteq> - 1"
    using word_n1_ge [of "resp_ShardSize response"] by (metis order_antisym)
  then have "1 + i \<noteq> 0" by (simp add: add_eq_0_iff)
  then have "unat (i + 1) = Suc (unat i)" using unatSuc [of i] by (simp add: add.commute)
  with Suc.prems have next_i: "unat (i + 1) + k = Suc (unat (resp_ShardSize response))" by simp
  note body = body_cases [where d = d and response = response and i = i and fs = fs
      and mf = mf and K = "shardLoop d response mf (i + 1)",
      folded shardLoop_body [OF le, of d mf fs]]
  from body show ?case
  proof (elim disjE exE conjE)
    fix err fs1 evs ev
    assume "shardLoop d response mf i fs = Some (Some err, fs1)"
      "fs_trace fs1 = fs_trace fs @ evs @ [ev]" "ev_error ev = Some err"
      "\<forall>e\<in>set evs. ev_error e = None"
    then show ?thesis by auto
  next
    fix dat fs3
    assume st: "shardLoop d response mf i fs = shardLoop d response mf (i + 1) fs3"
      and tr: "fs_trace fs3 = fs_trace fs @ shardOps d response mf i dat"
      and co: "fileContent fs3 mf = fileContent fs mf @ dat"
    from Suc.IH [OF next_i, of fs3] obtain r fs' where
      run: "shardLoop d response mf (i + 1) fs3 = Some (r, fs')"
      and ok: "r = None \<longrightarrow>
                (\<exists>ds. length ds = k \<and> fs_trace fs' = fs_trace fs3 @ shardTrace d response mf (i + 1) ds
                   \<and> fileContent fs' mf = fileContent fs3 mf @ concat ds)"
      and bad: "\<forall>err. r = Some err \<longrightarrow>
                (\<exists>evs ev. fs_trace fs' = fs_trace fs3 @ evs @ [ev] \<and> ev_error ev = Some err
                   \<and> (\<forall>e\<in>set evs. ev_error e = None))"
      by blast
    have "\<exists>ds. length ds = Suc k \<and> fs_trace fs' = fs_trace fs @ shardTrace d response mf i ds
                   \<and> fileContent fs' mf = fileContent fs mf @ concat ds" if "r = None"
    proof -
      from ok that obtain ds where ds: "length ds = k"
        "fs_trace fs' = fs_trace fs3 @ shardTrace d response mf (i + 1) ds"
        "fileContent fs' mf = fileContent fs3 mf @ concat ds" by blast
      with tr co show ?thesis by (intro exI [of _ "dat # ds"]) simp
    qed
    moreover have "\<exists>evs ev. fs_trace fs' = fs_trace fs @ evs @ [ev] \<and> ev_error ev = Some err
                   \<and> (\<forall>e\<in>set evs. ev_error e = None)" if "r = Some err" for err
    proof -
      from bad that obtain evs ev where e: "fs_trace fs' = fs_trace fs3 @ evs @ [ev]"
        "ev_error ev = Some err" "\<forall>e\<in>set evs. ev_error e = None" by blast
      with tr shardOps_no_error [of d response mf i dat] show ?thesis
        by (intro exI [of _ "shardOps d response mf i dat @ evs"] exI [of _ ev]) auto
    qed
    ultimately show ?thesis using st run by auto
  qed
qed


lemma shardLoop_returns:
  assumes ret: "shardLoop d response mf i fs = Some (r, fs')"
  shows "(\<forall>err. r = Some err \<longrightarrow>
            (\<exists>evs ev. fs_trace fs' = fs_trace fs @ evs @ [ev] \<and> ev_error ev = Some err
               \<and> (\<forall>e\<in>set evs. ev_error e = None)))
       \<and> (resp_ShardSize response + 1 = 0 \<longrightarrow> r \<noteq> None)"
proof -
  let ?P = "\<lambda>d' response' mf' (i :: u64) fs y. d' = d \<and> response' = response \<and> mf' = mf \<longrightarrow>
      (\<forall>err. fst y = Some err \<longrightarrow>
            (\<exists>evs ev. fs_trace (snd y) = fs_trace fs @ evs @ [ev] \<and> ev_error ev = Some err
               \<and> (\<forall>e\<in>set evs. ev_error e = None)))
       \<and> (resp_ShardSize response + 1 = 0 \<longrightarrow> fst y \<noteq> None)"
  have "?P d response mf i fs (r, fs')"
  proof (rule shardLoop.raw_induct [where P = ?P, OF _ ret])
    fix loop d' response' mf' i fs y
    assume IH: "\<And>a b c e f y. loop a b c e f = Some y \<Longrightarrow> ?P a b c e f y"
      and body: "(if i \<le> resp_ShardSize response' then
        (case os_Open (shardPath d' response' i) fs of
           (None, fs1) \<Rightarrow>
             (case ioutil_ReadAll (shardPath d' response' i) fs1 of
                (Inl err, fs2) \<Rightarrow> Some (Some err, fs2)
              | (Inr data, fs2) \<Rightarrow>
                  (case file_Write mf' data fs2 of
                     (None, fs3) \<Rightarrow> loop d' response' mf' (i + 1) fs3
                   | (Some err, fs3) \<Rightarrow> Some (Some err, fs3)))
         | (Some err, fs1) \<Rightarrow> Some (Some err, fs1))
        else Some (None, fs)) = Some y"
    show "?P d' response' mf' i fs y"
    proof (intro impI)
      assume eq: "d' = d \<and> response' = response \<and> mf' = mf"
      show "(\<forall>err. fst y = Some err \<longrightarrow>
            (\<exists>evs ev. fs_trace (snd y) = fs_trace fs @ evs @ [ev] \<and> ev_error ev = Some err
               \<and> (\<forall>e\<in>set evs. ev_error e = None)))
       \<and> (resp_ShardSize response + 1 = 0 \<longrightarrow> fst y \<noteq> None)"
      proof (cases "i \<le> resp_ShardSize response")
        case False
        with body eq have y: "y = (None, fs)" by simp
        have "resp_ShardSize response + 1 \<noteq> 0"
        proof
          assume "resp_ShardSize response + 1 = 0"
          then have "resp_ShardSize response = - 1" by (simp add: add_eq_0_iff2)
          with False word_n1_ge [of i] show False by simp
        qed
        with y show ?thesis by simp
      next
        case True
        note cases = body_cases [where d = d and response = response and i = i and fs = fs
            and mf = mf and K = "loop d response mf (i + 1)"]
        from eq have eqs: "d' = d" "response' = response" "mf' = mf" by simp_all
        from body True have b: "(case os_Open (shardPath d response i) fs of
           (None, fs1) \<Rightarrow>
             (case ioutil_ReadAll (shardPath d response i) fs1 of
                (Inl err, fs2) \<Rightarrow> Some (Some err, fs2)
              | (Inr data, fs2) \<Rightarrow>
                  (case file_Write mf data fs2 of
                     (None, fs3) \<Rightarrow> loop d response mf (i + 1) fs3
                   | (Some err, fs3) \<Rightarrow> Some (Some err, fs3)))
         | (Some err, fs1) \<Rightarrow> Some (Some err, fs1)) = Some y"
          unfolding eqs by simp
        from cases show ?thesis
        proof (elim disjE exE conjE)
          fix err fs1 evs ev
          assume "(case os_Open (shardPath d response i) fs of
           (None, fs1) \<Rightarrow>
             (case ioutil_ReadAll (shardPath d response i) fs1 of
                (Inl err, fs2) \<Rightarrow> Some (Some err, fs2)
              | (Inr data, fs2) \<Rightarrow>
                  (case file_Write mf data fs2 of
                     (None, fs3) \<Rightarrow> loop d response mf (i + 1) fs3
                   | (Some err, fs3) \<Rightarrow> Some (Some err, fs3)))
         | (Some err, fs1) \<Rightarrow> Some (Some err, fs1)) = Some (Some err, fs1)"
            "fs_trace fs1 = fs_trace fs @ evs @ [ev]" "ev_error ev = Some err"
            "\<forall>e\<in>set evs. ev_error e = None"
          with b show ?thesis by auto
        next
          fix dat fs3
          assume k: "(case os_Open (shardPath d response i) fs of
           (None, fs1) \<Rightarrow>
             (case ioutil_ReadAll (shardPath d response i) fs1 of
                (Inl err, fs2) \<Rightarrow> Some (Some err, fs2)
              | (Inr data, fs2) \<Rightarrow>
                  (case file_Write mf data fs2 of
                     (None, fs3) \<Rightarrow> loop d response mf (i + 1) fs3
                   | (Some err, fs3) \<Rightarrow> Some (Some err, fs3)))
         | (Some err, fs1) \<Rightarrow> Some (Some err, fs1)) = loop d response mf (i + 1) fs3"
            and tr: "fs_trace fs3 = fs_trace fs @ shardOps d response mf i dat"
          from k b have "loop d response mf (i + 1) fs3 = Some y" by simp
          from IH [OF this] have
            bad: "\<forall>err. fst y = Some err \<longrightarrow>
              (\<exists>evs ev. fs_trace (snd y) = fs_trace fs3 @ evs @ [ev] \<and> ev_error ev = Some err
                 \<and> (\<forall>e\<in>set evs. ev_error e = None))"
            and mx: "resp_ShardSize response + 1 = 0 \<longrightarrow> fst y \<noteq> None"
            by simp_all
          have "\<exists>evs ev. fs_trace (snd y) = fs_trace fs @ evs @ [ev] \<and> ev_error ev = Some err
                 \<and> (\<forall>e\<in>set evs. ev_error e = None)" if "fst y = Some err" for err
          proof -
            from bad that obtain evs ev where e: "fs_trace (snd y) = fs_trace fs3 @ evs @ [ev]"
              "ev_error ev = Some err" "\<forall>e\<in>set evs. ev_error e = None" by blast
            with tr shardOps_no_error [of d response mf i dat] show ?thesis
              by (intro exI [of _ "shardOps d response mf i dat @ evs"] exI [of _ ev]) auto
          qed
          with mx show ?thesis by blast
        qed
      qed
    qed
  qed
  then show ?thesis by simp
qed

lemma os_OpenFile_ok:
  assumes "os_OpenFile path fs = (None, fs1)"
  shows "fs_trace fs1 = fs_trace fs @ [Ev_OpenFile path None]"
    and "fileContent fs1 path = fileContent fs path"
  using assms by (auto simp: os_OpenFile_def fileContent_def split: option.splits)

lemma os_OpenFile_fault:
  assumes "os_OpenFile path fs = (Some err, fs1)"
  shows "fs_trace fs1 = fs_trace fs @ [Ev_OpenFile path (Some err)]"
  using assms by (auto simp: os_OpenFile_def split: option.splits)

lemma unat_one_plus: "unat (1 :: u64) + unat N = Suc (unat N)" for N :: u64
  by simp

lemma word_next:
  fixes i N :: u64
  assumes "i \<le> N" and "N + 1 \<noteq> 0"
  shows "unat (i + 1) = Suc (unat i)"
proof -
  have "N \<noteq> - 1" using assms(2) by auto
  with assms(1) have "i \<noteq> - 1" using word_n1_ge [of N] by (metis order_antisym)
  then have "1 + i \<noteq> 0" by (simp add: add_eq_0_iff)
  then show ?thesis using unatSuc [of i] by (simp add: add.commute)
qed

text \<open>
  A run that returns nil has read every shard; a shard file other than the output file
  held the bytes read from it before the call.
\<close>

lemma shardLoop_reads:
  assumes "unat i + k = Suc (unat (resp_ShardSize response))"
    and "resp_ShardSize response + 1 \<noteq> 0"
    and "shardLoop d response mf i fs = Some (None, fs')"
  shows "\<exists>ds. length ds = k \<and> fs_trace fs' = fs_trace fs @ shardTrace d response mf i ds
           \<and> fileContent fs' mf = fileContent fs mf @ concat ds
           \<and> (\<forall>j<k. shardPath d response (i + of_nat j) \<noteq> mf \<longrightarrow>
                  files fs (shardPath d response (i + of_nat j)) = Some (ds ! j))"
  using assms(1,3)
proof (induction k arbitrary: i fs)
  case 0
  then have "\<not> i \<le> resp_ShardSize response" by (simp add: word_le_nat_alt)
  then have "shardLoop d response mf i fs = Some (None, fs)" by (rule shardLoop_exit)
  with "0.prems"(2) show ?case by simp
next
  case (Suc k)
  then have le: "i \<le> resp_ShardSize response" by (simp add: word_le_nat_alt)
  from word_next [OF le assms(2)] Suc.prems(1)
  have next_i: "unat (i + 1) + k = Suc (unat (resp_ShardSize response))" by simp
  note body = body_cases [where d = d and response = response and i = i and fs = fs
      and mf = mf and K = "shardLoop d response mf (i + 1)",
      folded shardLoop_body [OF le, of d mf fs]]
  from body show ?case
  proof (elim disjE exE conjE)
    fix err fs1 evs ev
    assume "shardLoop d response mf i fs = Some (Some err, fs1)"
    with Suc.prems(2) show ?thesis by simp
  next
    fix dat fs3
    assume st: "shardLoop d response mf i fs = shardLoop d response mf (i + 1) fs3"
      and tr: "fs_trace fs3 = fs_trace fs @ shardOps d response mf i dat"
      and co: "fileContent fs3 mf = fileContent fs mf @ dat"
      and rd: "files fs (shardPath d response i) = Some dat"
      and fi: "files fs3 = (files fs)(mf \<mapsto> fileContent fs mf @ dat)"
    from st Suc.prems(2) have "shardLoop d response mf (i + 1) fs3 = Some (None, fs')" by simp
    from Suc.IH [OF next_i this] obtain ds where ds: "length ds = k"
      "fs_trace fs' = fs_trace fs3 @ shardTrace d response mf (i + 1) ds"
      "fileContent fs' mf = fileContent fs3 mf @ concat ds"
      "\<forall>j<k. shardPath d response (i + 1 + of_nat j) \<noteq> mf \<longrightarrow>
                  files fs3 (shardPath d response (i + 1 + of_nat j)) = Some (ds ! j)"
      by blast
    have "shardPath d response (i + of_nat j) \<noteq> mf \<longrightarrow>
            files fs (shardPath d response (i + of_nat j)) = Some ((dat # ds) ! j)"
      if "j < Suc k" for j
    proof (cases j)
      case 0
      with rd show ?thesis by simp
    next
      case (Suc j')
      with that have "j' < k" by simp
      with ds(4) have "shardPath d response (i + 1 + of_nat j') \<noteq> mf \<longrightarrow>
                  files fs3 (shardPath d response (i + 1 + of_nat j')) = Some (ds ! j')" by blast
      moreover have "i + of_nat j = i + 1 + of_nat j'" using Suc by simp
      ultimately show ?thesis using fi Suc by (simp add: add.assoc)
    qed
    with ds(1,2,3) tr co show ?thesis by (intro exI [of _ "dat # ds"]) simp
  qed
qed

text \<open>One pass through the loop body without a fault, and a whole run without one.\<close>

lemma shard_round:
  assumes "open_fault fs p = None" and "readAll_fault fs p = None" and "files fs p = Some dat"
    and "shd (write_faults fs) = None"
  shows "(case os_Open p fs of
           (Some err, fs1) \<Rightarrow> Some (Some err, fs1)
         | (None, fs1) \<Rightarrow>
             (case ioutil_ReadAll p fs1 of
                (Inl err, fs2) \<Rightarrow> Some (Some err, fs2)
              | (Inr data, fs2) \<Rightarrow>
                  (case file_Write mf data fs2 of
                     (Some err, fs3) \<Rightarrow> Some (Some err, fs3)
                   | (None, fs3) \<Rightarrow> K fs3)))
       = K (fs\<lparr>files := (files fs)(mf \<mapsto> fileContent fs mf @ dat),
                write_faults := stl (write_faults fs),
                fs_trace := fs_trace fs @ [Ev_Open p None, Ev_ReadAll p (Inr dat),
                                           Ev_Write mf dat None]\<rparr>)"
  using assms by (simp add: os_Open_def ioutil_ReadAll_def file_Write_def Let_def fileContent_def)

lemma shardLoop_fault_free:
  assumes "unat i + length ds = Suc (unat (resp_ShardSize response))"
    and "resp_ShardSize response + 1 \<noteq> 0"
    and "files fs mf = Some old"
    and "\<forall>j<length ds. shardPath d response (i + of_nat j) \<noteq> mf
            \<and> open_fault fs (shardPath d response (i + of_nat j)) = None
            \<and> readAll_fault fs (shardPath d response (i + of_nat j)) = None
            \<and> files fs (shardPath d response (i + of_nat j)) = Some (ds ! j)"
    and "stake (length ds) (write_faults fs) = replicate (length ds) None"
  shows "shardLoop d response mf i fs =
           Some (None, fs\<lparr>files := (files fs)(mf \<mapsto> old @ concat ds),
                          write_faults := sdrop (length ds) (write_faults fs),
                          fs_trace := fs_trace fs @ shardTrace d response mf i ds\<rparr>)"
  using assms(1,3,4,5)
proof (induction ds arbitrary: i fs old)
  case Nil
  then have "\<not> i \<le> resp_ShardSize response" by (simp add: word_le_nat_alt)
  then have "shardLoop d response mf i fs = Some (None, fs)" by (rule shardLoop_exit)
  moreover from Nil.prems(2) have "(files fs)(mf \<mapsto> old) = files fs" by (simp add: fun_upd_idem)
  ultimately show ?case by simp
next
  case (Cons dat ds)
  then have le: "i \<le> resp_ShardSize response" by (simp add: word_le_nat_alt)
  from word_next [OF le assms(2)] Cons.prems(1)
  have next_i: "unat (i + 1) + length ds = Suc (unat (resp_ShardSize response))" by simp
  let ?p = "shardPath d response i"
  let ?fs3 = "fs\<lparr>files := (files fs)(mf \<mapsto> fileContent fs mf @ dat),
                write_faults := stl (write_faults fs),
                fs_trace := fs_trace fs @ [Ev_Open ?p None, Ev_ReadAll ?p (Inr dat),
                                           Ev_Write mf dat None]\<rparr>"
  from Cons.prems(3) [rule_format, of 0]
  have p0: "open_fault fs ?p = None" "readAll_fault fs ?p = None" "files fs ?p = Some dat"
    by simp_all
  from Cons.prems(4) have w0: "shd (write_faults fs) = None"
    and ws: "stake (length ds) (write_faults ?fs3) = replicate (length ds) None"
    by simp_all
  have old: "fileContent fs mf = old" using Cons.prems(2) by (simp add: fileContent_def)
  have step: "shardLoop d response mf i fs = shardLoop d response mf (i + 1) ?fs3"
    unfolding shardLoop_body [OF le, of d mf fs]
    by (rule shard_round [OF p0 w0])
  have f3: "files ?fs3 mf = Some (old @ dat)" using old by simp
  have rest: "\<forall>j<length ds. shardPath d response (i + 1 + of_nat j) \<noteq> mf
            \<and> open_fault ?fs3 (shardPath d response (i + 1 + of_nat j)) = None
            \<and> readAll_fault ?fs3 (shardPath d response (i + 1 + of_nat j)) = None
            \<and> files ?fs3 (shardPath d response (i + 1 + of_nat j)) = Some (ds ! j)"
  proof (intro allI impI)
    fix j assume "j < length ds"
    then have "Suc j < length (dat # ds)" by simp
    from Cons.prems(3) [rule_format, OF this]
    show "shardPath d response (i + 1 + of_nat j) \<noteq> mf
            \<and> open_fault ?fs3 (shardPath d response (i + 1 + of_nat j)) = None
            \<and> readAll_fault ?fs3 (shardPath d response (i + 1 + of_nat j)) = None
            \<and> files ?fs3 (shardPath d response (i + 1 + of_nat j)) = Some (ds ! j)"
      by (simp add: add.assoc)
  qed
  have twice: "(\<lambda>a. if a = mf then X else if a = mf then Y else f a)
                 = (\<lambda>a. if a = mf then X else f a)" for X Y :: "bytes option" and f
    by auto
  from Cons.IH [OF next_i f3 rest ws] step old show ?case
    by (simp add: shardOps_def twice)
qed

text \<open>
  C7 (amended). Take a response with the success outcome; \<open>mf\<close> is the output file, named
  by the configured directory, the response message and the current time, and opened for
  appending. Let the shard size \<open>N\<close> be below the largest \<^verbatim>\<open>uint64\<close>.

  \<^item> If the output file can be opened, the shard files 1, ..., \<open>N\<close>, named by
    \<^verbatim>\<open>(from, to, index, shard number, shard size)\<close>, exist, are other files than the
    output file and hold the bytes \<open>ds\<close>, and no operation fails, then
    \<^verbatim>\<open>SubmitOffChainData\<close> returns nil, and it has opened the output file and then, for
    the shards 1, ..., \<open>N\<close> in this order, opened the shard file, read it and appended
    its bytes to the output file, and nothing else: the output file is what it was
    before, followed by the concatenation of the \<open>N\<close> shards. A new output file is
    exactly that concatenation.
  \<^item> The call returns.
  \<^item> Whenever it returns nil, it has done exactly these operations, and every shard file
    other than the output file held the bytes that were appended for it.
  \<^item> Whenever it returns an error, that is the error of the last file operation it
    performed, and no earlier operation had failed: the first fault ends the reassembly.
\<close>

theorem SubmitOffChainData_reassembles:
  assumes "resp_Type response = GetDataResponse_DATA_GET_SUCCESS d"
    and "mf = savePath d c response fs"
  shows "(resp_ShardSize response + 1 \<noteq> 0
            \<and> openFile_fault fs mf = None
            \<and> length ds = unat (resp_ShardSize response)
            \<and> (\<forall>j<length ds.
                  shardPath d response (of_nat (Suc j)) \<noteq> mf
                  \<and> open_fault fs (shardPath d response (of_nat (Suc j))) = None
                  \<and> readAll_fault fs (shardPath d response (of_nat (Suc j))) = None
                  \<and> files fs (shardPath d response (of_nat (Suc j))) = Some (ds ! j))
            \<and> stake (length ds) (write_faults fs) = replicate (length ds) None
          \<longrightarrow> SubmitOffChainData d c response fs =
                Some (None, fs\<lparr>files := (files fs)(mf \<mapsto> fileContent fs mf @ concat ds),
                               write_faults := sdrop (length ds) (write_faults fs),
                               fs_trace := fs_trace fs @ Ev_OpenFile mf None
                                             # shardTrace d response mf 1 ds\<rparr>))
       \<and> (resp_ShardSize response + 1 \<noteq> 0 \<longrightarrow>
            (\<exists>r fs'. SubmitOffChainData d c response fs = Some (r, fs')))
       \<and> (\<forall>fs'. SubmitOffChainData d c response fs = Some (None, fs') \<longrightarrow>
            (\<exists>ds. length ds = unat (resp_ShardSize response)
               \<and> (\<forall>j<length ds. shardPath d response (of_nat (Suc j)) \<noteq> mf \<longrightarrow>
                      files fs (shardPath d response (of_nat (Suc j))) = Some (ds ! j))
               \<and> fs_trace fs' = fs_trace fs @ Ev_OpenFile mf None # shardTrace d response mf 1 ds
               \<and> fileContent fs' mf = fileContent fs mf @ concat ds
               \<and> (files fs mf = None \<longrightarrow> fileContent fs' mf = concat ds)))
       \<and> (\<forall>err fs'. SubmitOffChainData d c response fs = Some (Some err, fs') \<longrightarrow>
            (\<exists>evs ev. fs_trace fs' = fs_trace fs @ evs @ [ev] \<and> ev_error ev = Some err
               \<and> (\<forall>e\<in>set evs. ev_error e = None)))"
proof -
  obtain r1 fs1 where o: "os_OpenFile mf fs = (r1, fs1)" by (cases "os_OpenFile mf fs")
  have exact: "SubmitOffChainData d c response fs =
                Some (None, fs\<lparr>files := (files fs)(mf \<mapsto> fileContent fs mf @ concat ds),
                               write_faults := sdrop (length ds) (write_faults fs),
                               fs_trace := fs_trace fs @ Ev_OpenFile mf None
                                             # shardTrace d response mf 1 ds\<rparr>)"
    if nm: "resp_ShardSize response + 1 \<noteq> 0" and nf: "openFile_fault fs mf = None"
      and len: "length ds = unat (resp_ShardSize response)"
      and sh: "\<forall>j<length ds.
                  shardPath d response (of_nat (Suc j)) \<noteq> mf
                  \<and> open_fault fs (shardPath d response (of_nat (Suc j))) = None
                  \<and> readAll_fault fs (shardPath d response (of_nat (Suc j))) = None
                  \<and> files fs (shardPath d response (of_nat (Suc j))) = Some (ds ! j)"
      and wr: "stake (length ds) (write_faults fs) = replicate (length ds) None"
  proof -
    let ?fs1 = "fs\<lparr>files := (files fs)(mf \<mapsto> fileContent fs mf),
                    fs_trace := fs_trace fs @ [Ev_OpenFile mf None]\<rparr>"
    from nf have op: "os_OpenFile mf fs = (None, ?fs1)" by (simp add: os_OpenFile_def)
    with assms have res: "SubmitOffChainData d c response fs = shardLoop d response mf 1 ?fs1"
      by (simp add: SubmitOffChainData_def)
    have n: "unat (1 :: u64) + length ds = Suc (unat (resp_ShardSize response))"
      using len by simp
    have f1: "files ?fs1 mf = Some (fileContent fs mf)" by simp
    have sh1: "\<forall>j<length ds. shardPath d response (1 + of_nat j) \<noteq> mf
            \<and> open_fault ?fs1 (shardPath d response (1 + of_nat j)) = None
            \<and> readAll_fault ?fs1 (shardPath d response (1 + of_nat j)) = None
            \<and> files ?fs1 (shardPath d response (1 + of_nat j)) = Some (ds ! j)"
      using sh by simp
    have wr1: "stake (length ds) (write_faults ?fs1) = replicate (length ds) None"
      using wr by simp
    have twice: "(\<lambda>a. if a = mf then X else if a = mf then Y else f a)
                 = (\<lambda>a. if a = mf then X else f a)" for X Y :: "bytes option" and f
      by auto
    from shardLoop_fault_free [OF n nm f1 sh1 wr1] res show ?thesis
      by (simp add: twice)
  qed
  have rest: "(resp_ShardSize response + 1 \<noteq> 0 \<longrightarrow>
            (\<exists>r fs'. SubmitOffChainData d c response fs = Some (r, fs')))
       \<and> (\<forall>fs'. SubmitOffChainData d c response fs = Some (None, fs') \<longrightarrow>
            (\<exists>ds. length ds = unat (resp_ShardSize response)
               \<and> (\<forall>j<length ds. shardPath d response (of_nat (Suc j)) \<noteq> mf \<longrightarrow>
                      files fs (shardPath d response (of_nat (Suc j))) = Some (ds ! j))
               \<and> fs_trace fs' = fs_trace fs @ Ev_OpenFile mf None # shardTrace d response mf 1 ds
               \<and> fileContent fs' mf = fileContent fs mf @ concat ds
               \<and> (files fs mf = None \<longrightarrow> fileContent fs' mf = concat ds)))
       \<and> (\<forall>err fs'. SubmitOffChainData d c response fs = Some (Some err, fs') \<longrightarrow>
            (\<exists>evs ev. fs_trace fs' = fs_trace fs @ evs @ [ev] \<and> ev_error ev = Some err
               \<and> (\<forall>e\<in>set evs. ev_error e = None)))"
  proof (cases r1)
    case (Some e)
    with o assms have res: "SubmitOffChainData d c response fs = Some (Some e, fs1)"
      by (simp add: SubmitOffChainData_def)
    have "fs_trace fs1 = fs_trace fs @ [] @ [Ev_OpenFile mf (Some e)]"
      using os_OpenFile_fault [of mf fs e fs1] o Some by simp
    moreover have "ev_error (Ev_OpenFile mf (Some e)) = Some e" by simp
    ultimately have "\<exists>evs ev. fs_trace fs1 = fs_trace fs @ evs @ [ev] \<and> ev_error ev = Some e
               \<and> (\<forall>x\<in>set evs. ev_error x = None)"
      by (metis empty_iff list.set(1))
    with res show ?thesis by auto
  next
    case None
    with o assms have res: "SubmitOffChainData d c response fs = shardLoop d response mf 1 fs1"
      by (simp add: SubmitOffChainData_def)
    from o None have t1: "fs_trace fs1 = fs_trace fs @ [Ev_OpenFile mf None]"
      and c1: "fileContent fs1 mf = fileContent fs mf"
      by (simp_all add: os_OpenFile_ok)
    from o None have files1: "files fs1 = (files fs)(mf \<mapsto> fileContent fs mf)"
      by (auto simp: os_OpenFile_def split: option.splits)
    have returns: "\<exists>r fs'. SubmitOffChainData d c response fs = Some (r, fs')"
      if "resp_ShardSize response + 1 \<noteq> 0"
      using shardLoop_runs [OF unat_one_plus that, of d mf fs1] res by auto
    have good: "\<exists>ds. length ds = unat (resp_ShardSize response)
               \<and> (\<forall>j<length ds. shardPath d response (of_nat (Suc j)) \<noteq> mf \<longrightarrow>
                      files fs (shardPath d response (of_nat (Suc j))) = Some (ds ! j))
               \<and> fs_trace fs' = fs_trace fs @ Ev_OpenFile mf None # shardTrace d response mf 1 ds
               \<and> fileContent fs' mf = fileContent fs mf @ concat ds
               \<and> (files fs mf = None \<longrightarrow> fileContent fs' mf = concat ds)"
      if ok: "SubmitOffChainData d c response fs = Some (None, fs')" for fs'
    proof -
      from ok res have run: "shardLoop d response mf 1 fs1 = Some (None, fs')" by simp
      from shardLoop_returns [OF run] have nm: "resp_ShardSize response + 1 \<noteq> 0" by auto
      from shardLoop_reads [OF unat_one_plus nm run]
      obtain ds where ds: "length ds = unat (resp_ShardSize response)"
        "fs_trace fs' = fs_trace fs1 @ shardTrace d response mf 1 ds"
        "fileContent fs' mf = fileContent fs1 mf @ concat ds"
        "\<forall>j<unat (resp_ShardSize response). shardPath d response (1 + of_nat j) \<noteq> mf \<longrightarrow>
                  files fs1 (shardPath d response (1 + of_nat j)) = Some (ds ! j)"
        by blast
      from ds(1,4) files1
      have "\<forall>j<length ds. shardPath d response (of_nat (Suc j)) \<noteq> mf \<longrightarrow>
                      files fs (shardPath d response (of_nat (Suc j))) = Some (ds ! j)"
        by simp
      moreover have "files fs mf = None \<longrightarrow> fileContent fs' mf = concat ds"
        using ds(3) c1 by (simp add: fileContent_def)
      ultimately show ?thesis using ds(1,2,3) t1 c1 by auto
    qed
    have bad: "\<exists>evs ev. fs_trace fs' = fs_trace fs @ evs @ [ev] \<and> ev_error ev = Some err
               \<and> (\<forall>e\<in>set evs. ev_error e = None)"
      if ko: "SubmitOffChainData d c response fs = Some (Some err, fs')" for err fs'
    proof -
      from ko res have run: "shardLoop d response mf 1 fs1 = Some (Some err, fs')" by simp
      from shardLoop_returns [OF run] obtain evs ev where
        "fs_trace fs' = fs_trace fs1 @ evs @ [ev]" "ev_error ev = Some err"
        "\<forall>e\<in>set evs. ev_error e = None" by auto
      with t1 show ?thesis
        by (intro exI [of _ "Ev_OpenFile mf None # evs"] exI [of _ ev]) auto
    qed
    from returns good bad show ?thesis by blast
  qed
  from exact rest show ?thesis by blast
qed

theorem SubmitOffChainData_reassembles_witness:
  "resp_Type response0 = GetDataResponse_DATA_GET_SUCCESS decls0
   \<and> SubmitOffChainData decls0 client0 response0 disk0 =
       Some (None,
         disk0\<lparr>files := (files disk0)(''/data/a-b-7-2021.10.01-12:00:00'' \<mapsto> ''hello world''),
               fs_trace :=
                 [Ev_OpenFile ''/data/a-b-7-2021.10.01-12:00:00'' None,
                  Ev_Open ''/in/a-b-7-1-2'' None,
                  Ev_ReadAll ''/in/a-b-7-1-2'' (Inr ''hello ''),
                  Ev_Write ''/data/a-b-7-2021.10.01-12:00:00'' ''hello '' None,
                  Ev_Open ''/in/a-b-7-2-2'' None,
                  Ev_ReadAll ''/in/a-b-7-2-2'' (Inr ''world''),
                  Ev_Write ''/data/a-b-7-2021.10.01-12:00:00'' ''world'' None]\<rparr>)
   \<and> (\<exists>ds. length ds = 2
         \<and> files disk0 ''/in/a-b-7-1-2'' = Some (ds ! 0)
         \<and> files disk0 ''/in/a-b-7-2-2'' = Some (ds ! 1)
         \<and> ''hello world'' = concat ds)
   \<and> (\<exists>r fs'. SubmitOffChainData decls0 client0 response0 disk0 = Some (r, fs'))
   \<and> SubmitOffChainData decls0 client0 (response0\<lparr>resp_ShardSize := 3\<rparr>) disk0 =
       Some (Some ''open /in/a-b-7-1-3: no such file or directory'',
             disk0\<lparr>files := (files disk0)(''/data/a-b-7-2021.10.01-12:00:00'' \<mapsto> []),
                   fs_trace :=
                     [Ev_OpenFile ''/data/a-b-7-2021.10.01-12:00:00'' None,
                      Ev_Open ''/in/a-b-7-1-3''
                        (Some ''open /in/a-b-7-1-3: no such file or directory'')]\<rparr>)
   \<and> (\<exists>evs ev.
         [Ev_OpenFile ''/data/a-b-7-2021.10.01-12:00:00'' None,
          Ev_Open ''/in/a-b-7-1-3'' (Some ''open /in/a-b-7-1-3: no such file or directory'')]
         = fs_trace disk0 @ evs @ [ev]
         \<and> ev_error ev = Some ''open /in/a-b-7-1-3: no such file or directory''
         \<and> list_all (\<lambda>e. ev_error e = None) evs)"
proof -
  let ?mf = "''/data/a-b-7-2021.10.01-12:00:00''"
  let ?out = "disk0\<lparr>files := (files disk0)(?mf \<mapsto> ''hello world''),
               fs_trace :=
                 [Ev_OpenFile ?mf None,
                  Ev_Open ''/in/a-b-7-1-2'' None,
                  Ev_ReadAll ''/in/a-b-7-1-2'' (Inr ''hello ''),
                  Ev_Write ?mf ''hello '' None,
                  Ev_Open ''/in/a-b-7-2-2'' None,
                  Ev_ReadAll ''/in/a-b-7-2-2'' (Inr ''world''),
                  Ev_Write ?mf ''world'' None]\<rparr>"
  have ty: "resp_Type response0 = GetDataResponse_DATA_GET_SUCCESS decls0"
    by (simp add: response0_def decls0_def)
  have mf: "?mf = savePath decls0 client0 response0 disk0"
    by (simp add: savePath_def decls0_def client0_def response0_def disk0_def)
  have p1: "shardPath decls0 response0 1 = ''/in/a-b-7-1-2''"
    by (simp add: shardPath_def shardName_def decimal.simps decls0_def response0_def)
  have p2: "shardPath decls0 response0 2 = ''/in/a-b-7-2-2''"
    by (simp add: shardPath_def shardName_def decimal.simps decls0_def response0_def)
  have n: "resp_ShardSize response0 = 2" by (simp add: response0_def)
  have two: "j = 0 \<or> j = Suc 0" if "j < length [''hello '', ''world'']" for j
    using that by auto
  have shards: "\<forall>j<length [''hello '', ''world''].
                  shardPath decls0 response0 (of_nat (Suc j)) \<noteq> ?mf
                  \<and> open_fault disk0 (shardPath decls0 response0 (of_nat (Suc j))) = None
                  \<and> readAll_fault disk0 (shardPath decls0 response0 (of_nat (Suc j))) = None
                  \<and> files disk0 (shardPath decls0 response0 (of_nat (Suc j)))
                      = Some ([''hello '', ''world''] ! j)"
  proof (intro allI impI)
    fix j assume "j < length [''hello '', ''world'']"
    from two [OF this] show "shardPath decls0 response0 (of_nat (Suc j)) \<noteq> ?mf
                  \<and> open_fault disk0 (shardPath decls0 response0 (of_nat (Suc j))) = None
                  \<and> readAll_fault disk0 (shardPath decls0 response0 (of_nat (Suc j))) = None
                  \<and> files disk0 (shardPath decls0 response0 (of_nat (Suc j)))
                      = Some ([''hello '', ''world''] ! j)"
      by (auto simp: p1 p2 disk0_def)
  qed
  have free: "resp_ShardSize response0 + 1 \<noteq> 0
            \<and> openFile_fault disk0 ?mf = None
            \<and> length [''hello '', ''world''] = unat (resp_ShardSize response0)
            \<and> (\<forall>j<length [''hello '', ''world''].
                  shardPath decls0 response0 (of_nat (Suc j)) \<noteq> ?mf
                  \<and> open_fault disk0 (shardPath decls0 response0 (of_nat (Suc j))) = None
                  \<and> readAll_fault disk0 (shardPath decls0 response0 (of_nat (Suc j))) = None
                  \<and> files disk0 (shardPath decls0 response0 (of_nat (Suc j)))
                      = Some ([''hello '', ''world''] ! j))
            \<and> stake (length [''hello '', ''world'']) (write_faults disk0)
                = replicate (length [''hello '', ''world'']) None"
  proof (intro conjI)
    show "resp_ShardSize response0 + 1 \<noteq> 0" by (simp add: n)
    show "openFile_fault disk0 ?mf = None" by (simp add: disk0_def)
    show "length [''hello '', ''world''] = unat (resp_ShardSize response0)" by (simp add: n)
    show "stake (length [''hello '', ''world'']) (write_faults disk0)
                = replicate (length [''hello '', ''world'']) None"
      by (simp add: disk0_def)
  qed (rule shards)
  from SubmitOffChainData_reassembles [OF ty mf, THEN conjunct1, rule_format, OF free]
  have run: "SubmitOffChainData decls0 client0 response0 disk0 = Some (None, ?out)"
    by (simp add: p1 p2 shardOps_def fileContent_def disk0_def)
  from SubmitOffChainData_reassembles [OF ty mf, THEN conjunct2, THEN conjunct2,
      THEN conjunct1, rule_format, OF run]
  obtain ds where ds: "length ds = unat (resp_ShardSize response0)"
    "\<forall>j<length ds. shardPath decls0 response0 (of_nat (Suc j)) \<noteq> ?mf \<longrightarrow>
        files disk0 (shardPath decls0 response0 (of_nat (Suc j))) = Some (ds ! j)"
    "fileContent ?out ?mf = fileContent disk0 ?mf @ concat ds"
    by blast
  from ds(1) have l2: "length ds = 2" by (simp add: n)
  from ds(2) [rule_format, of 0] l2 have d0: "files disk0 ''/in/a-b-7-1-2'' = Some (ds ! 0)"
    by (simp add: p1)
  from ds(2) [rule_format, of 1] l2 have d1: "files disk0 ''/in/a-b-7-2-2'' = Some (ds ! 1)"
    by (simp add: p2)
  from ds(3) have cat: "''hello world'' = concat ds"
    by (simp add: fileContent_def disk0_def)
  from l2 d0 d1 cat have good: "\<exists>ds. length ds = 2
         \<and> files disk0 ''/in/a-b-7-1-2'' = Some (ds ! 0)
         \<and> files disk0 ''/in/a-b-7-2-2'' = Some (ds ! 1)
         \<and> ''hello world'' = concat ds"
    by blast
  have nm: "resp_ShardSize response0 + 1 \<noteq> 0" by (simp add: n)
  from SubmitOffChainData_reassembles [OF ty mf, THEN conjunct2, THEN conjunct1, rule_format,
      OF nm]
  have returns: "\<exists>r fs'. SubmitOffChainData decls0 client0 response0 disk0 = Some (r, fs')" .
  have ty3: "resp_Type (response0\<lparr>resp_ShardSize := 3\<rparr>) = GetDataResponse_DATA_GET_SUCCESS decls0"
    by (simp add: response0_def decls0_def)
  have sp3: "savePath decls0 client0 (response0\<lparr>resp_ShardSize := 3\<rparr>) fs
               = ''/data/a-b-7-'' @ now fs" for fs
    by (simp add: savePath_def decls0_def client0_def response0_def)
  have mf3: "?mf = savePath decls0 client0 (response0\<lparr>resp_ShardSize := 3\<rparr>) disk0"
    by (simp add: sp3 disk0_def)
  have p3: "shardPath decls0 (response0\<lparr>resp_ShardSize := 3\<rparr>) 1 = ''/in/a-b-7-1-3''"
    by (simp add: shardPath_def shardName_def decimal.simps decls0_def response0_def)
  have n3: "resp_ShardSize (response0\<lparr>resp_ShardSize := 3\<rparr>) = 3" by simp
  have missing: "SubmitOffChainData decls0 client0 (response0\<lparr>resp_ShardSize := 3\<rparr>) disk0 =
       Some (Some ''open /in/a-b-7-1-3: no such file or directory'',
             disk0\<lparr>files := (files disk0)(?mf \<mapsto> []),
                   fs_trace :=
                     [Ev_OpenFile ?mf None,
                      Ev_Open ''/in/a-b-7-1-3''
                        (Some ''open /in/a-b-7-1-3: no such file or directory'')]\<rparr>)"
    by (simp add: SubmitOffChainData_def ty3 sp3 shardLoop_body n3 p3
        os_OpenFile_def os_Open_def fileContent_def disk0_def Let_def)
  from SubmitOffChainData_reassembles [OF ty3 mf3, THEN conjunct2, THEN conjunct2,
      THEN conjunct2, rule_format, OF missing]
  have bad: "\<exists>evs ev.
         [Ev_OpenFile ?mf None,
          Ev_Open ''/in/a-b-7-1-3'' (Some ''open /in/a-b-7-1-3: no such file or directory'')]
         = fs_trace disk0 @ evs @ [ev]
         \<and> ev_error ev = Some ''open /in/a-b-7-1-3: no such file or directory''
         \<and> list_all (\<lambda>e. ev_error e = None) evs"
    by (simp add: list_all_iff)
  from ty run good returns missing bad show ?thesis by blast
qed

text \<open>
  The claim as stated fails when the output file exists already, which happens when the
  same response is delivered twice within one second: the file is opened for appending,
  so the second delivery leaves the two shards twice in it.
\<close>

theorem SubmitOffChainData_reassembles_counterexample:
  "resp_Type response0 = GetDataResponse_DATA_GET_SUCCESS decls0
   \<and> resp_ShardSize response0 = 2
   \<and> savePath decls0 client0 response0 disk1 = ''/data/a-b-7-2021.10.01-12:00:00''
   \<and> shardPath decls0 response0 1 = ''/in/a-b-7-1-2''
   \<and> shardPath decls0 response0 2 = ''/in/a-b-7-2-2''
   \<and> files disk1 ''/in/a-b-7-1-2'' = Some ''hello ''
   \<and> files disk1 ''/in/a-b-7-2-2'' = Some ''world''
   \<and> SubmitOffChainData decls0 client0 response0 disk1 =
       Some (None,
         disk1\<lparr>files := (files disk1)(''/data/a-b-7-2021.10.01-12:00:00'' \<mapsto>
                                          ''hello worldhello world''),
               fs_trace :=
                 [Ev_OpenFile ''/data/a-b-7-2021.10.01-12:00:00'' None,
                  Ev_Open ''/in/a-b-7-1-2'' None,
                  Ev_ReadAll ''/in/a-b-7-1-2'' (Inr ''hello ''),
                  Ev_Write ''/data/a-b-7-2021.10.01-12:00:00'' ''hello '' None,
                  Ev_Open ''/in/a-b-7-2-2'' None,
                  Ev_ReadAll ''/in/a-b-7-2-2'' (Inr ''world''),
                  Ev_Write ''/data/a-b-7-2021.10.01-12:00:00'' ''world'' None]\<rparr>)
   \<and> ''hello worldhello world'' \<noteq> ''hello '' @ ''world''"
proof -
  have ty: "resp_Type response0 = GetDataResponse_DATA_GET_SUCCESS decls0"
    by (simp add: response0_def decls0_def)
  have sp: "savePath decls0 client0 response0 fs = ''/data/a-b-7-'' @ now fs" for fs
    by (simp add: savePath_def decls0_def client0_def response0_def)
  have p1: "shardPath decls0 response0 1 = ''/in/a-b-7-1-2''"
    by (simp add: shardPath_def shardName_def decimal.simps decls0_def response0_def)
  have p2: "shardPath decls0 response0 2 = ''/in/a-b-7-2-2''"
    by (simp add: shardPath_def shardName_def decimal.simps decls0_def response0_def)
  have n: "resp_ShardSize response0 = 2" by (simp add: response0_def)
  have run: "SubmitOffChainData decls0 client0 response0 disk1 =
       Some (None,
         disk1\<lparr>files := (files disk1)(''/data/a-b-7-2021.10.01-12:00:00'' \<mapsto>
                                          ''hello worldhello world''),
               fs_trace :=
                 [Ev_OpenFile ''/data/a-b-7-2021.10.01-12:00:00'' None,
                  Ev_Open ''/in/a-b-7-1-2'' None,
                  Ev_ReadAll ''/in/a-b-7-1-2'' (Inr ''hello ''),
                  Ev_Write ''/data/a-b-7-2021.10.01-12:00:00'' ''hello '' None,
                  Ev_Open ''/in/a-b-7-2-2'' None,
                  Ev_ReadAll ''/in/a-b-7-2-2'' (Inr ''world''),
                  Ev_Write ''/data/a-b-7-2021.10.01-12:00:00'' ''world'' None]\<rparr>)"
    by (simp add: SubmitOffChainData_def ty sp shardLoop_body shardLoop_exit n p1 p2
        os_OpenFile_def os_Open_def ioutil_ReadAll_def file_Write_def fileContent_def
        disk1_def disk0_def Let_def)
  have "savePath decls0 client0 response0 disk1 = ''/data/a-b-7-2021.10.01-12:00:00''"
    by (simp add: sp disk1_def disk0_def)
  moreover have "files disk1 ''/in/a-b-7-1-2'' = Some ''hello ''"
    "files disk1 ''/in/a-b-7-2-2'' = Some ''world''"
    by (simp_all add: disk1_def disk0_def)
  ultimately show ?thesis using ty n p1 p2 run by simp
qed

text \<open>
  C8. For a response whose outcome tag is not the success value, \<^verbatim>\<open>SubmitOffChainData\<close>
  leaves the file system untouched and returns the error whose text is the tag's name, a
  colon and the response message; a tag named \<^verbatim>\<open>failure\<close> with the message
  \<^verbatim>\<open>disk full\<close> gives \<^verbatim>\<open>failure:disk full\<close>.
\<close>

theorem SubmitOffChainData_failure:
  assumes "resp_Type response \<noteq> GetDataResponse_DATA_GET_SUCCESS d"
  shows "SubmitOffChainData d c response fs =
           Some (Some (GetDataResponse_Type_String d (resp_Type response) @ '':''
                       @ resp_Msg response), fs)
       \<and> (GetDataResponse_Type_String d (resp_Type response) = ''failure''
            \<and> resp_Msg response = ''disk full''
          \<longrightarrow> SubmitOffChainData d c response fs = Some (Some ''failure:disk full'', fs))"
  using assms by (simp add: SubmitOffChainData_def)

theorem SubmitOffChainData_failure_witness:
  "resp_Type (response0\<lparr>resp_Type := 1, resp_Msg := ''disk full''\<rparr>)
     \<noteq> GetDataResponse_DATA_GET_SUCCESS decls0
   \<and> SubmitOffChainData decls0 client0 (response0\<lparr>resp_Type := 1, resp_Msg := ''disk full''\<rparr>) disk0
     = Some (Some ''failure:disk full'', disk0)"
proof -
  have ne: "resp_Type (response0\<lparr>resp_Type := 1, resp_Msg := ''disk full''\<rparr>)
     \<noteq> GetDataResponse_DATA_GET_SUCCESS decls0"
    by (simp add: decls0_def)
  from SubmitOffChainData_failure [OF ne, of client0 disk0, THEN conjunct2] ne
  show ?thesis by (simp add: decls0_def)
qed

section \<open>Header synchronisation: listener and poster\<close>

lemma listenLoop_exit:
  "\<not> i \<le> upper \<Longrightarrow> listenLoop HeaderByNumber upper i b asked = Some (Next, b, asked)"
  by (subst listenLoop.simps) simp

lemma listenLoop_body:
  "i \<le> upper \<Longrightarrow> listenLoop HeaderByNumber upper i b asked =
     (case HeaderByNumber (sint (currentNum b)) of
           Inl err \<Rightarrow> Some (Exit, b, asked @ [sint (currentNum b)])
         | Inr header \<Rightarrow>
             listenLoop HeaderByNumber upper (i + 1)
               (b\<lparr>recvHeaderCh := recvHeaderCh b @ [header], currentNum := currentNum b + 1\<rparr>)
               (asked @ [sint (currentNum b)]))"
  by (subst listenLoop.simps) simp

text \<open>
  What the inner loop does when its counter does not wrap: the heights it asks for are
  \<^verbatim>\<open>currentNum\<close>, \<^verbatim>\<open>currentNum + 1\<close>, ..., one for each value of the counter, each header
  answered is pushed and \<^verbatim>\<open>currentNum\<close> is advanced after it, and the first failing
  request ends the loop.
\<close>

lemma listenLoop_asks:
  assumes "unat i + k = Suc (unat upper)" and "upper + 1 \<noteq> 0"
  shows "\<exists>m hs r. m \<le> k \<and> length hs = m
      \<and> listenLoop fetch upper i b asked =
          Some (r, b\<lparr>recvHeaderCh := recvHeaderCh b @ hs, currentNum := currentNum b + of_nat m\<rparr>,
                asked @ map (\<lambda>j. sint (currentNum b + of_nat j))
                          [0..<(case r of Next \<Rightarrow> m | Exit \<Rightarrow> Suc m)])
      \<and> (\<forall>j<m. fetch (sint (currentNum b + of_nat j)) = Inr (hs ! j))
      \<and> (r = Next \<longrightarrow> m = k)
      \<and> (r = Exit \<longrightarrow> m < k \<and> (\<exists>err. fetch (sint (currentNum b + of_nat m)) = Inl err))"
  using assms(1)
proof (induction k arbitrary: i b asked)
  case 0
  then have "\<not> i \<le> upper" by (simp add: word_le_nat_alt)
  then have "listenLoop fetch upper i b asked = Some (Next, b, asked)" by (rule listenLoop_exit)
  then show ?case by (intro exI [of _ 0] exI [of _ "[]"] exI [of _ Next]) simp
next
  case (Suc k)
  then have le: "i \<le> upper" by (simp add: word_le_nat_alt)
  from word_next [OF le assms(2)] Suc.prems
  have next_i: "unat (i + 1) + k = Suc (unat upper)" by simp
  show ?case
  proof (cases "fetch (sint (currentNum b))")
    case (Inl err)
    with le have "listenLoop fetch upper i b asked = Some (Exit, b, asked @ [sint (currentNum b)])"
      by (simp add: listenLoop_body)
    with Inl show ?thesis by (intro exI [of _ 0] exI [of _ "[]"] exI [of _ Exit]) simp
  next
    case (Inr h)
    let ?b1 = "b\<lparr>recvHeaderCh := recvHeaderCh b @ [h], currentNum := currentNum b + 1\<rparr>"
    let ?a1 = "asked @ [sint (currentNum b)]"
    from le Inr have step: "listenLoop fetch upper i b asked = listenLoop fetch upper (i + 1) ?b1 ?a1"
      by (simp add: listenLoop_body)
    from Suc.IH [OF next_i, of ?b1 ?a1] obtain m hs r where ih: "m \<le> k" "length hs = m"
      "listenLoop fetch upper (i + 1) ?b1 ?a1 =
          Some (r, ?b1\<lparr>recvHeaderCh := recvHeaderCh ?b1 @ hs,
                       currentNum := currentNum ?b1 + of_nat m\<rparr>,
                ?a1 @ map (\<lambda>j. sint (currentNum ?b1 + of_nat j))
                          [0..<(case r of Next \<Rightarrow> m | Exit \<Rightarrow> Suc m)])"
      "\<forall>j<m. fetch (sint (currentNum ?b1 + of_nat j)) = Inr (hs ! j)"
      "r = Next \<longrightarrow> m = k"
      "r = Exit \<longrightarrow> m < k \<and> (\<exists>err. fetch (sint (currentNum ?b1 + of_nat m)) = Inl err)"
      by blast
    have shift: "currentNum b + 1 + of_nat j = currentNum b + of_nat (Suc j)" for j
      by simp
    have asked: "?a1 @ map (\<lambda>j. sint (currentNum ?b1 + of_nat j)) [0..<n]
                   = asked @ map (\<lambda>j. sint (currentNum b + of_nat j)) [0..<Suc n]" for n
      by (simp add: map_upt_Suc add.assoc del: upt_Suc)
    have "listenLoop fetch upper i b asked =
          Some (r, b\<lparr>recvHeaderCh := recvHeaderCh b @ (h # hs),
                     currentNum := currentNum b + of_nat (Suc m)\<rparr>,
                asked @ map (\<lambda>j. sint (currentNum b + of_nat j))
                          [0..<(case r of Next \<Rightarrow> Suc m | Exit \<Rightarrow> Suc (Suc m))])"
      using step ih(3) asked [of m] asked [of "Suc m"]
      by (cases r) (simp_all add: add.assoc del: upt_Suc)
    moreover have "\<forall>j<Suc m. fetch (sint (currentNum b + of_nat j)) = Inr ((h # hs) ! j)"
    proof (intro allI impI)
      fix j assume "j < Suc m"
      then show "fetch (sint (currentNum b + of_nat j)) = Inr ((h # hs) ! j)"
        using ih(4) Inr by (cases j) (simp_all add: add.assoc)
    qed
    moreover have "r = Exit \<longrightarrow> Suc m < Suc k
                     \<and> (\<exists>err. fetch (sint (currentNum b + of_nat (Suc m))) = Inl err)"
      using ih(6) by (simp add: add.assoc)
    ultimately show ?thesis using ih(1,2,5)
      by (intro exI [of _ "Suc m"] exI [of _ "h # hs"] exI [of _ r]) simp
  qed
qed

text \<open>
  C5. The loop counts \<open>i\<close> from \<^verbatim>\<open>currentNum + 1\<close> up to \<^verbatim>\<open>latestHeight - Threshold\<close>, but
  the header it asks for is the one of \<^verbatim>\<open>currentNum\<close>, which is \<open>i - 1\<close>. With
  \<^verbatim>\<open>currentNum\<close> 10, \<^verbatim>\<open>Threshold\<close> 20 and a latest height of 32, the heights of the
  claim are 11 and 12; the listener asks for the headers 10 and 11, pushes them and
  leaves \<^verbatim>\<open>currentNum\<close> at 12: the header of height 10 is fetched although
  \<^verbatim>\<open>currentNum\<close> was 10 already, and the header of height 12 is not fetched in this tick.
\<close>

theorem listenHeader_fetches_currentNum:
  "listenHeader 20 node0 [Ticked (Inr 32)] (newHeaderPool 10) []
     = Some (\<lparr>batchCh = [],
               recvHeaderCh = [\<lparr>hdr_Number = 10, hdr_Data = ''header''\<rparr>,
                               \<lparr>hdr_Number = 11, hdr_Data = ''header''\<rparr>],
               headersSet = [], currentNum = 12\<rparr>,
             [10, 11])
   \<and> currentNum (newHeaderPool 10) + 1 = 11 \<and> (32 :: u64) - 20 = 12
   \<and> [10, 11] \<noteq> [11, 12 :: int]"
  by (simp add: newHeaderPool_def listenLoop_body listenLoop_exit node0_def)

lemma postHeaders_sent:
  "\<exists>bs. marshalled (postHeaders filterLog json_Marshal evs s) = marshalled s @ bs
        \<and> [] \<notin> set bs
        \<and> metaC (postHeaders filterLog json_Marshal evs s)
            = metaC s @ map (\<lambda>b. \<lparr>Meta = fst (json_Marshal b)\<rparr>) bs"
proof (induction filterLog json_Marshal evs s rule: postHeaders.induct)
  case (1 filterLog json_Marshal s)
  show ?case by simp
next
  case (2 filterLog json_Marshal header evs s)
  then show ?case by simp
next
  case (3 filterLog json_Marshal evs s)
  show ?case
  proof (cases "headersSet (hp s) = []")
    case True
    with 3(2) show ?thesis by simp
  next
    case False
    let ?batch = "map (filterLog (headersSet (hp s))) [0..<length (headersSet (hp s))]"
    let ?s1 = "s\<lparr>hp := (hp s)\<lparr>headersSet := []\<rparr>,
                 metaC := metaC s @ [\<lparr>Meta = fst (json_Marshal ?batch)\<rparr>],
                 marshalled := marshalled s @ [?batch]\<rparr>"
    from False have run: "postHeaders filterLog json_Marshal (TickerFired # evs) s
                     = postHeaders filterLog json_Marshal evs ?s1"
      by (simp add: Let_def)
    from False 3(1) [OF _ refl refl] obtain bs where
      "marshalled (postHeaders filterLog json_Marshal evs ?s1) = marshalled ?s1 @ bs"
      "[] \<notin> set bs"
      "metaC (postHeaders filterLog json_Marshal evs ?s1)
         = metaC ?s1 @ map (\<lambda>b. \<lparr>Meta = fst (json_Marshal b)\<rparr>) bs"
      by auto
    with False run show ?thesis by (intro exI [of _ "?batch # bs"]) simp
  qed
next
  case (4 filterLog json_Marshal evs s)
  show ?case by simp
qed

text \<open>
  C6. Whatever headers arrive and whenever the ticker fires, every batch that
  \<^verbatim>\<open>postHeaders\<close> serialises is non-empty, and the messages it sends on the metadata
  channel are the serialisations of these batches, one message for each. A tick with an
  empty buffer changes nothing. A tick with a non-empty buffer serialises the buffered
  headers, as \<^verbatim>\<open>filterLog\<close> has left them, sends them as one message and leaves the buffer
  empty.
\<close>

theorem postHeaders_batches_nonempty:
  "(\<exists>bs. marshalled (postHeaders filterLog json_Marshal evs s) = marshalled s @ bs
        \<and> [] \<notin> set bs
        \<and> metaC (postHeaders filterLog json_Marshal evs s)
            = metaC s @ map (\<lambda>b. \<lparr>Meta = fst (json_Marshal b)\<rparr>) bs)
   \<and> (headersSet (hp s) = [] \<longrightarrow>
        postHeaders filterLog json_Marshal (TickerFired # evs) s
          = postHeaders filterLog json_Marshal evs s)
   \<and> (headersSet (hp s) \<noteq> [] \<longrightarrow>
        postHeaders filterLog json_Marshal (TickerFired # evs) s
          = postHeaders filterLog json_Marshal evs
              (s\<lparr>hp := (hp s)\<lparr>headersSet := []\<rparr>,
                 metaC := metaC s @
                   [\<lparr>Meta = fst (json_Marshal (map (filterLog (headersSet (hp s)))
                                                [0..<length (headersSet (hp s))]))\<rparr>],
                 marshalled := marshalled s @
                   [map (filterLog (headersSet (hp s))) [0..<length (headersSet (hp s))]]\<rparr>)
        \<and> length (map (filterLog (headersSet (hp s))) [0..<length (headersSet (hp s))])
            = length (headersSet (hp s)))"
  using postHeaders_sent [of filterLog json_Marshal evs s] by (simp add: Let_def)

theorem postHeaders_batches_nonempty_witness:
  "postHeaders (\<lambda>batch i. batch ! i) (\<lambda>batch. (concat (map hdr_Data batch), None))
     [TickerFired, HeaderArrived \<lparr>hdr_Number = 11, hdr_Data = ''header''\<rparr>, TickerFired,
      TickerFired]
     \<lparr>hp = newHeaderPool 10, metaC = [], marshalled = []\<rparr>
   = \<lparr>hp = newHeaderPool 10, metaC = [\<lparr>Meta = ''header''\<rparr>],
      marshalled = [[\<lparr>hdr_Number = 11, hdr_Data = ''header''\<rparr>]]\<rparr>
   \<and> (\<exists>bs. [[\<lparr>hdr_Number = 11, hdr_Data = ''header''\<rparr>]] = [] @ bs \<and> [] \<notin> set bs)"
proof -
  let ?F = "\<lambda>(batch :: Header list) i. batch ! i"
  let ?M = "\<lambda>batch :: Header list. (concat (map hdr_Data batch), None :: error option)"
  let ?h = "\<lparr>hdr_Number = 11, hdr_Data = ''header''\<rparr>"
  let ?s0 = "\<lparr>hp = newHeaderPool 10, metaC = [], marshalled = []\<rparr>"
  let ?s1 = "\<lparr>hp = (newHeaderPool 10)\<lparr>headersSet := [?h]\<rparr>, metaC = [], marshalled = []\<rparr>"
  let ?s2 = "\<lparr>hp = newHeaderPool 10, metaC = [\<lparr>Meta = ''header''\<rparr>], marshalled = [[?h]]\<rparr>"
  have e0: "headersSet (hp ?s0) = []" by (simp add: newHeaderPool_def)
  have n1: "headersSet (hp ?s1) \<noteq> []" by simp
  have e2: "headersSet (hp ?s2) = []" by (simp add: newHeaderPool_def)
  have a0: "postHeaders ?F ?M [HeaderArrived ?h, TickerFired, TickerFired] ?s0
              = postHeaders ?F ?M [TickerFired, TickerFired] ?s1"
    by (simp add: headerPool_append_def newHeaderPool_def)
  note th = postHeaders_batches_nonempty
  have t0: "postHeaders ?F ?M [TickerFired, HeaderArrived ?h, TickerFired, TickerFired] ?s0
              = postHeaders ?F ?M [HeaderArrived ?h, TickerFired, TickerFired] ?s0"
    by (rule th [THEN conjunct2, THEN conjunct1, rule_format, OF e0])
  have t1: "postHeaders ?F ?M [TickerFired, TickerFired] ?s1
              = postHeaders ?F ?M [TickerFired]
                  (?s1\<lparr>hp := (hp ?s1)\<lparr>headersSet := []\<rparr>,
                     metaC := metaC ?s1 @
                       [\<lparr>Meta = fst (?M (map (?F (headersSet (hp ?s1)))
                                              [0..<length (headersSet (hp ?s1))]))\<rparr>],
                     marshalled := marshalled ?s1 @
                       [map (?F (headersSet (hp ?s1))) [0..<length (headersSet (hp ?s1))]]\<rparr>)"
    by (rule th [THEN conjunct2, THEN conjunct2, rule_format, OF n1, THEN conjunct1])
  have s2: "?s1\<lparr>hp := (hp ?s1)\<lparr>headersSet := []\<rparr>,
                     metaC := metaC ?s1 @
                       [\<lparr>Meta = fst (?M (map (?F (headersSet (hp ?s1)))
                                              [0..<length (headersSet (hp ?s1))]))\<rparr>],
                     marshalled := marshalled ?s1 @
                       [map (?F (headersSet (hp ?s1))) [0..<length (headersSet (hp ?s1))]]\<rparr>
            = ?s2"
    by (simp add: newHeaderPool_def)
  have t2: "postHeaders ?F ?M [TickerFired] ?s2 = postHeaders ?F ?M [] ?s2"
    by (rule th [THEN conjunct2, THEN conjunct1, rule_format, OF e2])
  have run: "postHeaders ?F ?M [TickerFired, HeaderArrived ?h, TickerFired, TickerFired] ?s0 = ?s2"
    unfolding t0 a0 t1 s2 t2 by simp
  from th [of ?F ?M "[TickerFired, HeaderArrived ?h, TickerFired, TickerFired]" ?s0,
      THEN conjunct1]
  obtain bs where bs: "marshalled (postHeaders ?F ?M
        [TickerFired, HeaderArrived ?h, TickerFired, TickerFired] ?s0) = marshalled ?s0 @ bs"
    "[] \<notin> set bs"
    by blast
  from bs(1) have "[[?h]] = [] @ bs" unfolding run by simp
  with bs(2) have "\<exists>bs. [[?h]] = [] @ bs \<and> [] \<notin> set bs" by blast
  with run show ?thesis by blast
qed

section \<open>Event conversion\<close>

lemma handleArgs_Split: "handleArgs args = Split args CHR '',''"
proof -
  have "foldl (\<lambda>acc a. acc @ [a]) acc xs = acc @ xs" for acc and xs :: "bytes list"
    by (induction xs arbitrary: acc) simp_all
  then show ?thesis by (simp add: handleArgs_def)
qed

text \<open>
  C10. Whenever the event's function list has three entries, so that the content object
  is built, its call, callback and rollback argument lists are the same list: the pieces
  of the event's comma-joined argument string.
\<close>

theorem payloadContent_args_identical:
  assumes "payloadContent ev = Inr content"
  shows "ArgsCb content = Args content \<and> ArgsRb content = Args content
       \<and> Args content = Split (ev_Args ev) CHR '',''"
  using assms
  by (auto simp: payloadContent_def Let_def handleArgs_Split split: if_splits)

theorem payloadContent_args_identical_witness:
  "payloadContent \<lparr> ev_Index = 1, ev_To = ''0xB'', ev_Fid = ''0xA'', ev_Tid = ''mychannel'',
       ev_Funcs = ''set,ack,undo'', ev_Args = ''k,v'' \<rparr>
     = Inr \<lparr> SrcContractId = ''0xA'', DstContractId = ''mychannel'', Func = ''set'',
             Args = [''k'', ''v''], Callback = ''ack'', ArgsCb = [''k'', ''v''],
             Rollback = ''undo'', ArgsRb = [''k'', ''v''] \<rparr>
   \<and> ArgsCb \<lparr> SrcContractId = ''0xA'', DstContractId = ''mychannel'', Func = ''set'',
             Args = [''k'', ''v''], Callback = ''ack'', ArgsCb = [''k'', ''v''],
             Rollback = ''undo'', ArgsRb = [''k'', ''v''] \<rparr> = [''k'', ''v'']"
proof -
  have ev: "payloadContent \<lparr> ev_Index = 1, ev_To = ''0xB'', ev_Fid = ''0xA'', ev_Tid = ''mychannel'',
       ev_Funcs = ''set,ack,undo'', ev_Args = ''k,v'' \<rparr>
     = Inr \<lparr> SrcContractId = ''0xA'', DstContractId = ''mychannel'', Func = ''set'',
             Args = [''k'', ''v''], Callback = ''ack'', ArgsCb = [''k'', ''v''],
             Rollback = ''undo'', ArgsRb = [''k'', ''v''] \<rparr>"
    by (simp add: payloadContent_def handleArgs_def Let_def)
  from payloadContent_args_identical [OF ev] ev show ?thesis by simp
qed


end
